(* ===== verification/Prelude.thy ===== *)
theory Prelude
  imports Main "HOL-Library.AList" "HOL-Library.Word"
begin

text \<open>
  Shared vocabulary of the development. The REST client is Python code whose
  operations mutate variables of an enclosing context manager, may raise
  exceptions, and may block forever on an unresponsive transport. All three
  effects are captured by one state/exception/divergence monad:
  an action of type \<open>('s, 'a) cm\<close> maps a state to \<open>None\<close> (the call never
  returns) or to the final state together with either a raised exception
  (\<open>Inl\<close>) or a returned value (\<open>Inr\<close>). The state reached when an exception
  is raised is kept, since side effects performed before a Python \<open>raise\<close>
  are not undone.
\<close>

section \<open>Python exceptions\<close>

text \<open>The exception classes that the modelled code raises or catches.\<close>

datatype exn =
    ConnectionError      \<comment> \<open>\<open>requests.exceptions.ConnectionError\<close>\<close>
  | ValueError
  | RuntimeError
  | UnboundLocalError
  | IndexError
  | KeyError
  | RecursionError
  | AttributeError

section \<open>The client monad\<close>

type_synonym ('s, 'a) cm = "'s \<Rightarrow> ('s \<times> (exn + 'a)) option"

named_theorems cm_simps "unfolding rules of the client monad"

definition ret :: "'a \<Rightarrow> ('s, 'a) cm" where
  "ret a s = Some (s, Inr a)"

definition throw :: "exn \<Rightarrow> ('s, 'a) cm" where
  "throw e s = Some (s, Inl e)"

definition bindc :: "('s, 'a) cm \<Rightarrow> ('a \<Rightarrow> ('s, 'b) cm) \<Rightarrow> ('s, 'b) cm" where
  "bindc m f s =
     (case m s of
        None \<Rightarrow> None
      | Some (s', Inl e) \<Rightarrow> Some (s', Inl e)
      | Some (s', Inr a) \<Rightarrow> f a s')"

text \<open>\<open>try: m except: h\<close>; the handler decides itself whether to re-raise.\<close>

definition catch :: "('s, 'a) cm \<Rightarrow> (exn \<Rightarrow> ('s, 'a) cm) \<Rightarrow> ('s, 'a) cm" where
  "catch m h s =
     (case m s of
        None \<Rightarrow> None
      | Some (s', Inl e) \<Rightarrow> h e s'
      | Some (s', Inr a) \<Rightarrow> Some (s', Inr a))"

definition modify :: "('s \<Rightarrow> 's) \<Rightarrow> ('s, unit) cm" where
  "modify f s = Some (f s, Inr ())"

definition gets :: "('s \<Rightarrow> 'a) \<Rightarrow> ('s, 'a) cm" where
  "gets f s = Some (s, Inr (f s))"

text \<open>Sequencing that discards the first result.\<close>

definition thenc :: "('s, 'a) cm \<Rightarrow> ('s, 'b) cm \<Rightarrow> ('s, 'b) cm" where
  "thenc m k = bindc m (\<lambda>_. k)"

text \<open>A Python \<open>for\<close> loop whose body may raise: the first exception aborts.\<close>

primrec for_each :: "('x \<Rightarrow> ('s, unit) cm) \<Rightarrow> 'x list \<Rightarrow> ('s, unit) cm" where
  "for_each f [] = ret ()"
| "for_each f (x # xs) = thenc (f x) (for_each f xs)"

declare ret_def [cm_simps] throw_def [cm_simps] bindc_def [cm_simps] catch_def [cm_simps]
  modify_def [cm_simps] gets_def [cm_simps] thenc_def [cm_simps]

section \<open>Monad laws\<close>

lemma bindc_ret [simp]: "bindc (ret a) f = f a"
  by (simp add: fun_eq_iff cm_simps)

lemma bindc_throw [simp]: "bindc (throw e) f = throw e"
  by (simp add: fun_eq_iff cm_simps)

lemma ret_bindc [simp]: "bindc m ret = m"
  by (auto simp: fun_eq_iff cm_simps split: option.splits sum.splits)

lemma bindc_assoc: "bindc (bindc m f) g = bindc m (\<lambda>a. bindc (f a) g)"
  by (auto simp: fun_eq_iff cm_simps split: option.splits sum.splits)

lemma catch_ret [simp]: "catch (ret a) h = ret a"
  by (simp add: fun_eq_iff cm_simps)

lemma catch_throw [simp]: "catch (throw e) h = h e"
  by (simp add: fun_eq_iff cm_simps)

section \<open>Reading results\<close>

text \<open>
  The outcome of running an action: the final state of a returning call,
  and whether it returned normally.
\<close>

definition returns :: "('s, 'a) cm \<Rightarrow> 's \<Rightarrow> bool" where
  "returns m s \<longleftrightarrow> m s \<noteq> None"

lemma returns_bindc:
  "returns (bindc m f) s \<longleftrightarrow>
     returns m s \<and> (\<forall>s' a. m s = Some (s', Inr a) \<longrightarrow> returns (f a) s')"
  by (auto simp: returns_def cm_simps split: option.splits sum.splits)

lemma returns_ret [simp]: "returns (ret a) s"
  and returns_throw [simp]: "returns (throw e) s"
  and returns_modify [simp]: "returns (modify f) s"
  by (simp_all add: returns_def cm_simps)

lemma returns_catch:
  "returns m s \<Longrightarrow> (\<forall>s' e. m s = Some (s', Inl e) \<longrightarrow> returns (h e) s') \<Longrightarrow>
   returns (catch m h) s"
  by (auto simp: returns_def cm_simps split: option.splits sum.splits)

lemma returns_for_each:
  "(\<And>x s. x \<in> set xs \<Longrightarrow> returns (f x) s) \<Longrightarrow> returns (for_each f xs) s"
proof (induction xs arbitrary: s)
  case Nil
  then show ?case by simp
next
  case (Cons x xs)
  then show ?case
    by (simp add: thenc_def returns_bindc)
qed

section \<open>Total actions under a state invariant\<close>

text \<open>
  \<open>total_on P m\<close>: from every state satisfying \<open>P\<close> the action returns (it
  may raise) in a state satisfying \<open>P\<close> again. The rules below prove it
  compositionally, one rule per combinator, in the manner of a total
  correctness calculus.
\<close>

definition total_on :: "('s \<Rightarrow> bool) \<Rightarrow> ('s, 'a) cm \<Rightarrow> bool" where
  "total_on P m \<longleftrightarrow> (\<forall>s. P s \<longrightarrow> (\<exists>s' x. m s = Some (s', x) \<and> P s'))"

named_theorems total_intros "rules proving total_on compositionally"

lemma total_onD: "total_on P m \<Longrightarrow> P s \<Longrightarrow> \<exists>s' x. m s = Some (s', x) \<and> P s'"
  by (simp add: total_on_def)

lemma total_ret [total_intros]: "total_on P (ret a)"
  and total_throw [total_intros]: "total_on P (throw e)"
  and total_gets [total_intros]: "total_on P (gets g)"
  by (simp_all add: total_on_def cm_simps)

lemma total_modify [total_intros]: "(\<And>s. P s \<Longrightarrow> P (f s)) \<Longrightarrow> total_on P (modify f)"
  by (simp add: total_on_def cm_simps)

lemma total_bindc [total_intros]: "total_on P m \<Longrightarrow> (\<And>a. total_on P (f a)) \<Longrightarrow> total_on P (bindc m f)"
  unfolding total_on_def bindc_def by (fastforce split: option.splits sum.splits)

lemma total_thenc [total_intros]: "total_on P m \<Longrightarrow> total_on P k \<Longrightarrow> total_on P (thenc m k)"
  unfolding thenc_def by (rule total_bindc)

lemma total_catch [total_intros]: "total_on P m \<Longrightarrow> (\<And>e. total_on P (h e)) \<Longrightarrow> total_on P (catch m h)"
  unfolding total_on_def catch_def by (fastforce split: option.splits sum.splits)

lemma total_for_each [total_intros]: "(\<And>x. total_on P (f x)) \<Longrightarrow> total_on P (for_each f xs)"
  by (induction xs) (auto intro: total_intros)

lemma total_case_option [total_intros]:
  "total_on P a \<Longrightarrow> (\<And>x. total_on P (b x)) \<Longrightarrow> total_on P (case v of None \<Rightarrow> a | Some x \<Rightarrow> b x)"
  by (cases v) auto

lemma total_if [total_intros]: "total_on P a \<Longrightarrow> total_on P b \<Longrightarrow> total_on P (if c then a else b)"
  by simp

lemma total_case_list [total_intros]:
  "total_on P a \<Longrightarrow> (\<And>x xs. total_on P (b x xs)) \<Longrightarrow> total_on P (case v of [] \<Rightarrow> a | x # xs \<Rightarrow> b x xs)"
  by (cases v) auto

lemma total_case_sum [total_intros]:
  "(\<And>x. total_on P (a x)) \<Longrightarrow> (\<And>y. total_on P (b y)) \<Longrightarrow> total_on P (case v of Inl x \<Rightarrow> a x | Inr y \<Rightarrow> b y)"
  by (cases v) auto

lemma total_Let [total_intros]: "(\<And>x. total_on P (f x)) \<Longrightarrow> total_on P (Let v f)"
  by simp

text \<open>An invariant that every run of the action preserves can be carried along.\<close>

lemma total_on_conj:
  "total_on P m \<Longrightarrow> (\<And>s s' x. m s = Some (s', x) \<Longrightarrow> Q s \<Longrightarrow> Q s') \<Longrightarrow> total_on (\<lambda>s. P s \<and> Q s) m"
  unfolding total_on_def by blast

section \<open>Generic facts on lists and association lists\<close>

lemma distinct_fst_update [simp]:
  "distinct (map fst al) \<Longrightarrow> distinct (map fst (AList.update k v al))"
  by (rule distinct_update)

lemma set_fst_update [simp]: "fst ` set (AList.update k v al) = insert k (fst ` set al)"
  by (simp add: dom_update)

lemma filter_remdups_count:
  "x \<in> set xs \<Longrightarrow> count_list (remdups xs) x = 1"
  by (induction xs) auto

lemma count_list_remdups_notin:
  "x \<notin> set xs \<Longrightarrow> count_list (remdups xs) x = 0"
  by (induction xs) auto

lemma set_update_subset: "set (AList.update k v al) \<subseteq> insert (k, v) (set al)"
  by (induction al) auto

lemma fold_max_ge_acc: "(a::nat) \<le> fold max xs a"
proof (induction xs arbitrary: a)
  case Nil
  then show ?case by simp
next
  case (Cons y ys)
  have "a \<le> max y a" by simp
  also have "\<dots> \<le> fold max ys (max y a)" by (rule Cons.IH)
  finally show ?case by simp
qed

lemma fold_max_ge: "x \<in> set xs \<Longrightarrow> (x::nat) \<le> fold max xs a"
proof (induction xs arbitrary: a)
  case Nil
  then show ?case by simp
next
  case (Cons y ys)
  show ?case
  proof (cases "x = y")
    case True
    have "x \<le> max y a" using True by simp
    also have "\<dots> \<le> fold max ys (max y a)" by (rule fold_max_ge_acc)
    finally show ?thesis by simp
  next
    case False
    with Cons show ?thesis by simp
  qed
qed

section \<open>Python dictionaries\<close>

text \<open>
  A dictionary as an association list with distinct keys, in insertion
  order; \<open>d.update(other)\<close> stores the pairs of \<open>other\<close> one by one.
\<close>

definition dict_update :: "('k \<times> 'v) list \<Rightarrow> ('k \<times> 'v) list \<Rightarrow> ('k \<times> 'v) list" where
  "dict_update d other = fold (\<lambda>(k, v). AList.update k v) other d"

lemma dict_update_Cons [simp]:
  "dict_update d ((k, v) # other) = dict_update (AList.update k v d) other"
  by (simp add: dict_update_def)

lemma dict_update_Nil [simp]: "dict_update d [] = d"
  by (simp add: dict_update_def)

lemma dict_update_keys: "fst ` set (dict_update d other) = fst ` set d \<union> fst ` set other"
proof (induction other arbitrary: d)
  case Nil
  then show ?case by simp
next
  case (Cons kv other)
  obtain k v where kv: "kv = (k, v)" by (cases kv)
  have "fst ` set (dict_update (AList.update k v d) other) =
        fst ` set (AList.update k v d) \<union> fst ` set other"
    by (rule Cons.IH)
  with kv show ?case by (auto simp: dom_update)
qed

lemma dict_update_distinct: "distinct (map fst d) \<Longrightarrow> distinct (map fst (dict_update d other))"
  by (induction other arbitrary: d) (auto simp: distinct_update)

lemma dict_update_set: "set (dict_update d other) \<subseteq> set d \<union> set other"
proof (induction other arbitrary: d)
  case Nil
  then show ?case by simp
next
  case (Cons kv other)
  obtain k v where kv: "kv = (k, v)" by (cases kv)
  have "set (dict_update (AList.update k v d) other) \<subseteq> set (AList.update k v d) \<union> set other"
    by (rule Cons.IH)
  with set_update_subset [of k v d] kv show ?case by auto
qed

lemma fold_dict_update_keys:
  "fst ` set (fold (\<lambda>c d. dict_update d (f c)) cs d0) = fst ` set d0 \<union> (\<Union>c\<in>set cs. fst ` set (f c))"
  by (induction cs arbitrary: d0) (auto simp: dict_update_keys)

lemma fold_dict_update_distinct:
  "distinct (map fst d0) \<Longrightarrow> distinct (map fst (fold (\<lambda>c d. dict_update d (f c)) cs d0))"
  by (induction cs arbitrary: d0) (auto simp: dict_update_distinct)

lemma fold_dict_update_set:
  "set (fold (\<lambda>c d. dict_update d (f c)) cs d0) \<subseteq> set d0 \<union> (\<Union>c\<in>set cs. set (f c))"
proof (induction cs arbitrary: d0)
  case Nil
  then show ?case by simp
next
  case (Cons c cs)
  have "set (fold (\<lambda>c d. dict_update d (f c)) cs (dict_update d0 (f c))) \<subseteq>
        set (dict_update d0 (f c)) \<union> (\<Union>c\<in>set cs. set (f c))"
    by (rule Cons.IH)
  with dict_update_set [of d0 "f c"] show ?case by auto
qed

lemma map_fst_map_snd [simp]: "map fst (map (\<lambda>(k, v). (k, f v)) xs) = map fst xs"
  by (induction xs) auto

lemma fst_set_filter: "fst ` set (filter (\<lambda>(k, _). k \<in> S) xs) = fst ` set xs \<inter> S"
  by force

end
