(* ===== verification/Protocol.thy ===== *)
theory Protocol
  imports Prelude
begin

text \<open>
  The data the REST client exchanges with the SuperLink (the coordinator):
  node and run identifiers, message metadata, the object tree that describes
  how a message decomposes into content-addressed chunks, the request messages
  of the ten fleet endpoints and their URL paths
  (\<^verbatim>\<open>connection.py\<close>, lines 82--91), the observable events a call
  produces (HTTP posts, log lines, heartbeat start and stop), and the state of
  the \<^verbatim>\<open>http_request_response\<close> context manager (lines 160--179, 258).
  Protobuf messages are records of their fields; their wire encoding is not
  modelled.
\<close>

section \<open>Identifiers and payloads\<close>

type_synonym node_id = nat     \<comment> \<open>\<open>Node.node_id\<close>, a protobuf \<open>uint64\<close>\<close>
type_synonym run_id = nat
type_synonym object_id = string  \<comment> \<open>hex digest of the deflated object\<close>
type_synonym bytes = "8 word list"

record metadata =
  run_id :: run_id
  message_id :: object_id
  src_node_id :: node_id
  dst_node_id :: node_id
  reply_to_message_id :: object_id
  group_id :: string
  message_type :: string

text \<open>
  The body of an inflatable object: the root of a message carries the
  message's metadata (without its own id, which is the object's hash), every
  other object carries its serialised payload.
\<close>

datatype body = MessageBody metadata | Blob bytes

datatype obj = Obj (obj_body: body) (obj_children: "obj list")

text \<open>
  The deflated form of an object, as stored under its id: the ids of its
  children, in order, and its body. It is what the object-chunk endpoints
  carry.
\<close>

datatype deflated = Deflated (head_children: "object_id list") (head_body: body)

datatype object_tree = ObjectTree (tree_object_id: object_id) (tree_children: "object_tree list")

section \<open>Responses\<close>

record pull_messages_res =
  messages_list :: "metadata list"            \<comment> \<open>message envelopes, content stripped\<close>
  message_object_trees :: "object_tree list"

record push_messages_res =
  results :: "(object_id \<times> string) list"
  objects_to_push :: "(object_id \<times> object_id list) list"  \<comment> \<open>protobuf map\<close>

record pull_object_res =
  object_found :: bool
  object_available :: bool
  object_content :: deflated

record run_proto =
  proto_run_id :: run_id
  proto_fab_id :: string
  proto_fab_version :: string
  proto_fab_hash :: string

record fab_proto =
  proto_hash_str :: string
  proto_content :: bytes

section \<open>Requests and endpoints\<close>

datatype request =
    CreateNodeRequest nat                        \<comment> \<open>heartbeat interval\<close>
  | DeleteNodeRequest node_id
  | SendNodeHeartbeatRequest node_id nat
  | PullMessagesRequest node_id
  | PushMessagesRequest node_id "metadata list" "object_tree list"
  | PullObjectRequest node_id run_id object_id
  | PushObjectRequest node_id run_id object_id deflated
  | ConfirmMessageReceivedRequest node_id run_id object_id
  | GetRunRequest "node_id option" run_id
  | GetFabRequest "node_id option" string run_id

text \<open>The URL path each request is posted to (the \<open>PATH_*\<close> constants).\<close>

fun api_path :: "request \<Rightarrow> string" where
  "api_path (CreateNodeRequest _) = ''api/v0/fleet/create-node''"
| "api_path (DeleteNodeRequest _) = ''api/v0/fleet/delete-node''"
| "api_path (PullMessagesRequest _) = ''/api/v0/fleet/pull-messages''"
| "api_path (PushMessagesRequest _ _ _) = ''/api/v0/fleet/push-messages''"
| "api_path (PullObjectRequest _ _ _) = ''/api/v0/fleet/pull-object''"
| "api_path (PushObjectRequest _ _ _ _) = ''/api/v0/fleet/push-object''"
| "api_path (SendNodeHeartbeatRequest _ _) = ''api/v0/fleet/send-node-heartbeat''"
| "api_path (GetRunRequest _ _) = ''/api/v0/fleet/get-run''"
| "api_path (GetFabRequest _ _ _) = ''/api/v0/fleet/get-fab''"
| "api_path (ConfirmMessageReceivedRequest _ _ _) = ''/api/v0/fleet/confirm-message-received''"

text \<open>\<open>HEARTBEAT_DEFAULT_INTERVAL\<close> of \<open>flwr.common.constant\<close>, in seconds.\<close>

definition heartbeat_default_interval :: nat where
  "heartbeat_default_interval = 30"

section \<open>Observable events\<close>

datatype loglevel = DEBUG | INFO | WARN | ERROR

datatype event =
    Post string request      \<comment> \<open>one HTTP POST attempt: URL and request\<close>
  | Log loglevel string
  | HeartbeatStarted
  | HeartbeatStopped

section \<open>State of the context manager\<close>

text \<open>
  \<open>verify\<close> is the \<open>Union[bool, str]\<close> passed to \<open>requests.post\<close>:
  \<open>Inl b\<close> a boolean, \<open>Inr p\<close> a certificate path. \<open>node\<close> is the
  shared variable of line 179, \<open>hb_running\<close> the state of the
  \<open>HeartbeatSender\<close>, \<open>max_tries\<close> the mutable budget of the
  \<open>RetryInvoker\<close> (\<open>None\<close>: unlimited), \<open>events\<close> everything observable
  the client has done, oldest first.
\<close>

record client =
  base_url :: string
  verify :: "bool + string"
  node :: "node_id option"
  hb_running :: bool
  max_tries :: "nat option"
  events :: "event list"

definition emit :: "event \<Rightarrow> (client, unit) cm" where
  "emit e = modify (\<lambda>s. s\<lparr>events := events s @ [e]\<rparr>)"

definition log :: "loglevel \<Rightarrow> string \<Rightarrow> (client, unit) cm" where
  "log l msg = emit (Log l msg)"

section \<open>The network\<close>

text \<open>
  One HTTP attempt either raises (\<open>Inl\<close>, e.g. a refused connection) or
  returns a reply with a status code, an optional \<open>Content-Type\<close> header
  and a parsed body.
\<close>

record 'r http_reply =
  status_code :: nat
  content_type :: "string option"
  reply_body :: 'r

type_synonym 'r attempt = "exn + 'r http_reply"

text \<open>
  The SuperLink, seen from the client: for each endpoint and request
  arguments, the outcome of the \<open>k\<close>-th attempt of that request. Nothing is
  assumed about it; theorems state what they need of it.
\<close>

record net =
  rpc_create_node :: "nat \<Rightarrow> node_id attempt"
  rpc_delete_node :: "node_id \<Rightarrow> nat \<Rightarrow> unit attempt"
  rpc_heartbeat :: "node_id \<Rightarrow> nat \<Rightarrow> bool attempt"
  rpc_pull_messages :: "node_id \<Rightarrow> nat \<Rightarrow> pull_messages_res attempt"
  rpc_push_messages :: "node_id \<Rightarrow> metadata \<Rightarrow> object_tree \<Rightarrow> nat \<Rightarrow> push_messages_res attempt"
  rpc_pull_object :: "node_id \<Rightarrow> run_id \<Rightarrow> object_id \<Rightarrow> nat \<Rightarrow> pull_object_res attempt"
  rpc_push_object :: "node_id \<Rightarrow> run_id \<Rightarrow> object_id \<Rightarrow> deflated \<Rightarrow> nat \<Rightarrow> unit attempt"
  rpc_confirm :: "node_id \<Rightarrow> run_id \<Rightarrow> object_id \<Rightarrow> nat \<Rightarrow> unit attempt"
  rpc_get_run :: "node_id option \<Rightarrow> run_id \<Rightarrow> nat \<Rightarrow> run_proto attempt"
  rpc_get_fab :: "node_id option \<Rightarrow> string \<Rightarrow> run_id \<Rightarrow> nat \<Rightarrow> fab_proto attempt"

section \<open>Facts about events\<close>

lemma emit_state [simp]: "emit e s = Some (s\<lparr>events := events s @ [e]\<rparr>, Inr ())"
  by (simp add: emit_def modify_def)

lemma log_state [simp]: "log l m s = Some (s\<lparr>events := events s @ [Log l m]\<rparr>, Inr ())"
  by (simp add: log_def)

end
