(* ===== verification/Transport.thy ===== *)
theory Transport
  imports Protocol
begin

text \<open>
  The transport layer of \<^verbatim>\<open>connection.py\<close>: the inner function
  \<open>_request\<close> (lines 185--230), which posts one serialised request, either
  through the \<open>RetryInvoker\<close> or once, and turns every reply that is not a
  status-200 protobuf reply into \<open>None\<close>. The \<open>RetryInvoker\<close> itself lives
  outside the repository (\<open>flwr.common.retry_invoker\<close>) and is modelled from
  its contract: it re-invokes the target while the target raises, until the
  attempt budget \<open>max_tries\<close> is used up, and then re-raises; with no budget
  it retries for ever. A transport that never answers therefore makes a call
  diverge, which the model expresses as the value \<open>None\<close>.
\<close>

section \<open>Definitions\<close>

definition url :: "client \<Rightarrow> request \<Rightarrow> string" where
  "url s rq = base_url s @ ''/'' @ api_path rq"

text \<open>Status and header checks of lines 209--230, with the warnings they log.\<close>

definition check_response :: "request \<Rightarrow> 'r http_reply \<Rightarrow> event list \<times> 'r option" where
  "check_response rq res =
     (if status_code res \<noteq> 200 then ([], None)
      else (case content_type res of
              None \<Rightarrow> ([Log WARN (''[Node] POST /'' @ api_path rq @ '': missing header Content-Type'')], None)
            | Some ct \<Rightarrow>
                if ct \<noteq> ''application/protobuf''
                then ([Log WARN (''[Node] POST /'' @ api_path rq @ '': header Content-Type has wrong value'')], None)
                else ([], Some (reply_body res))))"

text \<open>
  \<open>RetryInvoker.invoke\<close>: attempt \<open>k\<close> is made; a reply ends the loop, an
  exception ends it once \<open>k + 1\<close> attempts exhaust the budget, and otherwise
  the next attempt follows. The result carries the number of attempts made.
\<close>

partial_function (option) retry_loop ::
  "nat option \<Rightarrow> (nat \<Rightarrow> 'r attempt) \<Rightarrow> nat \<Rightarrow> ('r attempt \<times> nat) option" where
  "retry_loop budget att k =
     (case att k of
        Inr r \<Rightarrow> Some (Inr r, Suc k)
      | Inl e \<Rightarrow>
          (case budget of
             Some m \<Rightarrow> if m \<le> Suc k then Some (Inl e, Suc k) else retry_loop budget att (Suc k)
           | None \<Rightarrow> retry_loop budget att (Suc k)))"

declare retry_loop.simps [code]

text \<open>
  \<open>_request(req, res_type, api_path, retry)\<close>. With \<open>retry=False\<close> the
  post is made exactly once, which is the invoker with budget one. Every
  attempt is one \<open>Post\<close> event.
\<close>

definition request :: "request \<Rightarrow> bool \<Rightarrow> (nat \<Rightarrow> 'r attempt) \<Rightarrow> (client, 'r option) cm" where
  "request rq retry att s =
     (case retry_loop (if retry then max_tries s else Some 1) att 0 of
        None \<Rightarrow> None
      | Some (out, n) \<Rightarrow>
          (let s' = s\<lparr>events := events s @ replicate n (Post (url s rq) rq)\<rparr> in
           case out of
             Inl e \<Rightarrow> Some (s', Inl e)
           | Inr res \<Rightarrow>
               (case check_response rq res of
                  (ws, r) \<Rightarrow> Some (s'\<lparr>events := events s' @ ws\<rparr>, Inr r))))"

text \<open>A well-formed reply: status 200 with the protobuf content type.\<close>

definition ok_reply :: "'r \<Rightarrow> 'r http_reply" where
  "ok_reply b = \<lparr>status_code = 200, content_type = Some ''application/protobuf'', reply_body = b\<rparr>"

text \<open>
  A transition that only appends events: every field but \<open>events\<close> is kept,
  and the old events are a prefix of the new ones.
\<close>

definition only_events :: "client \<Rightarrow> client \<Rightarrow> bool" where
  "only_events s s' \<longleftrightarrow> s' = s\<lparr>events := events s'\<rparr> \<and> (\<exists>es. events s' = events s @ es)"

section \<open>The response check\<close>

lemma check_response_Some:
  "snd (check_response rq res) = Some b \<longleftrightarrow>
     status_code res = 200 \<and> content_type res = Some ''application/protobuf'' \<and> b = reply_body res"
  by (auto simp: check_response_def split: option.splits if_splits)

lemma check_response_logs:
  "set (fst (check_response rq res)) \<subseteq> {Log WARN m | m. True}"
  by (auto simp: check_response_def split: option.splits if_splits)

section \<open>The retry loop\<close>

lemma retry_loop_reply: "att k = Inr r \<Longrightarrow> retry_loop budget att k = Some (Inr r, Suc k)"
  by (simp add: retry_loop.simps)

lemma retry_loop_exhausted:
  "att k = Inl e \<Longrightarrow> m \<le> Suc k \<Longrightarrow> retry_loop (Some m) att k = Some (Inl e, Suc k)"
  by (simp add: retry_loop.simps)

lemma retry_loop_again:
  "att k = Inl e \<Longrightarrow> (case budget of None \<Rightarrow> True | Some m \<Rightarrow> Suc k < m) \<Longrightarrow>
   retry_loop budget att k = retry_loop budget att (Suc k)"
  by (subst retry_loop.simps) (auto split: option.splits)

text \<open>With a finite budget the loop always returns, after at most the budget.\<close>

lemma retry_loop_bounded:
  "\<exists>out n. retry_loop (Some m) att k = Some (out, n) \<and> Suc k \<le> n \<and> n \<le> max (Suc k) m"
proof (induction "m - Suc k" arbitrary: k rule: less_induct)
  case less
  show ?case
  proof (cases "att k")
    case (Inr r)
    then show ?thesis by (simp add: retry_loop_reply)
  next
    case (Inl e)
    show ?thesis
    proof (cases "m \<le> Suc k")
      case True
      with Inl show ?thesis by (simp add: retry_loop_exhausted)
    next
      case False
      then have "m - Suc (Suc k) < m - Suc k" by arith
      with less obtain out n where
        "retry_loop (Some m) att (Suc k) = Some (out, n)" "Suc (Suc k) \<le> n" "n \<le> max (Suc (Suc k)) m"
        by blast
      with Inl False show ?thesis by (simp add: retry_loop_again)
    qed
  qed
qed

text \<open>What a returned loop means: the last attempt made is its outcome.\<close>

lemma retry_loop_result_gen:
  assumes ret: "retry_loop budget att k = Some r"
  shows "case r of (out, n) \<Rightarrow>
     k < n \<and> out = att (n - 1) \<and> (\<forall>j. k \<le> j \<and> j < n - 1 \<longrightarrow> isl (att j)) \<and>
     (isl out \<longrightarrow> budget \<noteq> None \<and> the budget \<le> n)"
proof (rule retry_loop.raw_induct [where P = "\<lambda>budget att k r. case r of (out, n) \<Rightarrow>
     k < n \<and> out = att (n - 1) \<and> (\<forall>j. k \<le> j \<and> j < n - 1 \<longrightarrow> isl (att j)) \<and>
     (isl out \<longrightarrow> budget \<noteq> None \<and> the budget \<le> n)", OF _ ret])
  fix f :: "nat option \<Rightarrow> (nat \<Rightarrow> 'a attempt) \<Rightarrow> nat \<Rightarrow> ('a attempt \<times> nat) option"
  fix budget att k r
  assume IH: "\<And>budget att k r. f budget att k = Some r \<Longrightarrow> case r of (out, n) \<Rightarrow>
     k < n \<and> out = att (n - 1) \<and> (\<forall>j. k \<le> j \<and> j < n - 1 \<longrightarrow> isl (att j)) \<and>
     (isl out \<longrightarrow> budget \<noteq> None \<and> the budget \<le> n)"
  assume eq: "(case att k of Inr r \<Rightarrow> Some (Inr r, Suc k)
      | Inl e \<Rightarrow> (case budget of Some m \<Rightarrow> if m \<le> Suc k then Some (Inl e, Suc k) else f budget att (Suc k)
                | None \<Rightarrow> f budget att (Suc k))) = Some r"
  show "case r of (out, n) \<Rightarrow>
     k < n \<and> out = att (n - 1) \<and> (\<forall>j. k \<le> j \<and> j < n - 1 \<longrightarrow> isl (att j)) \<and>
     (isl out \<longrightarrow> budget \<noteq> None \<and> the budget \<le> n)"
  proof (cases "att k")
    case (Inr x)
    with eq show ?thesis by auto
  next
    case (Inl e)
    have step: "f budget att (Suc k) = Some r \<Longrightarrow> ?thesis"
    proof -
      assume "f budget att (Suc k) = Some r"
      from IH [OF this] Inl show ?thesis
        by (auto simp: le_Suc_eq split: prod.splits)
          (metis Suc_leI le_neq_implies_less sum.disc(1))+
    qed
    show ?thesis
    proof (cases budget)
      case None
      with eq Inl have "f budget att (Suc k) = Some r" by simp
      then show ?thesis by (rule step)
    next
      case (Some m)
      show ?thesis
      proof (cases "m \<le> Suc k")
        case True
        with eq Inl Some show ?thesis by auto
      next
        case False
        with eq Inl Some have "f budget att (Suc k) = Some r" by simp
        then show ?thesis by (rule step)
      qed
    qed
  qed
qed

lemma retry_loop_result:
  assumes "retry_loop budget att k = Some (out, n)"
  shows "k < n \<and> out = att (n - 1) \<and> (\<forall>j. k \<le> j \<and> j < n - 1 \<longrightarrow> isl (att j)) \<and>
         (isl out \<longrightarrow> budget \<noteq> None \<and> the budget \<le> n)"
  using retry_loop_result_gen [OF assms] by simp

text \<open>With no budget and a transport that always raises, the loop never returns.\<close>

lemma retry_loop_unbounded_dead:
  assumes "\<forall>j. isl (att j)"
  shows "retry_loop None att k = None"
proof (rule ccontr)
  assume "retry_loop None att k \<noteq> None"
  then obtain out n where r: "retry_loop None att k = Some (out, n)" by auto
  from retry_loop_result [OF r] assms show False by auto
qed

section \<open>Requests\<close>

lemma only_events_refl [simp]: "only_events s s"
  by (simp add: only_events_def)

lemma only_events_trans: "only_events s t \<Longrightarrow> only_events t u \<Longrightarrow> only_events s u"
  by (auto simp: only_events_def)

lemma only_events_append [simp]: "only_events s (s\<lparr>events := events s @ es\<rparr>)"
  by (simp add: only_events_def)

lemmas request_unfold = request_def Let_def

text \<open>A request changes nothing but the event log.\<close>

lemma request_only_events:
  "request rq retry att s = Some (s', x) \<Longrightarrow> only_events s s'"
  by (auto simp: request_unfold only_events_def split: option.splits prod.splits sum.splits)

text \<open>The first attempt replies: one post, then the checked reply.\<close>

lemma request_first_reply:
  "att 0 = Inr res \<Longrightarrow>
   request rq retry att s =
     Some (s\<lparr>events := events s @ [Post (url s rq) rq] @ fst (check_response rq res)\<rparr>,
           Inr (snd (check_response rq res)))"
  by (simp add: request_unfold retry_loop_reply split: prod.splits)

text \<open>\<open>retry=False\<close>: exactly one attempt, and an exception propagates.\<close>

lemma request_no_retry_raises:
  "att 0 = Inl e \<Longrightarrow>
   request rq False att s = Some (s\<lparr>events := events s @ [Post (url s rq) rq]\<rparr>, Inl e)"
  by (simp add: request_unfold retry_loop_exhausted)

lemma request_no_retry_returns: "returns (request rq False att) s"
  using retry_loop_bounded [of 1 att 0]
  by (auto simp: returns_def request_unfold split: prod.splits sum.splits)

text \<open>With a finite budget every request returns (it may raise).\<close>

lemma request_budget_returns:
  "max_tries s = Some m \<Longrightarrow> returns (request rq retry att) s"
  using retry_loop_bounded [of m att 0] retry_loop_bounded [of 1 att 0]
  by (auto simp: returns_def request_unfold split: prod.splits sum.splits)

text \<open>
  C17: a dead transport and an unlimited budget: \<open>_request\<close> blocks for ever,
  since there is no timeout (\<open>timeout=None\<close> in line 201).
\<close>

lemma request_unbounded_dead:
  "max_tries s = None \<Longrightarrow> \<forall>j. isl (att j) \<Longrightarrow> request rq True att s = None"
  by (simp add: request_unfold retry_loop_unbounded_dead)

lemma check_response_ok [simp]: "check_response rq (ok_reply b) = ([], Some b)"
  by (simp add: check_response_def ok_reply_def)

lemma request_ok_first:
  "att 0 = Inr (ok_reply b) \<Longrightarrow>
   request rq retry att s = Some (s\<lparr>events := events s @ [Post (url s rq) rq]\<rparr>, Inr (Some b))"
  by (simp add: request_first_reply)

text \<open>Every returning request posts at least once, and posts only this request before its warnings.\<close>

lemma request_posts:
  assumes "request rq retry att s = Some (s', x)"
  shows "\<exists>n ws. 1 \<le> n \<and> (\<forall>m. (if retry then max_tries s else Some 1) = Some m \<longrightarrow> n \<le> max 1 m) \<and>
                events s' = events s @ replicate n (Post (url s rq) rq) @ ws \<and>
                set ws \<subseteq> {Log WARN m | m. True}"
proof -
  obtain out n where r: "retry_loop (if retry then max_tries s else Some 1) att 0 = Some (out, n)"
    using assms by (auto simp: request_unfold split: option.splits)
  from retry_loop_result [OF r] have n: "1 \<le> n" by simp
  have b: "\<forall>m. (if retry then max_tries s else Some 1) = Some m \<longrightarrow> n \<le> max 1 m"
  proof (intro allI impI)
    fix m assume "(if retry then max_tries s else Some 1) = Some m"
    with r have "retry_loop (Some m) att 0 = Some (out, n)" by simp
    with retry_loop_bounded [of m att 0] show "n \<le> max 1 m" by auto
  qed
  show ?thesis
  proof (cases out)
    case (Inl e)
    with assms r n b show ?thesis by (auto simp: request_unfold)
  next
    case (Inr res)
    with assms r n b check_response_logs [of rq res] show ?thesis
      by (auto simp: request_unfold split: prod.splits)
  qed
qed

text \<open>
  C16: a request with a finite budget posts at least once and at most
  \<open>max_tries\<close> times (once when retries are off), and logs nothing but
  the posts and the warnings of the checked reply.
\<close>

lemma request_posts_bounded:
  assumes "request rq retry att s = Some (s', x)"
    and "(if retry then max_tries s else Some 1) = Some m"
  shows "\<exists>n ws. 1 \<le> n \<and> n \<le> max 1 m \<and>
           events s' = events s @ replicate n (Post (url s rq) rq) @ ws \<and> set ws \<subseteq> {Log WARN w | w. True}"
  using request_posts [OF assms(1)] assms(2) by blast

lemma request_returns_finite:
  "max_tries s \<noteq> None \<Longrightarrow> \<exists>s' x. request rq retry att s = Some (s', x)"
  using request_budget_returns [of s _ rq retry att] by (auto simp: returns_def)

lemma only_events_fields:
  "only_events s s' \<Longrightarrow>
   max_tries s' = max_tries s \<and> node s' = node s \<and> hb_running s' = hb_running s \<and>
   base_url s' = base_url s \<and> verify s' = verify s"
  by (auto simp: only_events_def)

lemma only_events_url: "only_events s s' \<Longrightarrow> url s' = url s"
  by (simp add: url_def fun_eq_iff only_events_fields)

text \<open>
  C22: the URL of a request. It is the base URL, a slash and the endpoint
  path; seven of the ten path constants (lines 82--91) begin with a slash
  themselves, so exactly the requests other than registration,
  unregistration and the heartbeat go to a path with a doubled slash.
\<close>

theorem url_double_slash:
  "(\<exists>p. url s rq = base_url s @ ''//'' @ p) \<longleftrightarrow>
   (case rq of CreateNodeRequest _ \<Rightarrow> False | DeleteNodeRequest _ \<Rightarrow> False
    | SendNodeHeartbeatRequest _ _ \<Rightarrow> False | _ \<Rightarrow> True)"
  by (cases rq) (simp_all add: url_def)

end
