(* ===== verification/Objects.thy ===== *)
theory Objects
  imports Protocol
begin

text \<open>
  The content-addressing model that \<^verbatim>\<open>connection.py\<close> imports from
  \<open>flwr.common.inflatable\<close> and \<open>flwr.common.inflatable_utils\<close>, which are
  not part of the repository and are modelled from the specification
  (section 4.4 and the data model of section 3). An object's id is the hash
  \<open>H\<close> of its deflated form, which holds its body and the ids of its
  children, so ids are computed bottom-up as in a Merkle tree. The hash is a
  parameter: no property of SHA-256 is assumed, and the theorems that need
  distinct objects to have distinct ids say so in a hypothesis.
  \<open>inflate\<close> rebuilds an object from a map of deflated contents keyed by id;
  the Python function recurses once per tree level, so it is given the
  recursion depth as fuel and raises \<open>RecursionError\<close> when it runs out.
\<close>

type_synonym hash = "deflated \<Rightarrow> object_id"

section \<open>Content addressing\<close>

fun obj_id :: "hash \<Rightarrow> obj \<Rightarrow> object_id" where
  "obj_id H (Obj b cs) = H (Deflated (map (obj_id H) cs) b)"

definition deflate :: "hash \<Rightarrow> obj \<Rightarrow> deflated" where
  "deflate H x = Deflated (map (obj_id H) (obj_children x)) (obj_body x)"

text \<open>\<open>get_object_tree\<close>: the tree of ids announced to the SuperLink.\<close>

fun get_object_tree :: "hash \<Rightarrow> obj \<Rightarrow> object_tree" where
  "get_object_tree H (Obj b cs) = ObjectTree (obj_id H (Obj b cs)) (map (get_object_tree H) cs)"

text \<open>\<open>iterate_object_tree\<close>: every node of a tree, children before parents.\<close>

fun iterate_object_tree :: "object_tree \<Rightarrow> object_tree list" where
  "iterate_object_tree (ObjectTree i ts) = concat (map iterate_object_tree ts) @ [ObjectTree i ts]"

text \<open>
  \<open>get_all_nested_objects\<close>: a Python dictionary from id to object, filled
  child by child (\<open>ret.update(...)\<close>) and then with the object itself. A
  dictionary is an association list whose update keeps the position of an
  existing key, which is \<open>AList.update\<close>.
\<close>

fun get_all_nested_objects :: "hash \<Rightarrow> obj \<Rightarrow> (object_id \<times> obj) list" where
  "get_all_nested_objects H (Obj b cs) =
     AList.update (obj_id H (Obj b cs)) (Obj b cs)
       (fold (\<lambda>c d. dict_update d (get_all_nested_objects H c)) cs [])"

text \<open>All objects of a tree, the root first, and its depth.\<close>

fun subobjs :: "obj \<Rightarrow> obj list" where
  "subobjs (Obj b cs) = Obj b cs # concat (map subobjs cs)"

fun obj_depth :: "obj \<Rightarrow> nat" where
  "obj_depth (Obj b cs) = Suc (fold max (map obj_depth cs) 0)"

text \<open>No two distinct objects of a tree share an id.\<close>

definition collision_free :: "hash \<Rightarrow> obj \<Rightarrow> bool" where
  "collision_free H m \<longleftrightarrow>
     (\<forall>o1 \<in> set (subobjs m). \<forall>o2 \<in> set (subobjs m). obj_id H o1 = obj_id H o2 \<longrightarrow> o1 = o2)"

section \<open>Inflation\<close>

text \<open>The children in order; the first exception aborts, as the Python loop does.\<close>

primrec seq_exn :: "(exn + 'a) list \<Rightarrow> exn + 'a list" where
  "seq_exn [] = Inr []"
| "seq_exn (x # xs) =
     (case x of Inl e \<Rightarrow> Inl e | Inr a \<Rightarrow> (case seq_exn xs of Inl e \<Rightarrow> Inl e | Inr as \<Rightarrow> Inr (a # as)))"

fun inflate :: "nat \<Rightarrow> (object_id \<rightharpoonup> deflated) \<Rightarrow> object_id \<Rightarrow> exn + obj" where
  "inflate 0 c i = Inl RecursionError"
| "inflate (Suc n) c i =
     (case c i of
        None \<Rightarrow> Inl KeyError
      | Some (Deflated cids b) \<Rightarrow>
          (case seq_exn (map (inflate n c) cids) of
             Inl e \<Rightarrow> Inl e
           | Inr cs \<Rightarrow> Inr (Obj b cs)))"

text \<open>The default recursion limit of CPython.\<close>

definition recursion_limit :: nat where
  "recursion_limit = 1000"

section \<open>Messages\<close>

text \<open>
  A \<open>Message\<close>: metadata and content. As an inflatable object its root body
  is the metadata without the message id (the id is the object's own hash)
  and its children are the content objects.
\<close>

record message =
  metadata :: metadata
  content :: "obj list"

definition message_object :: "message \<Rightarrow> obj" where
  "message_object m = Obj (MessageBody ((metadata m)\<lparr>message_id := []\<rparr>)) (content m)"

text \<open>\<open>message.object_id\<close>.\<close>

definition message_oid :: "hash \<Rightarrow> message \<Rightarrow> object_id" where
  "message_oid H m = obj_id H (message_object m)"

text \<open>
  \<open>cast(Message, obj)\<close> followed by an access to \<open>obj.metadata\<close>: an
  object that is not a message has no such attribute.
\<close>

fun message_of_object :: "obj \<Rightarrow> exn + message" where
  "message_of_object (Obj (MessageBody md) cs) = Inr \<lparr>metadata = md, content = cs\<rparr>"
| "message_of_object (Obj (Blob _) _) = Inl AttributeError"

definition remove_content_from_message :: "message \<Rightarrow> message" where
  "remove_content_from_message m = m\<lparr>content := []\<rparr>"

section \<open>Ids and deflated contents\<close>

lemma obj_id_deflate: "obj_id H x = H (deflate H x)"
  by (cases x) (simp add: deflate_def)

lemma deflate_Obj [simp]: "deflate H (Obj b cs) = Deflated (map (obj_id H) cs) b"
  by (simp add: deflate_def)

lemma subobjs_self [simp]: "x \<in> set (subobjs x)"
  by (cases x) simp

lemma subobjs_child:
  "c \<in> set cs \<Longrightarrow> set (subobjs c) \<subseteq> set (subobjs (Obj b cs))"
  by auto

lemma obj_depth_child: "c \<in> set cs \<Longrightarrow> obj_depth c < obj_depth (Obj b cs)"
  using fold_max_ge [of "obj_depth c" "map obj_depth cs" 0] by simp

section \<open>Round trip of deflation and inflation\<close>

lemma seq_exn_all_Inr: "(\<And>x. x \<in> set xs \<Longrightarrow> f x = Inr x) \<Longrightarrow> seq_exn (map f xs) = Inr xs"
  by (induction xs) auto

text \<open>
  Inflating the id of an object from a content map that holds the deflated
  form of each of its sub-objects gives the object back, once the fuel
  reaches its depth.
\<close>

lemma inflate_deflated:
  assumes "\<forall>x \<in> set (subobjs m). c (obj_id H x) = Some (deflate H x)"
    and "obj_depth m \<le> n"
  shows "inflate n c (obj_id H m) = Inr m"
  using assms
proof (induction m arbitrary: n)
  case (Obj b cs)
  from Obj.prems(2) obtain n' where n: "n = Suc n'" by (cases n) auto
  have ch: "inflate n' c (obj_id H x) = Inr x" if x: "x \<in> set cs" for x
  proof (rule Obj.IH [OF x])
    show "\<forall>y \<in> set (subobjs x). c (obj_id H y) = Some (deflate H y)"
      using Obj.prems(1) subobjs_child [OF x] by blast
    show "obj_depth x \<le> n'"
      using obj_depth_child [OF x, of b] Obj.prems(2) n by simp
  qed
  have root: "c (obj_id H (Obj b cs)) = Some (Deflated (map (obj_id H) cs) b)"
    using Obj.prems(1) by simp
  have "seq_exn (map (inflate n' c) (map (obj_id H) cs)) = Inr cs"
    using ch by (simp add: seq_exn_all_Inr comp_def)
  then show ?case
    using root n by (simp del: obj_id.simps add: obj_id.simps [of H b cs, symmetric])
qed

section \<open>The dictionary of nested objects\<close>

lemma nested_objects_facts:
  "fst ` set (get_all_nested_objects H m) = obj_id H ` set (subobjs m) \<and>
   distinct (map fst (get_all_nested_objects H m)) \<and>
   (\<forall>(k, v) \<in> set (get_all_nested_objects H m). k = obj_id H v \<and> v \<in> set (subobjs m))"
proof (induction m)
  case (Obj b cs)
  let ?d = "fold (\<lambda>c d. dict_update d (get_all_nested_objects H c)) cs []"
  have keys: "fst ` set ?d = (\<Union>c\<in>set cs. obj_id H ` set (subobjs c))"
    using Obj.IH by (simp add: fold_dict_update_keys)
  have dist: "distinct (map fst ?d)"
    by (simp add: fold_dict_update_distinct)
  have sound: "\<forall>(k, v) \<in> set ?d. k = obj_id H v \<and> v \<in> set (subobjs (Obj b cs))"
  proof
    fix kv assume "kv \<in> set ?d"
    then obtain c where "c \<in> set cs" "kv \<in> set (get_all_nested_objects H c)"
      using fold_dict_update_set [of "get_all_nested_objects H" cs "[]"] by auto
    with Obj.IH show "case kv of (k, v) \<Rightarrow> k = obj_id H v \<and> v \<in> set (subobjs (Obj b cs))"
      by fastforce
  qed
  have upd: "set (AList.update (obj_id H (Obj b cs)) (Obj b cs) ?d) \<subseteq>
      insert (obj_id H (Obj b cs), Obj b cs) (set ?d)"
    by (rule set_update_subset)
  show ?case
  proof (intro conjI)
    show "fst ` set (get_all_nested_objects H (Obj b cs)) = obj_id H ` set (subobjs (Obj b cs))"
      using keys by (simp del: obj_id.simps add: image_Union image_UN)
    show "distinct (map fst (get_all_nested_objects H (Obj b cs)))"
      using dist by (simp del: obj_id.simps)
    show "\<forall>(k, v) \<in> set (get_all_nested_objects H (Obj b cs)). k = obj_id H v \<and> v \<in> set (subobjs (Obj b cs))"
      using sound upd by (auto simp del: obj_id.simps subobjs.simps)
  qed
qed

lemma nested_keys: "fst ` set (get_all_nested_objects H m) = obj_id H ` set (subobjs m)"
  and nested_distinct: "distinct (map fst (get_all_nested_objects H m))"
  and nested_sound: "(k, v) \<in> set (get_all_nested_objects H m) \<Longrightarrow> k = obj_id H v \<and> v \<in> set (subobjs m)"
  using nested_objects_facts [of H m] by auto

section \<open>The announced tree and the nested objects agree\<close>

lemma iterate_object_tree_ids:
  "tree_object_id ` set (iterate_object_tree (get_object_tree H m)) = obj_id H ` set (subobjs m)"
proof (induction m)
  case (Obj b cs)
  then show ?case by (auto simp del: obj_id.simps)
qed

text \<open>
  The content map a peer holds once it has stored every nested object of
  \<open>m\<close> under its key, as the SuperLink does after a complete push.
\<close>

definition nested_contents :: "hash \<Rightarrow> obj \<Rightarrow> object_id \<rightharpoonup> deflated" where
  "nested_contents H m = map_of (map (\<lambda>(k, v). (k, deflate H v)) (get_all_nested_objects H m))"

lemma nested_contents_agree:
  assumes cf: "collision_free H m" and x: "x \<in> set (subobjs m)"
  shows "nested_contents H m (obj_id H x) = Some (deflate H x)"
proof -
  have "obj_id H x \<in> fst ` set (get_all_nested_objects H m)"
    using x nested_keys [of H m] by auto
  then obtain v where v: "map_of (get_all_nested_objects H m) (obj_id H x) = Some v"
    by (metis domD dom_map_of_conv_image_fst)
  then have "(obj_id H x, v) \<in> set (get_all_nested_objects H m)"
    by (rule map_of_SomeD)
  from nested_sound [OF this] have "obj_id H v = obj_id H x" "v \<in> set (subobjs m)"
    by auto
  with cf x have "v = x" by (auto simp: collision_free_def)
  have "map_of (map (\<lambda>(k, v). (k, deflate H v)) (get_all_nested_objects H m)) (obj_id H x) =
        map_option (deflate H) (map_of (get_all_nested_objects H m) (obj_id H x))"
    by (simp add: map_of_map)
  with v \<open>v = x\<close> show ?thesis by (simp add: nested_contents_def)
qed

text \<open>
  Round trip of the object model: inflating a message's id from its nested
  contents rebuilds it, provided its ids do not collide and the recursion
  limit exceeds its depth.
\<close>

lemma inflate_nested_contents:
  "collision_free H m \<Longrightarrow> obj_depth m \<le> n \<Longrightarrow> inflate n (nested_contents H m) (obj_id H m) = Inr m"
  by (rule inflate_deflated) (auto intro: nested_contents_agree)

text \<open>Inflation never raises \<open>RecursionError\<close> once it has succeeded: more fuel keeps the result.\<close>

lemma seq_exn_map_Inr [simp]: "seq_exn (map Inr ys) = Inr ys"
  by (induction ys) auto

lemma seq_exn_Inr_D: "seq_exn xs = Inr ys \<Longrightarrow> xs = map Inr ys"
  by (induction xs arbitrary: ys) (auto split: sum.splits)

lemma seq_exn_Inr_iff: "seq_exn xs = Inr ys \<longleftrightarrow> xs = map Inr ys"
  using seq_exn_Inr_D by auto

lemma inflate_more_fuel:
  "inflate n c i = Inr x \<Longrightarrow> inflate (Suc n) c i = Inr x"
proof (induction n c i arbitrary: x rule: inflate.induct)
  case (1 c i)
  then show ?case by simp
next
  case (2 n c i)
  show ?case
  proof (cases "c i")
    case None
    with "2.prems" show ?thesis by simp
  next
    case (Some d)
    obtain cids b where d: "d = Deflated cids b" by (cases d)
    from "2.prems" Some d obtain cs where
      cs: "map (inflate n c) cids = map Inr cs" and x: "x = Obj b cs"
      by (auto simp: seq_exn_Inr_iff split: sum.splits)
    have "map (inflate (Suc n) c) cids = map Inr cs"
    proof (rule nth_equalityI)
      show "length (map (inflate (Suc n) c) cids) = length (map Inr cs)"
        using cs by (metis length_map)
      fix j assume j: "j < length (map (inflate (Suc n) c) cids)"
      then have "inflate n c (cids ! j) = Inr (cs ! j)"
        using cs by (metis length_map nth_map)
      then have "inflate (Suc n) c (cids ! j) = Inr (cs ! j)"
        using "2.IH" Some d j by (simp add: nth_mem)
      with j cs show "map (inflate (Suc n) c) cids ! j = map Inr cs ! j"
        by (metis length_map nth_map)
    qed
    with Some d x show ?thesis
      by (simp add: seq_exn_Inr_iff)
  qed
qed

end
