(* ===== verification/ObjectSync.thy ===== *)
theory ObjectSync
  imports Transport Objects
begin

text \<open>
  The object synchronisation protocol: pulling every chunk of an announced
  object tree and pushing the chunks the SuperLink lacks. The generic loops
  \<open>pull_objects\<close> and \<open>push_objects\<close> (\<open>flwr.common.inflatable_utils\<close>) and
  the adapters \<open>make_pull_object_fn_rest\<close> and \<open>make_push_object_fn_rest\<close>
  (\<open>flwr.common.inflatable_rest_utils\<close>) are outside the repository and are
  modelled from the specification (section 4.4): a pull fetches each distinct
  id once and is all-or-nothing; a push stores each requested object once,
  records a failure and goes on, and raises the first failure at the end.
  The per-chunk request functions \<open>fn\<close> of \<^verbatim>\<open>connection.py\<close>
  (lines 328--334 and 405--413) are modelled from the source: they post one
  request through \<open>_request\<close> and raise \<open>ValueError\<close> on a missing reply.
\<close>

section \<open>The REST chunk requests of connection.py\<close>

definition pull_object_rest :: "net \<Rightarrow> node_id \<Rightarrow> run_id \<Rightarrow> object_id \<Rightarrow> (client, pull_object_res) cm" where
  "pull_object_rest nt n r i =
     bindc (request (PullObjectRequest n r i) True (rpc_pull_object nt n r i))
       (\<lambda>res. case res of None \<Rightarrow> throw ValueError | Some x \<Rightarrow> ret x)"

definition push_object_rest :: "net \<Rightarrow> node_id \<Rightarrow> run_id \<Rightarrow> object_id \<Rightarrow> deflated \<Rightarrow> (client, unit) cm" where
  "push_object_rest nt n r i d =
     bindc (request (PushObjectRequest n r i d) True (rpc_push_object nt n r i d))
       (\<lambda>res. case res of None \<Rightarrow> throw ValueError | Some _ \<Rightarrow> ret ())"

section \<open>Adapters\<close>

text \<open>
  A chunk that the SuperLink does not know, or does not have yet, is a failed
  fetch; the specification collapses every such failure into the error that
  \<open>receive\<close> catches.
\<close>

definition make_pull_object_fn_rest ::
  "(node_id \<Rightarrow> run_id \<Rightarrow> object_id \<Rightarrow> (client, pull_object_res) cm) \<Rightarrow>
   node_id \<Rightarrow> run_id \<Rightarrow> object_id \<Rightarrow> (client, deflated) cm" where
  "make_pull_object_fn_rest fn n r i =
     bindc (fn n r i)
       (\<lambda>res. if \<not> object_found res \<or> \<not> object_available res then throw ValueError
              else ret (object_content res))"

definition make_push_object_fn_rest ::
  "(node_id \<Rightarrow> run_id \<Rightarrow> object_id \<Rightarrow> deflated \<Rightarrow> (client, unit) cm) \<Rightarrow>
   node_id \<Rightarrow> run_id \<Rightarrow> object_id \<Rightarrow> deflated \<Rightarrow> (client, unit) cm" where
  "make_push_object_fn_rest fn n r i d = fn n r i d"

text \<open>A SuperLink that holds chunk \<open>i\<close> in its store and answers the first pull of it.\<close>

definition chunk_reply :: "deflated \<Rightarrow> pull_object_res" where
  "chunk_reply d = \<lparr>object_found = True, object_available = True, object_content = d\<rparr>"

definition serves_chunk :: "net \<Rightarrow> node_id \<Rightarrow> run_id \<Rightarrow> (object_id \<rightharpoonup> deflated) \<Rightarrow> object_id \<Rightarrow> bool" where
  "serves_chunk nt n r store i \<longleftrightarrow>
     (case store i of None \<Rightarrow> False | Some d \<Rightarrow> rpc_pull_object nt n r i 0 = Inr (ok_reply (chunk_reply d)))"

section \<open>Pull\<close>

primrec pull_each ::
  "(object_id \<Rightarrow> (client, deflated) cm) \<Rightarrow> object_id list \<Rightarrow> (object_id \<rightharpoonup> deflated) \<Rightarrow>
   (client, object_id \<rightharpoonup> deflated) cm" where
  "pull_each f [] acc = ret acc"
| "pull_each f (i # js) acc = bindc (f i) (\<lambda>d. pull_each f js (acc(i \<mapsto> d)))"

definition pull_objects ::
  "object_id list \<Rightarrow> (object_id \<Rightarrow> (client, deflated) cm) \<Rightarrow> (client, object_id \<rightharpoonup> deflated) cm" where
  "pull_objects ids f = pull_each f (remdups ids) Map.empty"

section \<open>Push\<close>

text \<open>Run an action and return the exception it raised, if any.\<close>

definition attempt :: "('s, unit) cm \<Rightarrow> ('s, exn option) cm" where
  "attempt m = catch (thenc m (ret None)) (\<lambda>e. ret (Some e))"

fun push_each ::
  "(object_id \<Rightarrow> deflated \<Rightarrow> (client, unit) cm) \<Rightarrow> hash \<Rightarrow> (object_id \<times> obj) list \<Rightarrow> exn option \<Rightarrow>
   (client, unit) cm" where
  "push_each f H [] err = (case err of None \<Rightarrow> ret () | Some e \<Rightarrow> throw e)"
| "push_each f H ((k, v) # rest) err =
     bindc (attempt (f k (deflate H v)))
       (\<lambda>r. push_each f H rest (case err of None \<Rightarrow> r | Some e \<Rightarrow> Some e))"

definition push_objects ::
  "hash \<Rightarrow> (object_id \<times> obj) list \<Rightarrow> (object_id \<Rightarrow> deflated \<Rightarrow> (client, unit) cm) \<Rightarrow> object_id set \<Rightarrow>
   (client, unit) cm" where
  "push_objects H objects f ids = push_each f H (filter (\<lambda>(k, _). k \<in> ids) objects) None"

text \<open>The requests among a list of events, in order.\<close>

definition posts :: "event list \<Rightarrow> request list" where
  "posts es = [rq. Post u rq \<leftarrow> es]"

lemma posts_append [simp]: "posts (xs @ ys) = posts xs @ posts ys"
  and posts_Nil [simp]: "posts [] = []"
  and posts_Post [simp]: "posts [Post u rq] = [rq]"
  and posts_Log [simp]: "posts [Log l m] = []"
  by (simp_all add: posts_def)

lemma posts_Cons_Post [simp]: "posts (Post u rq # es) = rq # posts es"
  and posts_Cons_Log [simp]: "posts (Log l m # es) = posts es"
  and posts_Cons_Started [simp]: "posts (HeartbeatStarted # es) = posts es"
  and posts_Cons_Stopped [simp]: "posts (HeartbeatStopped # es) = posts es"
  by (simp_all add: posts_def)

lemma posts_check_response [simp]: "posts (fst (check_response rq res)) = []"
  by (simp add: check_response_def posts_def split: option.splits)

section \<open>Behaviour of one chunk request\<close>

lemma pull_rest_chunk:
  assumes "serves_chunk nt n r store i"
  shows "\<exists>d. store i = Some d \<and>
     make_pull_object_fn_rest (pull_object_rest nt) n r i s =
       Some (s\<lparr>events := events s @ [Post (url s (PullObjectRequest n r i)) (PullObjectRequest n r i)]\<rparr>, Inr d)"
  using assms
  by (auto simp: serves_chunk_def make_pull_object_fn_rest_def pull_object_rest_def
      request_ok_first chunk_reply_def bindc_def ret_def split: option.splits)

lemma attempt_ok: "m s = Some (s', Inr ()) \<Longrightarrow> attempt m s = Some (s', Inr None)"
  and attempt_exn: "m s = Some (s', Inl e) \<Longrightarrow> attempt m s = Some (s', Inr (Some e))"
  by (simp_all add: attempt_def cm_simps)

lemma attempt_returns: "m s \<noteq> None \<Longrightarrow> \<exists>s' r. attempt m s = Some (s', Inr r) \<and> (\<exists>x. m s = Some (s', x))"
  by (auto simp: attempt_def cm_simps split: option.splits sum.splits)

section \<open>Pull: every distinct id once, all or nothing\<close>

lemma pull_each_serves:
  assumes "\<forall>i \<in> set js. serves_chunk nt n r store i"
  shows "pull_each (make_pull_object_fn_rest (pull_object_rest nt) n r) js acc s =
           Some (s\<lparr>events := events s @
                   map (\<lambda>i. Post (url s (PullObjectRequest n r i)) (PullObjectRequest n r i)) js\<rparr>,
                 Inr (acc ++ (store |` set js)))"
  using assms
proof (induction "js" arbitrary: acc s)
  case Nil
  then show ?case by (simp add: ret_def)
next
  case (Cons i js)
  from Cons.prems obtain d where d: "store i = Some d" and
    f: "make_pull_object_fn_rest (pull_object_rest nt) n r i s =
       Some (s\<lparr>events := events s @ [Post (url s (PullObjectRequest n r i)) (PullObjectRequest n r i)]\<rparr>, Inr d)"
    using pull_rest_chunk by (meson list.set_intros(1))
  have map_eq: "acc(i \<mapsto> d) ++ (store |` set js) = acc ++ (store |` set (i # js))"
    using d by (auto simp: fun_eq_iff map_add_def restrict_map_def split: option.splits)
  let ?F = "make_pull_object_fn_rest (pull_object_rest nt) n r"
  let ?s1 = "s\<lparr>events := events s @ [Post (url s (PullObjectRequest n r i)) (PullObjectRequest n r i)]\<rparr>"
  from Cons.prems have all: "\<forall>j \<in> set js. serves_chunk nt n r store j" by simp
  have url1: "url ?s1 = url s" by (simp add: url_def fun_eq_iff)
  have "pull_each ?F (i # js) acc s = pull_each ?F js (acc(i \<mapsto> d)) ?s1"
    using f by (simp add: bindc_def)
  also have "\<dots> = Some (?s1\<lparr>events := events ?s1 @
                   map (\<lambda>j. Post (url ?s1 (PullObjectRequest n r j)) (PullObjectRequest n r j)) js\<rparr>,
                 Inr (acc(i \<mapsto> d) ++ (store |` set js)))"
    by (rule Cons.IH [OF all])
  also have "\<dots> = Some (s\<lparr>events := events s @
                   map (\<lambda>j. Post (url s (PullObjectRequest n r j)) (PullObjectRequest n r j)) (i # js)\<rparr>,
                 Inr (acc ++ (store |` set (i # js))))"
    by (simp only: url1 map_eq) simp
  finally show ?case .
qed

text \<open>
  Against a SuperLink holding every chunk of the tree, a pull posts one
  request per distinct id, in order, and returns exactly the chunks of the
  tree: an id repeated in the tree is fetched once.
\<close>

lemma pull_objects_rest:
  "\<forall>i \<in> set ids. serves_chunk nt n r store i \<Longrightarrow>
   pull_objects ids (make_pull_object_fn_rest (pull_object_rest nt) n r) s =
     Some (s\<lparr>events := events s @
             map (\<lambda>i. Post (url s (PullObjectRequest n r i)) (PullObjectRequest n r i)) (remdups ids)\<rparr>,
           Inr (store |` set ids))"
  using pull_each_serves [of "remdups ids" nt n r store Map.empty s]
  by (simp add: pull_objects_def)

text \<open>A pull that returns has resolved every id of the tree.\<close>

lemma pull_each_dom:
  "pull_each f js acc s = Some (s', Inr c) \<Longrightarrow> dom c = dom acc \<union> set js"
proof (induction "js" arbitrary: acc s)
  case Nil
  then show ?case by (simp add: ret_def)
next
  case (Cons i js)
  obtain s1 d where f: "f i s = Some (s1, Inr d)" and
    rest: "pull_each f js (acc(i \<mapsto> d)) s1 = Some (s', Inr c)"
    using Cons.prems by (auto simp: bindc_def split: option.splits sum.splits)
  from Cons.IH [OF rest] show ?case by auto
qed

lemma pull_objects_dom:
  "pull_objects ids f s = Some (s', Inr c) \<Longrightarrow> dom c = set ids"
  unfolding pull_objects_def by (drule pull_each_dom) simp

text \<open>One chunk that cannot be fetched makes the whole pull raise.\<close>

lemma pull_each_fails:
  assumes "i \<in> set js" and "\<forall>t. \<exists>t' e. f i t = Some (t', Inl e)"
    and "\<forall>j t. f j t \<noteq> None"
  shows "\<exists>s' e. pull_each f js acc s = Some (s', Inl e)"
  using assms(1)
proof (induction "js" arbitrary: acc s)
  case Nil
  then show ?case by simp
next
  case (Cons j js)
  obtain s1 x where f: "f j s = Some (s1, x)" using assms(3) by fastforce
  show ?case
  proof (cases x)
    case (Inl e)
    with f show ?thesis by (simp add: bindc_def)
  next
    case (Inr d)
    have "j \<noteq> i" using assms(2) f Inr by (metis Pair_inject option.inject sum.distinct(2))
    with Cons.prems have "i \<in> set js" by simp
    from Cons.IH [OF this] f Inr show ?thesis by (simp add: bindc_def)
  qed
qed

lemma pull_objects_fails:
  "i \<in> set ids \<Longrightarrow> \<forall>t. \<exists>t' e. f i t = Some (t', Inl e) \<Longrightarrow> \<forall>j t. f j t \<noteq> None \<Longrightarrow>
   \<exists>s' e. pull_objects ids f s = Some (s', Inl e)"
  unfolding pull_objects_def by (rule pull_each_fails) simp_all

section \<open>Push: every requested object once, failures do not stop the loop\<close>

lemma push_rest_chunk:
  "rpc_push_object nt n r k d 0 = Inr (ok_reply ()) \<Longrightarrow>
   make_push_object_fn_rest (push_object_rest nt) n r k d s =
     Some (s\<lparr>events := events s @ [Post (url s (PushObjectRequest n r k d)) (PushObjectRequest n r k d)]\<rparr>, Inr ())"
  by (simp add: make_push_object_fn_rest_def push_object_rest_def request_ok_first bindc_def ret_def)

lemma push_each_ok:
  assumes "\<forall>(k, v) \<in> set kvs. rpc_push_object nt n r k (deflate H v) 0 = Inr (ok_reply ())"
  shows "push_each (make_push_object_fn_rest (push_object_rest nt) n r) H kvs None s =
     Some (s\<lparr>events := events s @
             map (\<lambda>(k, v). Post (url s (PushObjectRequest n r k (deflate H v)))
                                (PushObjectRequest n r k (deflate H v))) kvs\<rparr>, Inr ())"
  using assms
proof (induction kvs arbitrary: s)
  case Nil
  then show ?case by (simp add: ret_def)
next
  case (Cons kv kvs)
  obtain k v where kv: "kv = (k, v)" by (cases kv)
  let ?F = "make_push_object_fn_rest (push_object_rest nt) n r"
  let ?rq = "PushObjectRequest n r k (deflate H v)"
  let ?s1 = "s\<lparr>events := events s @ [Post (url s ?rq) ?rq]\<rparr>"
  from Cons.prems kv have ok: "rpc_push_object nt n r k (deflate H v) 0 = Inr (ok_reply ())" by simp
  from Cons.prems have all: "\<forall>(k, v) \<in> set kvs. rpc_push_object nt n r k (deflate H v) 0 = Inr (ok_reply ())"
    by simp
  have url1: "url ?s1 = url s" by (simp add: url_def fun_eq_iff)
  have "push_each ?F H (kv # kvs) None s = push_each ?F H kvs None ?s1"
    using attempt_ok [OF push_rest_chunk [OF ok]] kv by (simp add: bindc_def)
  also have "\<dots> = Some (?s1\<lparr>events := events ?s1 @
             map (\<lambda>(k, v). Post (url ?s1 (PushObjectRequest n r k (deflate H v)))
                                (PushObjectRequest n r k (deflate H v))) kvs\<rparr>, Inr ())"
    by (rule Cons.IH [OF all])
  also have "\<dots> = Some (s\<lparr>events := events s @
             map (\<lambda>(k, v). Post (url s (PushObjectRequest n r k (deflate H v)))
                                (PushObjectRequest n r k (deflate H v))) (kv # kvs)\<rparr>, Inr ())"
    by (simp only: url1) (simp add: kv)
  finally show ?case .
qed

text \<open>
  Against a SuperLink that accepts every chunk, a push posts exactly the
  requested objects that the message contains, each once, in dictionary order.
\<close>

lemma push_objects_rest_ok:
  "\<forall>(k, v) \<in> set objects. k \<in> ids \<longrightarrow> rpc_push_object nt n r k (deflate H v) 0 = Inr (ok_reply ()) \<Longrightarrow>
   push_objects H objects (make_push_object_fn_rest (push_object_rest nt) n r) ids s =
     Some (s\<lparr>events := events s @
             map (\<lambda>(k, v). Post (url s (PushObjectRequest n r k (deflate H v)))
                                (PushObjectRequest n r k (deflate H v)))
                 (filter (\<lambda>(k, _). k \<in> ids) objects)\<rparr>, Inr ())"
  unfolding push_objects_def by (rule push_each_ok) auto

text \<open>One chunk request with a finite retry budget: it returns, and it has been posted.\<close>

lemma push_rest_returns:
  assumes "max_tries s \<noteq> None"
  shows "\<exists>s1 x. make_push_object_fn_rest (push_object_rest nt) n r k d s = Some (s1, x) \<and>
           only_events s s1 \<and> PushObjectRequest n r k d \<in> set (posts (events s1))"
proof -
  let ?rq = "PushObjectRequest n r k d"
  obtain s1 y where req: "request ?rq True (rpc_push_object nt n r k d) s = Some (s1, y)"
    using request_returns_finite [OF assms] by blast
  from request_posts [OF req] have posted: "?rq \<in> set (posts (events s1))"
    by (auto simp: posts_def)
  from request_only_events [OF req] have oe: "only_events s s1" .
  show ?thesis
  proof (cases y)
    case (Inl e)
    with req posted oe show ?thesis
      by (simp add: make_push_object_fn_rest_def push_object_rest_def bindc_def)
  next
    case (Inr res)
    with req posted oe show ?thesis
      by (cases res) (simp_all add: make_push_object_fn_rest_def push_object_rest_def bindc_def ret_def throw_def)
  qed
qed

lemma only_events_posts:
  "only_events s s' \<Longrightarrow> set (posts (events s)) \<subseteq> set (posts (events s'))"
  by (auto simp: only_events_def)

lemma push_each_attempts_all:
  assumes "max_tries s \<noteq> None"
  shows "\<exists>s' x. push_each (make_push_object_fn_rest (push_object_rest nt) n r) H kvs err s = Some (s', x) \<and>
           only_events s s' \<and>
           (\<forall>(k, v) \<in> set kvs. PushObjectRequest n r k (deflate H v) \<in> set (posts (events s')))"
  using assms
proof (induction kvs arbitrary: s err)
  case Nil
  then show ?case by (cases err) (simp_all add: ret_def throw_def)
next
  case (Cons kv kvs)
  obtain k v where kv: "kv = (k, v)" by (cases kv)
  obtain s1 x where f: "make_push_object_fn_rest (push_object_rest nt) n r k (deflate H v) s = Some (s1, x)"
    and oe1: "only_events s s1" and p1: "PushObjectRequest n r k (deflate H v) \<in> set (posts (events s1))"
    using push_rest_returns [OF Cons.prems] by blast
  obtain r1 where att: "attempt (make_push_object_fn_rest (push_object_rest nt) n r k (deflate H v)) s = Some (s1, Inr r1)"
    using attempt_returns [of "make_push_object_fn_rest (push_object_rest nt) n r k (deflate H v)" s] f by auto
  have "max_tries s1 \<noteq> None" using oe1 Cons.prems by (simp add: only_events_fields)
  from Cons.IH [OF this] obtain s' y where
    rest: "push_each (make_push_object_fn_rest (push_object_rest nt) n r) H kvs
             (case err of None \<Rightarrow> r1 | Some e \<Rightarrow> Some e) s1 = Some (s', y)"
    and oe2: "only_events s1 s'"
    and ps: "\<forall>(k, v) \<in> set kvs. PushObjectRequest n r k (deflate H v) \<in> set (posts (events s'))"
    by blast
  have "push_each (make_push_object_fn_rest (push_object_rest nt) n r) H (kv # kvs) err s = Some (s', y)"
    using att rest kv by (simp add: bindc_def)
  moreover have "only_events s s'" using oe1 oe2 by (rule only_events_trans)
  moreover have "PushObjectRequest n r k (deflate H v) \<in> set (posts (events s'))"
    using p1 only_events_posts [OF oe2] by blast
  ultimately show ?case using ps kv by auto
qed

text \<open>
  Resilience of the push: whatever the SuperLink answers, as long as the
  retry budget is finite, the push returns and has posted every requested
  object of the message; a failed upload does not stop the others.
\<close>

lemma push_objects_attempts_all:
  "max_tries s \<noteq> None \<Longrightarrow>
   \<exists>s' x. push_objects H objects (make_push_object_fn_rest (push_object_rest nt) n r) ids s = Some (s', x) \<and>
     only_events s s' \<and>
     (\<forall>(k, v) \<in> set objects. k \<in> ids \<longrightarrow> PushObjectRequest n r k (deflate H v) \<in> set (posts (events s')))"
  unfolding push_objects_def
  using push_each_attempts_all [of s nt n r H "filter (\<lambda>(k, _). k \<in> ids) objects" None]
  by fastforce

end
