(* ===== verification/Heartbeat.thy ===== *)
theory Heartbeat
  imports Transport
begin

text \<open>
  The liveness keepalive. \<open>send_node_heartbeat\<close> (\<^verbatim>\<open>connection.py\<close>,
  lines 232--256) is the probe: it reads the shared node, posts one
  \<open>SendNodeHeartbeatRequest\<close> without the retry invoker, reports a missing
  reply as \<open>False\<close> and raises \<open>RuntimeError\<close> when the SuperLink answers
  that it does not know the node. The \<open>HeartbeatSender\<close> that runs the probe
  periodically (\<open>flwr.common.heartbeat\<close>) is outside the repository and is
  modelled from the specification (section 4.2): \<open>start\<close> and \<open>stop\<close> flip the
  \<open>hb_running\<close> field of the client state, and one tick of the background
  thread runs the probe once and classifies its outcome. A tick is only taken
  while the sender runs, so \<open>stop\<close> returning means no probe fires after it.
\<close>

section \<open>The probe\<close>

definition send_node_heartbeat :: "net \<Rightarrow> (client, bool) cm" where
  "send_node_heartbeat nt =
     bindc (gets node) (\<lambda>nd.
       case nd of
         None \<Rightarrow> thenc (log ERROR ''Node instance missing'') (ret False)
       | Some n \<Rightarrow>
           bindc (request (SendNodeHeartbeatRequest n heartbeat_default_interval) False (rpc_heartbeat nt n))
             (\<lambda>res. case res of
                      None \<Rightarrow> ret False
                    | Some success \<Rightarrow> if \<not> success then throw RuntimeError else ret True))"

section \<open>The sender\<close>

definition heartbeat_start :: "(client, unit) cm" where
  "heartbeat_start = thenc (modify (\<lambda>s. s\<lparr>hb_running := True\<rparr>)) (emit HeartbeatStarted)"

definition heartbeat_stop :: "(client, unit) cm" where
  "heartbeat_stop = thenc (modify (\<lambda>s. s\<lparr>hb_running := False\<rparr>)) (emit HeartbeatStopped)"

datatype hb_outcome =
    HbAlive        \<comment> \<open>the SuperLink acknowledged the heartbeat\<close>
  | HbNoResponse   \<comment> \<open>no usable reply: try again at the next interval\<close>
  | HbFatal        \<comment> \<open>the SuperLink rejected the node: escalate\<close>

definition heartbeat_tick :: "net \<Rightarrow> (client, hb_outcome) cm" where
  "heartbeat_tick nt =
     catch (bindc (send_node_heartbeat nt) (\<lambda>ok. ret (if ok then HbAlive else HbNoResponse)))
       (\<lambda>e. ret (if e = RuntimeError then HbFatal else HbNoResponse))"

section \<open>Heartbeat events\<close>

text \<open>
  Scanning a list of events with the sender's running flag: a heartbeat post
  is allowed only while the flag is set.
\<close>

fun hb_flag :: "bool \<Rightarrow> event list \<Rightarrow> bool" where
  "hb_flag r [] = r"
| "hb_flag r (HeartbeatStarted # es) = hb_flag True es"
| "hb_flag r (HeartbeatStopped # es) = hb_flag False es"
| "hb_flag r (e # es) = hb_flag r es"

fun is_heartbeat_post :: "event \<Rightarrow> bool" where
  "is_heartbeat_post (Post u (SendNodeHeartbeatRequest n i)) = True"
| "is_heartbeat_post e = False"

fun hb_ok :: "bool \<Rightarrow> event list \<Rightarrow> bool" where
  "hb_ok r [] = True"
| "hb_ok r (HeartbeatStarted # es) = hb_ok True es"
| "hb_ok r (HeartbeatStopped # es) = hb_ok False es"
| "hb_ok r (e # es) = ((is_heartbeat_post e \<longrightarrow> r) \<and> hb_ok r es)"

lemma hb_flag_append [simp]: "hb_flag r (xs @ ys) = hb_flag (hb_flag r xs) ys"
proof (induction xs arbitrary: r)
  case (Cons x xs)
  then show ?case by (cases x) auto
qed simp

lemma hb_ok_append [simp]: "hb_ok r (xs @ ys) \<longleftrightarrow> hb_ok r xs \<and> hb_ok (hb_flag r xs) ys"
proof (induction xs arbitrary: r)
  case (Cons x xs)
  then show ?case by (cases x) auto
qed simp

text \<open>Events that neither toggle the sender nor probe.\<close>

definition hb_neutral :: "event \<Rightarrow> bool" where
  "hb_neutral e \<longleftrightarrow> e \<noteq> HeartbeatStarted \<and> e \<noteq> HeartbeatStopped \<and> \<not> is_heartbeat_post e"

lemma hb_neutral_flag: "\<forall>e \<in> set es. hb_neutral e \<Longrightarrow> hb_flag r es = r"
proof (induction es)
  case (Cons e es)
  then show ?case by (cases e) (auto simp: hb_neutral_def)
qed simp

lemma hb_neutral_ok: "\<forall>e \<in> set es. hb_neutral e \<Longrightarrow> hb_ok r es"
proof (induction es arbitrary: r)
  case (Cons e es)
  then show ?case by (cases e) (auto simp: hb_neutral_def)
qed simp

lemma hb_neutral_Log [simp]: "hb_neutral (Log l m)"
  by (simp add: hb_neutral_def)

lemma hb_neutral_Post: "\<not> (\<exists>n i. rq = SendNodeHeartbeatRequest n i) \<Longrightarrow> hb_neutral (Post u rq)"
  by (cases rq) (auto simp: hb_neutral_def)

section \<open>Quiet actions\<close>

text \<open>
  A quiet transition only appends events that neither toggle the sender nor
  probe; a quiet action makes only quiet transitions. Message exchange and
  metadata calls are quiet; the session calls and the probe are not.
\<close>

definition quiet :: "client \<Rightarrow> client \<Rightarrow> bool" where
  "quiet s s' \<longleftrightarrow> (\<exists>es. s' = s\<lparr>events := events s @ es\<rparr> \<and> (\<forall>e \<in> set es. hb_neutral e))"

definition quiet_act :: "(client, 'a) cm \<Rightarrow> bool" where
  "quiet_act m \<longleftrightarrow> (\<forall>s s' x. m s = Some (s', x) \<longrightarrow> quiet s s')"

named_theorems quiet_intros "rules showing that an action is quiet"

lemma quiet_refl [simp]: "quiet s s"
  by (auto simp: quiet_def intro: exI [of _ "[]"])

lemma quiet_trans:
  assumes "quiet s t" and "quiet t u"
  shows "quiet s u"
proof -
  from assms obtain es1 es2 where
    "t = s\<lparr>events := events s @ es1\<rparr>" "\<forall>e \<in> set es1. hb_neutral e"
    "u = t\<lparr>events := events t @ es2\<rparr>" "\<forall>e \<in> set es2. hb_neutral e"
    by (auto simp: quiet_def)
  then show ?thesis
    unfolding quiet_def by (intro exI [of _ "es1 @ es2"]) auto
qed

lemma quiet_only_events: "quiet s s' \<Longrightarrow> only_events s s'"
  by (auto simp: quiet_def only_events_def)

lemma quiet_fields: "quiet s s' \<Longrightarrow> node s' = node s \<and> hb_running s' = hb_running s \<and> max_tries s' = max_tries s"
  by (auto simp: quiet_def)

lemma quiet_ret [quiet_intros]: "quiet_act (ret a)"
  and quiet_throw [quiet_intros]: "quiet_act (throw e)"
  and quiet_log [quiet_intros]: "quiet_act (log l m)"
  by (auto simp: quiet_act_def cm_simps quiet_def intro: exI [of _ "[]"] exI [of _ "[Log l m]"])

lemma quiet_bindc [quiet_intros]: "quiet_act m \<Longrightarrow> (\<And>a. quiet_act (f a)) \<Longrightarrow> quiet_act (bindc m f)"
  unfolding quiet_act_def bindc_def
  by (auto split: option.splits sum.splits) (metis quiet_trans)

lemma quiet_thenc [quiet_intros]: "quiet_act m \<Longrightarrow> quiet_act k \<Longrightarrow> quiet_act (thenc m k)"
  unfolding thenc_def by (rule quiet_bindc)

lemma quiet_catch [quiet_intros]: "quiet_act m \<Longrightarrow> (\<And>e. quiet_act (h e)) \<Longrightarrow> quiet_act (catch m h)"
  unfolding quiet_act_def catch_def
  by (auto split: option.splits sum.splits) (metis quiet_trans)

lemma quiet_gets_bindc [quiet_intros]: "(\<And>a. quiet_act (f a)) \<Longrightarrow> quiet_act (bindc (gets g) f)"
  by (auto simp: quiet_act_def cm_simps)

lemma quiet_for_each [quiet_intros]: "(\<And>x. quiet_act (f x)) \<Longrightarrow> quiet_act (for_each f xs)"
  by (induction xs) (auto intro: quiet_intros)

lemma quiet_case_option [quiet_intros]:
  "quiet_act a \<Longrightarrow> (\<And>x. quiet_act (b x)) \<Longrightarrow> quiet_act (case v of None \<Rightarrow> a | Some x \<Rightarrow> b x)"
  by (cases v) auto

lemma quiet_if [quiet_intros]: "quiet_act a \<Longrightarrow> quiet_act b \<Longrightarrow> quiet_act (if c then a else b)"
  by simp

lemma quiet_case_list [quiet_intros]:
  "quiet_act a \<Longrightarrow> (\<And>x xs. quiet_act (b x xs)) \<Longrightarrow> quiet_act (case v of [] \<Rightarrow> a | x # xs \<Rightarrow> b x xs)"
  by (cases v) auto

lemma quiet_case_sum [quiet_intros]:
  "(\<And>x. quiet_act (a x)) \<Longrightarrow> (\<And>y. quiet_act (b y)) \<Longrightarrow> quiet_act (case v of Inl x \<Rightarrow> a x | Inr y \<Rightarrow> b y)"
  by (cases v) auto

lemma quiet_Let [quiet_intros]: "(\<And>x. quiet_act (f x)) \<Longrightarrow> quiet_act (Let v f)"
  by simp

text \<open>Every request but the heartbeat is quiet.\<close>

fun is_heartbeat_request :: "request \<Rightarrow> bool" where
  "is_heartbeat_request (SendNodeHeartbeatRequest n i) = True"
| "is_heartbeat_request rq = False"

lemma quiet_request [quiet_intros]:
  "\<not> is_heartbeat_request rq \<Longrightarrow> quiet_act (request rq retry att)"
proof (unfold quiet_act_def, intro allI impI)
  fix s s' x
  assume rq: "\<not> is_heartbeat_request rq" and r: "request rq retry att s = Some (s', x)"
  from request_posts [OF r] obtain n ws where
    ev: "events s' = events s @ replicate n (Post (url s rq) rq) @ ws" and
    ws: "set ws \<subseteq> {Log WARN m | m. True}" by blast
  have post: "hb_neutral (Post (url s rq) rq)"
    using rq by (intro hb_neutral_Post) auto
  have "\<forall>e \<in> set (replicate n (Post (url s rq) rq) @ ws). hb_neutral e"
    using post ws by auto
  moreover from request_only_events [OF r] have "s' = s\<lparr>events := events s'\<rparr>"
    by (simp add: only_events_def)
  ultimately show "quiet s s'"
    using ev unfolding quiet_def by (metis client.update_convs(6))
qed

text \<open>A quiet transition keeps the flag and the safety of the event log.\<close>

lemma quiet_hb_flag: "quiet s s' \<Longrightarrow> hb_flag r (events s') = hb_flag r (events s)"
  by (auto simp: quiet_def hb_neutral_flag)

lemma quiet_hb_ok: "quiet s s' \<Longrightarrow> hb_ok r (events s') \<longleftrightarrow> hb_ok r (events s)"
  by (auto simp: quiet_def hb_neutral_flag hb_neutral_ok)

section \<open>One tick of the sender\<close>

definition no_toggle :: "event list \<Rightarrow> bool" where
  "no_toggle es \<longleftrightarrow> (\<forall>e \<in> set es. e \<noteq> HeartbeatStarted \<and> e \<noteq> HeartbeatStopped)"

lemma no_toggle_flag: "no_toggle es \<Longrightarrow> hb_flag r es = r"
proof (induction es)
  case (Cons e es)
  then show ?case by (cases e) (auto simp: no_toggle_def)
qed simp

lemma no_toggle_ok: "no_toggle es \<Longrightarrow> hb_ok True es"
proof (induction es)
  case (Cons e es)
  then show ?case by (cases e) (auto simp: no_toggle_def)
qed simp

lemma request_no_toggle:
  "request rq retry att s = Some (s', x) \<Longrightarrow> \<exists>es. s' = s\<lparr>events := events s @ es\<rparr> \<and> no_toggle es"
proof -
  assume r: "request rq retry att s = Some (s', x)"
  from request_posts [OF r] obtain k ws where
    ev: "events s' = events s @ replicate k (Post (url s rq) rq) @ ws" and ws: "set ws \<subseteq> {Log WARN m | m. True}"
    by blast
  from request_only_events [OF r] have "s' = s\<lparr>events := events s'\<rparr>" by (simp add: only_events_def)
  with ev ws show ?thesis
    unfolding no_toggle_def by (intro exI [of _ "replicate k (Post (url s rq) rq) @ ws"]) auto
qed

text \<open>A tick only appends heartbeat posts and log lines, and changes nothing else.\<close>

lemma heartbeat_tick_events:
  assumes "heartbeat_tick nt s = Some (s', r)"
  shows "\<exists>es. s' = s\<lparr>events := events s @ es\<rparr> \<and> no_toggle es"
proof (cases "node s")
  case None
  with assms show ?thesis
    by (auto simp: heartbeat_tick_def send_node_heartbeat_def cm_simps no_toggle_def)
next
  case (Some n)
  let ?rq = "SendNodeHeartbeatRequest n heartbeat_default_interval"
  obtain s1 y where req: "request ?rq False (rpc_heartbeat nt n) s = Some (s1, y)"
    using request_no_retry_returns [of ?rq "rpc_heartbeat nt n" s] by (auto simp: returns_def)
  from request_no_toggle [OF req] obtain es where es: "s1 = s\<lparr>events := events s @ es\<rparr>" "no_toggle es"
    by blast
  have "s' = s1"
    using assms Some req
    by (auto simp: heartbeat_tick_def send_node_heartbeat_def cm_simps split: sum.splits option.splits if_splits)
  with es show ?thesis by blast
qed

text \<open>The probe is a single attempt: it returns whatever the retry budget is.\<close>

lemma send_node_heartbeat_returns: "returns (send_node_heartbeat nt) s"
proof (cases "node s")
  case None
  then show ?thesis by (simp add: returns_def send_node_heartbeat_def cm_simps)
next
  case (Some n)
  obtain s1 y where req: "request (SendNodeHeartbeatRequest n heartbeat_default_interval) False (rpc_heartbeat nt n) s = Some (s1, y)"
    using request_no_retry_returns [of "SendNodeHeartbeatRequest n heartbeat_default_interval" "rpc_heartbeat nt n" s]
    by (auto simp: returns_def)
  with Some show ?thesis
    by (auto simp: returns_def send_node_heartbeat_def cm_simps split: sum.splits option.splits)
qed

text \<open>One tick of a registered client, by the first (and only) attempt of the probe.\<close>

lemma heartbeat_tick_Some:
  assumes "node s = Some n"
  shows "heartbeat_tick nt s =
    (let rq = SendNodeHeartbeatRequest n heartbeat_default_interval in
     case rpc_heartbeat nt n 0 of
       Inl e \<Rightarrow> Some (s\<lparr>events := events s @ [Post (url s rq) rq]\<rparr>, Inr (if e = RuntimeError then HbFatal else HbNoResponse))
     | Inr res \<Rightarrow> Some (s\<lparr>events := events s @ Post (url s rq) rq # fst (check_response rq res)\<rparr>,
         Inr (case snd (check_response rq res) of None \<Rightarrow> HbNoResponse | Some b \<Rightarrow> if b then HbAlive else HbFatal)))"
  using assms
  by (cases "rpc_heartbeat nt n 0")
     (auto simp: heartbeat_tick_def send_node_heartbeat_def cm_simps request_first_reply request_no_retry_raises Let_def
           split: option.splits)

text \<open>
  C13: a tick of a registered client makes exactly one heartbeat post, whatever
  the retry budget, never raises, changes nothing but the event log, and
  escalates (\<open>HbFatal\<close>) exactly when the SuperLink answers that it does not
  know the node (an accepted reply \<open>success = False\<close>) or the transport
  raises \<open>RuntimeError\<close>.
\<close>

theorem heartbeat_tick_single_probe:
  assumes "node s = Some n"
  shows "\<exists>s' r ws. heartbeat_tick nt s = Some (s', Inr r) \<and> s' = s\<lparr>events := events s'\<rparr> \<and>
           events s' = events s @ Post (url s (SendNodeHeartbeatRequest n heartbeat_default_interval))
                                      (SendNodeHeartbeatRequest n heartbeat_default_interval) # ws \<and>
           set ws \<subseteq> {Log WARN m | m. True} \<and>
           (r = HbFatal \<longleftrightarrow> rpc_heartbeat nt n 0 = Inl RuntimeError \<or>
              (\<exists>res. rpc_heartbeat nt n 0 = Inr res \<and> status_code res = 200 \<and>
                     content_type res = Some ''application/protobuf'' \<and> \<not> reply_body res))"
proof (cases "rpc_heartbeat nt n 0")
  case (Inl e)
  then show ?thesis using assms by (simp add: heartbeat_tick_Some Let_def)
next
  case (Inr res)
  let ?rq = "SendNodeHeartbeatRequest n heartbeat_default_interval"
  have ws: "set (fst (check_response ?rq res)) \<subseteq> {Log WARN m | m. True}"
    by (rule check_response_logs)
  show ?thesis
  proof (cases "snd (check_response ?rq res)")
    case None
    then have "\<not> (status_code res = 200 \<and> content_type res = Some ''application/protobuf'')"
      using check_response_Some [of ?rq res] by auto
    then show ?thesis using assms Inr None ws by (auto simp: heartbeat_tick_Some Let_def)
  next
    case (Some b)
    then show ?thesis
      using assms Inr ws check_response_Some [of ?rq res b] by (auto simp: heartbeat_tick_Some Let_def)
  qed
qed

text \<open>
  C30: without a registered node the probe posts nothing: it logs an error
  and reports \<open>False\<close>, and the tick counts it as a missing reply.
\<close>

theorem heartbeat_without_node:
  assumes "node s = None"
  shows "send_node_heartbeat nt s = Some (s\<lparr>events := events s @ [Log ERROR ''Node instance missing'']\<rparr>, Inr False) \<and>
         heartbeat_tick nt s = Some (s\<lparr>events := events s @ [Log ERROR ''Node instance missing'']\<rparr>, Inr HbNoResponse)"
  using assms by (simp add: heartbeat_tick_def send_node_heartbeat_def cm_simps log_def emit_def)

end
