(* ===== verification/Exchange.thy ===== *)
theory Exchange
  imports ObjectSync Heartbeat
begin

text \<open>
  The message exchange engine of \<^verbatim>\<open>connection.py\<close>: \<open>receive\<close>
  (lines 296--368) pulls the next message envelope, drops it unless it is
  addressed to this node, pulls the chunks of its object tree, confirms the
  receipt and inflates the message; \<open>send\<close> (lines 370--432) announces a
  message and its object tree and pushes the chunks the SuperLink says it
  lacks. Both read the shared node and leave it, and the heartbeat, alone.

  One detail of \<open>receive\<close> is modelled as the code has it: the \<open>try\<close> block
  assigns \<open>all_object_contents\<close>, its \<open>except ValueError\<close> handler only logs,
  and the statement after the block reads the variable. When a chunk pull
  fails the variable was never bound, so the read raises
  \<open>UnboundLocalError\<close>. The model threads the variable as an option: \<open>None\<close>
  is an unbound local.
\<close>

section \<open>receive\<close>

text \<open>
  Lines 336--360: the \<open>try\<close> block and its handler. The handler catches
  \<open>ValueError\<close> only and logs it. Whether \<open>all_object_contents\<close> is bound
  afterwards depends on where the exception arose: a failed pull (line 338)
  leaves it unbound (\<open>None\<close>), a failing confirmation (line 348) comes after
  the assignment and leaves the pulled contents bound.
\<close>

definition on_value_error :: "'a \<Rightarrow> exn \<Rightarrow> (client, 'a) cm" where
  "on_value_error bound e =
     (if e = ValueError
      then thenc (log ERROR ''Pulling objects failed. Potential irrecoverable error'') (ret bound)
      else throw e)"

definition receive_objects ::
  "net \<Rightarrow> node_id \<Rightarrow> pull_messages_res \<Rightarrow> metadata \<Rightarrow> (client, (object_id \<rightharpoonup> deflated) option) cm" where
  "receive_objects nt n res md =
     bindc
       (catch
          (case message_object_trees res of
             [] \<Rightarrow> throw IndexError
           | object_tree # _ \<Rightarrow>
            bindc (pull_objects (map tree_object_id (iterate_object_tree object_tree))
                     (make_pull_object_fn_rest (pull_object_rest nt) n (run_id md)))
              (\<lambda>all_object_contents. ret (Some all_object_contents)))
          (on_value_error None))
       (\<lambda>contents.
          case contents of
            None \<Rightarrow> ret None
          | Some all_object_contents \<Rightarrow>
              catch
                (thenc (request (ConfirmMessageReceivedRequest n (run_id md) (message_id md)) True
                          (rpc_confirm nt n (run_id md) (message_id md)))
                   (ret (Some all_object_contents)))
                (on_value_error (Some all_object_contents)))"

text \<open>Lines 361--366: inflate, cast, and inject the message id.\<close>

definition inflate_message :: "(object_id \<rightharpoonup> deflated) option \<Rightarrow> object_id \<Rightarrow> (client, message) cm" where
  "inflate_message contents msg_id =
     (case contents of
        None \<Rightarrow> throw UnboundLocalError
      | Some c \<Rightarrow>
          (case inflate recursion_limit c msg_id of
             Inl e \<Rightarrow> throw e
           | Inr x \<Rightarrow>
               (case message_of_object x of
                  Inl e \<Rightarrow> throw e
                | Inr m \<Rightarrow> ret (m\<lparr>metadata := (metadata m)\<lparr>message_id := msg_id\<rparr>\<rparr>))))"

text \<open>Lines 312--318: the first envelope, kept only if addressed to this node.\<close>

definition first_valid_message :: "node_id \<Rightarrow> pull_messages_res \<Rightarrow> metadata option" where
  "first_valid_message n res =
     (case messages_list res of
        [] \<Rightarrow> None
      | md # _ \<Rightarrow> if dst_node_id md = n then Some md else None)"

definition receive :: "net \<Rightarrow> (client, message option) cm" where
  "receive nt =
     bindc (gets node) (\<lambda>nd.
       case nd of
         None \<Rightarrow> thenc (log ERROR ''Node instance missing'') (ret None)
       | Some n \<Rightarrow>
           bindc (request (PullMessagesRequest n) True (rpc_pull_messages nt n)) (\<lambda>res.
             case res of
               None \<Rightarrow> ret None
             | Some r \<Rightarrow>
                 (case first_valid_message n r of
                    None \<Rightarrow> ret None
                  | Some md \<Rightarrow>
                      thenc (log INFO (''[Node] POST /'' @ api_path (PullMessagesRequest n) @ '': success''))
                        (bindc (receive_objects nt n r md) (\<lambda>contents.
                           bindc (inflate_message contents (message_id md)) (\<lambda>m. ret (Some m)))))))"

section \<open>send\<close>

text \<open>Protobuf map access \<open>m[k]\<close> on a message-valued map: a missing key reads as empty.\<close>

definition proto_map_get :: "('k \<times> 'v list) list \<Rightarrow> 'k \<Rightarrow> 'v list" where
  "proto_map_get m k = (case map_of m k of None \<Rightarrow> [] | Some v \<Rightarrow> v)"

text \<open>Lines 402--432: push the objects the SuperLink asked for.\<close>

definition push_requested ::
  "hash \<Rightarrow> net \<Rightarrow> node_id \<Rightarrow> message \<Rightarrow> (object_id \<times> obj) list \<Rightarrow> run_id \<Rightarrow> push_messages_res \<Rightarrow>
   (client, unit) cm" where
  "push_requested H nt n msg all_objects r res =
     (if objects_to_push res = [] then ret ()
      else
        (let objs_to_push = set (proto_map_get (objects_to_push res) (message_oid H msg)) in
         catch
           (thenc
              (push_objects H all_objects (make_push_object_fn_rest (push_object_rest nt) n r) objs_to_push)
              (log DEBUG ''Pushed objects to servicer.''))
           (\<lambda>e. if e = ValueError
                then thenc (log ERROR ''Pushing objects failed. Potential irrecoverable error'')
                       (log ERROR ''PushObjectResponse is None.'')
                else throw e)))"

definition send :: "hash \<Rightarrow> net \<Rightarrow> message \<Rightarrow> (client, unit) cm" where
  "send H nt msg =
     bindc (gets node) (\<lambda>nd.
       case nd of
         None \<Rightarrow> log ERROR ''Node instance missing''
       | Some n \<Rightarrow>
           (let all_objects = get_all_nested_objects H (message_object msg);
                object_tree = get_object_tree H (message_object msg);
                message_proto = metadata (remove_content_from_message msg)
            in bindc (request (PushMessagesRequest n [message_proto] [object_tree]) True
                        (rpc_push_messages nt n message_proto object_tree))
                 (\<lambda>res.
                    case res of
                      None \<Rightarrow> ret ()
                    | Some r \<Rightarrow>
                        thenc (log INFO (''[Node] POST /'' @ api_path (PushMessagesRequest n [] []) @ '': success, created result''))
                          (push_requested H nt n msg all_objects (run_id message_proto) r))))"

section \<open>receive: the early returns\<close>

lemma receive_unfold:
  "node s = Some n \<Longrightarrow>
   receive nt s =
     (case request (PullMessagesRequest n) True (rpc_pull_messages nt n) s of
        None \<Rightarrow> None
      | Some (s1, Inl e) \<Rightarrow> Some (s1, Inl e)
      | Some (s1, Inr None) \<Rightarrow> Some (s1, Inr None)
      | Some (s1, Inr (Some r)) \<Rightarrow>
          (case first_valid_message n r of
             None \<Rightarrow> Some (s1, Inr None)
           | Some md \<Rightarrow>
               bindc (receive_objects nt n r md)
                 (\<lambda>contents. bindc (inflate_message contents (message_id md)) (\<lambda>m. ret (Some m)))
                 (s1\<lparr>events := events s1 @ [Log INFO (''[Node] POST /'' @ api_path (PullMessagesRequest n) @ '': success'')]\<rparr>)))"
  by (simp add: receive_def cm_simps split: option.splits sum.splits)

text \<open>No envelope to deliver (none pending, or not addressed to this node): one post, no value.\<close>

lemma receive_nothing_valid:
  "node s = Some n \<Longrightarrow> rpc_pull_messages nt n 0 = Inr (ok_reply r) \<Longrightarrow> first_valid_message n r = None \<Longrightarrow>
   receive nt s = Some (s\<lparr>events := events s @ [Post (url s (PullMessagesRequest n)) (PullMessagesRequest n)]\<rparr>, Inr None)"
  by (simp add: receive_unfold request_ok_first)

section \<open>receive: the object pull\<close>

abbreviation tree_ids :: "object_tree \<Rightarrow> object_id list" where
  "tree_ids t \<equiv> map tree_object_id (iterate_object_tree t)"

abbreviation pull_posts :: "client \<Rightarrow> node_id \<Rightarrow> run_id \<Rightarrow> object_id list \<Rightarrow> event list" where
  "pull_posts s n r ids \<equiv> map (\<lambda>i. Post (url s (PullObjectRequest n r i)) (PullObjectRequest n r i)) ids"

lemma receive_objects_served:
  assumes tr: "message_object_trees r = t # ts"
    and ch: "\<forall>i \<in> set (tree_ids t). serves_chunk nt n (run_id md) store i"
    and cf: "rpc_confirm nt n (run_id md) (message_id md) 0 = Inr rc"
  shows "receive_objects nt n r md s =
     Some (s\<lparr>events := events s @ pull_posts s n (run_id md) (remdups (tree_ids t)) @
             [Post (url s (ConfirmMessageReceivedRequest n (run_id md) (message_id md)))
                   (ConfirmMessageReceivedRequest n (run_id md) (message_id md))] @
             fst (check_response (ConfirmMessageReceivedRequest n (run_id md) (message_id md)) rc)\<rparr>,
           Inr (Some (store |` set (tree_ids t))))"
proof -
  let ?s1 = "s\<lparr>events := events s @ pull_posts s n (run_id md) (remdups (tree_ids t))\<rparr>"
  have pull: "pull_objects (tree_ids t) (make_pull_object_fn_rest (pull_object_rest nt) n (run_id md)) s =
      Some (?s1, Inr (store |` set (tree_ids t)))"
    using pull_objects_rest [OF ch] by simp
  have u: "url ?s1 = url s" by (simp add: url_def fun_eq_iff)
  show ?thesis
    using pull tr cf u by (simp add: receive_objects_def on_value_error_def cm_simps request_first_reply)
qed

text \<open>A chunk request that gets no usable reply makes \<open>fn\<close> raise \<open>ValueError\<close>.\<close>

lemma pull_rest_no_reply:
  "rpc_pull_object nt n r i 0 = Inr res \<Longrightarrow> status_code res \<noteq> 200 \<Longrightarrow>
   make_pull_object_fn_rest (pull_object_rest nt) n r i s =
     Some (s\<lparr>events := events s @ [Post (url s (PullObjectRequest n r i)) (PullObjectRequest n r i)]\<rparr>, Inl ValueError)"
  by (simp add: make_pull_object_fn_rest_def pull_object_rest_def request_first_reply check_response_def cm_simps)

lemma receive_objects_chunk_fails:
  assumes tr: "message_object_trees r = t # ts"
    and bad: "\<forall>i. \<exists>res. rpc_pull_object nt n (run_id md) i 0 = Inr res \<and> status_code res \<noteq> 200"
  shows "\<exists>s'. receive_objects nt n r md s = Some (s', Inr None)"
proof -
  obtain i is' where ids: "remdups (tree_ids t) = i # is'"
    by (cases t) (cases "remdups (tree_ids t)", auto)
  obtain res where res: "rpc_pull_object nt n (run_id md) i 0 = Inr res" "status_code res \<noteq> 200"
    using bad by blast
  have "\<exists>s1. pull_objects (tree_ids t) (make_pull_object_fn_rest (pull_object_rest nt) n (run_id md)) s = Some (s1, Inl ValueError)"
    using pull_rest_no_reply [OF res] ids by (simp add: pull_objects_def bindc_def)
  then show ?thesis
    using tr by (auto simp: receive_objects_def on_value_error_def cm_simps log_def emit_def)
qed

section \<open>receive: delivering a message\<close>

text \<open>
  A store holds a message when it maps the id of each of the message's
  objects to that object's deflated form: what the SuperLink holds once the
  sender has pushed every chunk.
\<close>

definition holds_message :: "hash \<Rightarrow> (object_id \<rightharpoonup> deflated) \<Rightarrow> message \<Rightarrow> bool" where
  "holds_message H store m \<longleftrightarrow>
     (\<forall>x \<in> set (subobjs (message_object m)). store (obj_id H x) = Some (deflate H x))"

lemma message_of_message_object:
  "message_of_object (message_object m) = Inr (m\<lparr>metadata := (metadata m)\<lparr>message_id := []\<rparr>\<rparr>)"
  by (simp add: message_object_def)

lemma inflate_message_ok:
  assumes "\<forall>x \<in> set (subobjs (message_object m)). c (obj_id H x) = Some (deflate H x)"
    and "obj_depth (message_object m) \<le> recursion_limit"
    and "message_id (metadata m) = message_oid H m"
  shows "inflate_message (Some c) (message_id (metadata m)) s = Some (s, Inr m)"
proof -
  have "inflate recursion_limit c (message_oid H m) = Inr (message_object m)"
    unfolding message_oid_def using assms(1,2) by (rule inflate_deflated)
  then show ?thesis
    using assms(3) by (simp add: inflate_message_def message_of_message_object ret_def)
qed

lemma holds_message_restrict:
  assumes "holds_message H store m"
  shows "\<forall>x \<in> set (subobjs (message_object m)).
           (store |` set (tree_ids (get_object_tree H (message_object m)))) (obj_id H x) = Some (deflate H x)"
  using assms iterate_object_tree_ids [of H "message_object m"]
  by (auto simp: holds_message_def restrict_map_def)

text \<open>
  The envelope the SuperLink hands out for a message: its metadata and the
  object tree of the message, addressed to node \<open>n\<close>.
\<close>

definition serves_message :: "hash \<Rightarrow> net \<Rightarrow> node_id \<Rightarrow> message \<Rightarrow> bool" where
  "serves_message H nt n m \<longleftrightarrow>
     rpc_pull_messages nt n 0 =
       Inr (ok_reply \<lparr>messages_list = [metadata m], message_object_trees = [get_object_tree H (message_object m)]\<rparr>)"

lemma receive_delivers:
  assumes node: "node s = Some n"
    and dst: "dst_node_id (metadata m) = n"
    and mid: "message_id (metadata m) = message_oid H m"
    and pm: "serves_message H nt n m"
    and ch: "\<forall>i \<in> set (tree_ids (get_object_tree H (message_object m))). serves_chunk nt n (run_id (metadata m)) store i"
    and st: "holds_message H store m"
    and cf: "rpc_confirm nt n (run_id (metadata m)) (message_id (metadata m)) 0 = Inr (ok_reply ())"
    and depth: "obj_depth (message_object m) \<le> recursion_limit"
  shows "receive nt s =
     Some (s\<lparr>events := events s @ [Post (url s (PullMessagesRequest n)) (PullMessagesRequest n),
               Log INFO (''[Node] POST /'' @ api_path (PullMessagesRequest n) @ '': success'')] @
             pull_posts s n (run_id (metadata m)) (remdups (tree_ids (get_object_tree H (message_object m)))) @
             [Post (url s (ConfirmMessageReceivedRequest n (run_id (metadata m)) (message_id (metadata m))))
                   (ConfirmMessageReceivedRequest n (run_id (metadata m)) (message_id (metadata m)))]\<rparr>,
           Inr (Some m))"
proof -
  let ?t = "get_object_tree H (message_object m)"
  let ?r = "\<lparr>messages_list = [metadata m], message_object_trees = [?t]\<rparr>"
  let ?s1 = "s\<lparr>events := events s @ [Post (url s (PullMessagesRequest n)) (PullMessagesRequest n),
               Log INFO (''[Node] POST /'' @ api_path (PullMessagesRequest n) @ '': success'')]\<rparr>"
  have u: "url ?s1 = url s" by (simp add: url_def fun_eq_iff)
  have fv: "first_valid_message n ?r = Some (metadata m)"
    using dst by (simp add: first_valid_message_def)
  have ro: "receive_objects nt n ?r (metadata m) ?s1 =
     Some (?s1\<lparr>events := events ?s1 @ pull_posts ?s1 n (run_id (metadata m)) (remdups (tree_ids ?t)) @
             [Post (url ?s1 (ConfirmMessageReceivedRequest n (run_id (metadata m)) (message_id (metadata m))))
                   (ConfirmMessageReceivedRequest n (run_id (metadata m)) (message_id (metadata m)))]\<rparr>,
           Inr (Some (store |` set (tree_ids ?t))))"
    using receive_objects_served [of ?r ?t "[]" nt n "metadata m" store "ok_reply ()" ?s1] ch cf by simp
  have im: "inflate_message (Some (store |` set (tree_ids ?t))) (message_id (metadata m)) s' = Some (s', Inr m)" for s'
    using holds_message_restrict [OF st] depth mid by (rule inflate_message_ok)
  show ?thesis
    using node pm fv ro im u
    by (simp add: receive_unfold serves_message_def request_ok_first cm_simps)
qed

text \<open>With a finite budget and a transport that always raises \<open>e\<close>, a request raises \<open>e\<close>.\<close>

lemma request_always_raises:
  assumes "max_tries s = Some b" and "\<forall>k. att k = Inl e"
  shows "\<exists>s'. request rq True att s = Some (s', Inl e)"
proof -
  obtain out n where r: "retry_loop (Some b) att 0 = Some (out, n)"
    using retry_loop_bounded [of b att 0] by blast
  then have "out = Inl e" using retry_loop_result [OF r] assms(2) by simp
  with r assms(1) show ?thesis by (simp add: request_unfold)
qed

text \<open>
  A confirmation that raises \<open>ValueError\<close> after a complete pull: the
  handler logs it, and the pulled contents stay bound.
\<close>

lemma receive_objects_confirm_fails:
  assumes tr: "message_object_trees r = t # ts"
    and ch: "\<forall>i \<in> set (tree_ids t). serves_chunk nt n (run_id md) store i"
    and fin: "max_tries s = Some b"
    and cf: "\<forall>k. rpc_confirm nt n (run_id md) (message_id md) k = Inl ValueError"
  shows "\<exists>s'. receive_objects nt n r md s = Some (s', Inr (Some (store |` set (tree_ids t)))) \<and>
           Log ERROR ''Pulling objects failed. Potential irrecoverable error'' \<in> set (events s')"
proof -
  let ?s1 = "s\<lparr>events := events s @ pull_posts s n (run_id md) (remdups (tree_ids t))\<rparr>"
  let ?c = "store |` set (tree_ids t)"
  have pull: "pull_objects (tree_ids t) (make_pull_object_fn_rest (pull_object_rest nt) n (run_id md)) s =
      Some (?s1, Inr ?c)"
    using pull_objects_rest [OF ch] by simp
  obtain s2 where c: "request (ConfirmMessageReceivedRequest n (run_id md) (message_id md)) True
      (rpc_confirm nt n (run_id md) (message_id md)) ?s1 = Some (s2, Inl ValueError)"
    using request_always_raises [of ?s1 b "rpc_confirm nt n (run_id md) (message_id md)" ValueError] fin cf by auto
  show ?thesis
    using pull tr c by (simp add: receive_objects_def on_value_error_def cm_simps log_def emit_def)
qed

text \<open>
  C1: round trip of the exchange. When the SuperLink hands out a message
  addressed to this node whose id is its content hash, and holds each of its
  chunks under the chunk's id, \<open>receive\<close> returns exactly that message.
\<close>

theorem receive_roundtrip:
  assumes "node s = Some n"
    and "dst_node_id (metadata m) = n"
    and "message_id (metadata m) = message_oid H m"
    and "serves_message H nt n m"
    and "\<forall>i \<in> set (tree_ids (get_object_tree H (message_object m))). serves_chunk nt n (run_id (metadata m)) store i"
    and "holds_message H store m"
    and "rpc_confirm nt n (run_id (metadata m)) (message_id (metadata m)) 0 = Inr (ok_reply ())"
    and "obj_depth (message_object m) \<le> recursion_limit"
  shows "\<exists>s'. receive nt s = Some (s', Inr (Some m))"
  using receive_delivers [OF assms] by simp


text \<open>
  C12: the confirmation is best effort (lines 345--352). When the SuperLink
  serves the message and all its chunks but the confirmation request raises
  \<open>ValueError\<close> on every attempt, the handler logs the error and
  \<open>receive\<close> still returns the message: the contents were bound before the
  confirmation was sent.
\<close>

theorem confirm_failure_keeps_message:
  assumes node: "node s = Some n"
    and dst: "dst_node_id (metadata m) = n"
    and mid: "message_id (metadata m) = message_oid H m"
    and pm: "serves_message H nt n m"
    and ch: "\<forall>i \<in> set (tree_ids (get_object_tree H (message_object m))). serves_chunk nt n (run_id (metadata m)) store i"
    and st: "holds_message H store m"
    and fin: "max_tries s = Some b"
    and cf: "\<forall>k. rpc_confirm nt n (run_id (metadata m)) (message_id (metadata m)) k = Inl ValueError"
    and depth: "obj_depth (message_object m) \<le> recursion_limit"
  shows "\<exists>s'. receive nt s = Some (s', Inr (Some m)) \<and>
           Log ERROR ''Pulling objects failed. Potential irrecoverable error'' \<in> set (events s')"
proof -
  let ?t = "get_object_tree H (message_object m)"
  let ?r = "\<lparr>messages_list = [metadata m], message_object_trees = [?t]\<rparr>"
  let ?s1 = "s\<lparr>events := events s @ [Post (url s (PullMessagesRequest n)) (PullMessagesRequest n),
               Log INFO (''[Node] POST /'' @ api_path (PullMessagesRequest n) @ '': success'')]\<rparr>"
  have fv: "first_valid_message n ?r = Some (metadata m)"
    using dst by (simp add: first_valid_message_def)
  obtain s2 where ro: "receive_objects nt n ?r (metadata m) ?s1 = Some (s2, Inr (Some (store |` set (tree_ids ?t))))"
    and lg: "Log ERROR ''Pulling objects failed. Potential irrecoverable error'' \<in> set (events s2)"
    using receive_objects_confirm_fails [of ?r ?t "[]" nt n "metadata m" store ?s1 b] ch fin cf by auto
  have im: "inflate_message (Some (store |` set (tree_ids ?t))) (message_id (metadata m)) s2 = Some (s2, Inr m)"
    using holds_message_restrict [OF st] depth mid by (rule inflate_message_ok)
  have "receive nt s = Some (s2, Inr (Some m))"
    using node pm fv ro im by (simp add: receive_unfold serves_message_def request_ok_first cm_simps)
  with lg show ?thesis by blast
qed

text \<open>
  C3: deduplication of the pull. In the same situation the requests
  \<open>receive\<close> posts are the pull of the envelope, one pull of each distinct id
  of the object tree (an id the tree repeats is fetched once), and then one
  confirmation of receipt.
\<close>

theorem receive_fetches_each_chunk_once:
  assumes "node s = Some n"
    and "dst_node_id (metadata m) = n"
    and "message_id (metadata m) = message_oid H m"
    and "serves_message H nt n m"
    and "\<forall>i \<in> set (tree_ids (get_object_tree H (message_object m))). serves_chunk nt n (run_id (metadata m)) store i"
    and "holds_message H store m"
    and "rpc_confirm nt n (run_id (metadata m)) (message_id (metadata m)) 0 = Inr (ok_reply ())"
    and "obj_depth (message_object m) \<le> recursion_limit"
  shows "\<exists>s'. receive nt s = Some (s', Inr (Some m)) \<and>
           posts (events s') = posts (events s) @ [PullMessagesRequest n] @
             map (PullObjectRequest n (run_id (metadata m))) (remdups (tree_ids (get_object_tree H (message_object m)))) @
             [ConfirmMessageReceivedRequest n (run_id (metadata m)) (message_id (metadata m))]"
  using receive_delivers [OF assms] by (simp add: posts_def comp_def)

section \<open>receive: messages that are not delivered\<close>

text \<open>C2: a message addressed to another node is discarded as if absent: nothing is pulled or confirmed.\<close>

theorem receive_drops_misrouted:
  assumes "node s = Some n"
    and "rpc_pull_messages nt n 0 = Inr (ok_reply r)"
    and "messages_list r = md # mds"
    and "dst_node_id md \<noteq> n"
  shows "receive nt s = Some (s\<lparr>events := events s @ [Post (url s (PullMessagesRequest n)) (PullMessagesRequest n)]\<rparr>, Inr None)"
proof -
  have "first_valid_message n r = None"
    using assms(3,4) by (simp add: first_valid_message_def)
  with assms(1,2) show ?thesis by (rule receive_nothing_valid)
qed

text \<open>C18: an empty queue is a normal outcome: \<open>receive\<close> returns no message and raises nothing.\<close>

theorem receive_empty_queue:
  assumes "node s = Some n"
    and "rpc_pull_messages nt n 0 = Inr (ok_reply r)"
    and "messages_list r = []"
  shows "receive nt s = Some (s\<lparr>events := events s @ [Post (url s (PullMessagesRequest n)) (PullMessagesRequest n)]\<rparr>, Inr None)"
proof -
  have "first_valid_message n r = None"
    using assms(3) by (simp add: first_valid_message_def)
  with assms(1,2) show ?thesis by (rule receive_nothing_valid)
qed

text \<open>
  C11: a chunk that cannot be pulled does not make \<open>receive\<close> return an
  absent result, as the specification asks: the \<open>except ValueError\<close> handler
  only logs, and the following read of the unbound \<open>all_object_contents\<close>
  raises \<open>UnboundLocalError\<close> into the caller.
\<close>

theorem receive_failed_chunk_raises:
  assumes "node s = Some n"
    and "rpc_pull_messages nt n 0 = Inr (ok_reply r)"
    and "first_valid_message n r = Some md"
    and "message_object_trees r = t # ts"
    and "\<forall>i. \<exists>res. rpc_pull_object nt n (run_id md) i 0 = Inr res \<and> status_code res \<noteq> 200"
  shows "\<exists>s'. receive nt s = Some (s', Inl UnboundLocalError)"
proof -
  let ?s1 = "s\<lparr>events := events s @ [Post (url s (PullMessagesRequest n)) (PullMessagesRequest n),
               Log INFO (''[Node] POST /'' @ api_path (PullMessagesRequest n) @ '': success'')]\<rparr>"
  obtain s2 where ro: "receive_objects nt n r md ?s1 = Some (s2, Inr None)"
    using receive_objects_chunk_fails [OF assms(4,5)] by blast
  show ?thesis
    using assms(1,2,3) ro by (simp add: receive_unfold request_ok_first cm_simps inflate_message_def)
qed

section \<open>send\<close>

text \<open>
  C24: without a registered node, \<open>receive\<close> and \<open>send\<close> take their early
  returns (lines 299--301 and 373--375): each logs an error and returns (no
  message, or nothing) without posting and without raising.
\<close>

theorem no_node_no_post:
  assumes "node s = None"
  shows "receive nt s = Some (s\<lparr>events := events s @ [Log ERROR ''Node instance missing'']\<rparr>, Inr None) \<and>
         send H nt m s = Some (s\<lparr>events := events s @ [Log ERROR ''Node instance missing'']\<rparr>, Inr ())"
  using assms by (simp add: receive_def send_def cm_simps)

abbreviation push_msg_req :: "hash \<Rightarrow> node_id \<Rightarrow> message \<Rightarrow> request" where
  "push_msg_req H n m \<equiv> PushMessagesRequest n [metadata m] [get_object_tree H (message_object m)]"

abbreviation requested_objects :: "hash \<Rightarrow> message \<Rightarrow> push_messages_res \<Rightarrow> (object_id \<times> obj) list" where
  "requested_objects H m r \<equiv>
     filter (\<lambda>(k, _). k \<in> set (proto_map_get (objects_to_push r) (message_oid H m)))
       (get_all_nested_objects H (message_object m))"

lemma send_unfold:
  "node s = Some n \<Longrightarrow>
   send H nt m s =
     (case request (push_msg_req H n m) True (rpc_push_messages nt n (metadata m) (get_object_tree H (message_object m))) s of
        None \<Rightarrow> None
      | Some (s1, Inl e) \<Rightarrow> Some (s1, Inl e)
      | Some (s1, Inr None) \<Rightarrow> Some (s1, Inr ())
      | Some (s1, Inr (Some r)) \<Rightarrow>
          push_requested H nt n m (get_all_nested_objects H (message_object m)) (run_id (metadata m)) r
            (s1\<lparr>events := events s1 @ [Log INFO (''[Node] POST /'' @ api_path (PushMessagesRequest n [] []) @ '': success, created result'')]\<rparr>))"
  by (simp add: send_def remove_content_from_message_def cm_simps Let_def split: option.splits sum.splits)

lemma send_served:
  assumes node: "node s = Some n"
    and pm: "rpc_push_messages nt n (metadata m) (get_object_tree H (message_object m)) 0 = Inr (ok_reply r)"
    and req: "objects_to_push r \<noteq> []"
    and ok: "\<forall>(k, v) \<in> set (get_all_nested_objects H (message_object m)).
               rpc_push_object nt n (run_id (metadata m)) k (deflate H v) 0 = Inr (ok_reply ())"
  shows "send H nt m s =
     Some (s\<lparr>events := events s @ [Post (url s (push_msg_req H n m)) (push_msg_req H n m),
               Log INFO (''[Node] POST /'' @ api_path (PushMessagesRequest n [] []) @ '': success, created result'')] @
             map (\<lambda>(k, v). Post (url s (PushObjectRequest n (run_id (metadata m)) k (deflate H v)))
                                (PushObjectRequest n (run_id (metadata m)) k (deflate H v)))
                 (requested_objects H m r) @
             [Log DEBUG ''Pushed objects to servicer.'']\<rparr>, Inr ())"
proof -
  let ?s1 = "s\<lparr>events := events s @ [Post (url s (push_msg_req H n m)) (push_msg_req H n m),
               Log INFO (''[Node] POST /'' @ api_path (PushMessagesRequest n [] []) @ '': success, created result'')]\<rparr>"
  have u: "url ?s1 = url s" by (simp add: url_def fun_eq_iff)
  have po: "push_objects H (get_all_nested_objects H (message_object m))
              (make_push_object_fn_rest (push_object_rest nt) n (run_id (metadata m)))
              (set (proto_map_get (objects_to_push r) (message_oid H m))) ?s1 =
     Some (?s1\<lparr>events := events ?s1 @
             map (\<lambda>(k, v). Post (url ?s1 (PushObjectRequest n (run_id (metadata m)) k (deflate H v)))
                                (PushObjectRequest n (run_id (metadata m)) k (deflate H v)))
                 (requested_objects H m r)\<rparr>, Inr ())"
    by (rule push_objects_rest_ok) (use ok in auto)
  show ?thesis
    using node pm req po u
    by (simp add: send_unfold request_ok_first push_requested_def cm_simps Let_def)
qed

text \<open>
  C4: \<open>send\<close> announces the message with its object tree and then uploads
  exactly the objects of the message that the SuperLink declared missing, in
  dictionary order, and nothing else.
\<close>

theorem send_pushes_exactly_requested:
  assumes "node s = Some n"
    and "rpc_push_messages nt n (metadata m) (get_object_tree H (message_object m)) 0 = Inr (ok_reply r)"
    and "objects_to_push r \<noteq> []"
    and "\<forall>(k, v) \<in> set (get_all_nested_objects H (message_object m)).
           rpc_push_object nt n (run_id (metadata m)) k (deflate H v) 0 = Inr (ok_reply ())"
  shows "\<exists>s'. send H nt m s = Some (s', Inr ()) \<and>
           posts (events s') = posts (events s) @ [push_msg_req H n m] @
             map (\<lambda>(k, v). PushObjectRequest n (run_id (metadata m)) k (deflate H v)) (requested_objects H m r)"
  using send_served [OF assms] by (simp add: posts_def case_prod_beta comp_def)

text \<open>
  C5: deduplication and frozen ids of the push. Every object the SuperLink
  asked for and the message contains is uploaded exactly once, and the bytes
  uploaded under an id are the deflated object whose hash is that id.
\<close>

theorem send_uploads_once_by_content_id:
  assumes "node s = Some n"
    and "rpc_push_messages nt n (metadata m) (get_object_tree H (message_object m)) 0 = Inr (ok_reply r)"
    and "objects_to_push r \<noteq> []"
    and "\<forall>(k, v) \<in> set (get_all_nested_objects H (message_object m)).
           rpc_push_object nt n (run_id (metadata m)) k (deflate H v) 0 = Inr (ok_reply ())"
  shows "\<exists>s' pushed. send H nt m s = Some (s', Inr ()) \<and>
           posts (events s') = posts (events s) @ [push_msg_req H n m] @ map (\<lambda>(i, d). PushObjectRequest n (run_id (metadata m)) i d) pushed \<and>
           distinct (map fst pushed) \<and>
           (\<forall>(i, d) \<in> set pushed. H d = i) \<and>
           fst ` set pushed = set (proto_map_get (objects_to_push r) (message_oid H m)) \<inter> obj_id H ` set (subobjs (message_object m))"
proof -
  let ?pushed = "map (\<lambda>(k, v). (k, deflate H v)) (requested_objects H m r)"
  have "distinct (map fst (requested_objects H m r))"
    using nested_distinct [of H "message_object m"] by (rule distinct_map_filter)
  then have dist: "distinct (map fst ?pushed)"
    by (simp only: map_fst_map_snd)
  have hash: "\<forall>(i, d) \<in> set ?pushed. H d = i"
  proof (clarify)
    fix i d assume "(i, d) \<in> set ?pushed"
    then obtain v where v: "(i, v) \<in> set (get_all_nested_objects H (message_object m))" and d: "d = deflate H v"
      by auto
    from nested_sound [OF v] have "i = obj_id H v" by simp
    with d show "H d = i" by (simp add: obj_id_deflate)
  qed
  have "fst ` set ?pushed = fst ` set (requested_objects H m r)"
    by (metis map_fst_map_snd set_map)
  also have "\<dots> = fst ` set (get_all_nested_objects H (message_object m)) \<inter>
                    set (proto_map_get (objects_to_push r) (message_oid H m))"
    by (rule fst_set_filter)
  finally have keys: "fst ` set ?pushed = set (proto_map_get (objects_to_push r) (message_oid H m)) \<inter> obj_id H ` set (subobjs (message_object m))"
    by (simp add: nested_keys Int_commute)
  have ps: "map (\<lambda>(i, d). PushObjectRequest n (run_id (metadata m)) i d) ?pushed =
            map (\<lambda>(k, v). PushObjectRequest n (run_id (metadata m)) k (deflate H v)) (requested_objects H m r)"
    by (simp add: comp_def case_prod_beta)
  obtain s' where snd: "send H nt m s = Some (s', Inr ())" and
    ps': "posts (events s') = posts (events s) @ [push_msg_req H n m] @
            map (\<lambda>(k, v). PushObjectRequest n (run_id (metadata m)) k (deflate H v)) (requested_objects H m r)"
    using send_served [OF assms] by (simp add: posts_def case_prod_beta comp_def)
  show ?thesis
    using snd ps' ps dist hash keys by (intro exI [of _ s'] exI [of _ ?pushed]) simp
qed

lemma push_requested_attempts_all:
  assumes "max_tries s \<noteq> None" and "objects_to_push r \<noteq> []"
  shows "\<exists>s' x. push_requested H nt n m (get_all_nested_objects H (message_object m)) rid r s = Some (s', x) \<and>
           (\<forall>(k, v) \<in> set (requested_objects H m r). PushObjectRequest n rid k (deflate H v) \<in> set (posts (events s')))"
proof -
  let ?ids = "set (proto_map_get (objects_to_push r) (message_oid H m))"
  obtain s2 x2 where po: "push_objects H (get_all_nested_objects H (message_object m))
        (make_push_object_fn_rest (push_object_rest nt) n rid) ?ids s = Some (s2, x2)"
    and ps: "\<forall>(k, v) \<in> set (get_all_nested_objects H (message_object m)). k \<in> ?ids \<longrightarrow>
               PushObjectRequest n rid k (deflate H v) \<in> set (posts (events s2))"
    using push_objects_attempts_all [OF assms(1)] by blast
  have ps2: "\<forall>(k, v) \<in> set (requested_objects H m r). PushObjectRequest n rid k (deflate H v) \<in> set (posts (events s2))"
    using ps by auto
  have "\<exists>s' x. push_requested H nt n m (get_all_nested_objects H (message_object m)) rid r s = Some (s', x) \<and>
          (\<exists>es. events s' = events s2 @ es)"
    using po assms(2) by (cases x2) (auto simp: push_requested_def cm_simps Let_def)
  then show ?thesis using ps2 by auto
qed

text \<open>
  C6: resilience of \<open>send\<close>. Whatever the SuperLink answers to the chunk
  uploads, as long as the retry budget is finite, \<open>send\<close> returns and has
  attempted every object the SuperLink declared missing: one failed upload
  does not prevent the others.
\<close>

theorem send_attempts_every_requested_chunk:
  assumes "node s = Some n" and "max_tries s \<noteq> None"
    and "rpc_push_messages nt n (metadata m) (get_object_tree H (message_object m)) 0 = Inr (ok_reply r)"
    and "objects_to_push r \<noteq> []"
  shows "\<exists>s' x. send H nt m s = Some (s', x) \<and>
           (\<forall>(k, v) \<in> set (requested_objects H m r).
              PushObjectRequest n (run_id (metadata m)) k (deflate H v) \<in> set (posts (events s')))"
proof -
  let ?s1 = "s\<lparr>events := events s @ [Post (url s (push_msg_req H n m)) (push_msg_req H n m),
               Log INFO (''[Node] POST /'' @ api_path (PushMessagesRequest n [] []) @ '': success, created result'')]\<rparr>"
  have "max_tries ?s1 \<noteq> None" using assms(2) by simp
  from push_requested_attempts_all [OF this assms(4)] obtain s' x where
    pr: "push_requested H nt n m (get_all_nested_objects H (message_object m)) (run_id (metadata m)) r ?s1 = Some (s', x)"
    and ps: "\<forall>(k, v) \<in> set (requested_objects H m r).
               PushObjectRequest n (run_id (metadata m)) k (deflate H v) \<in> set (posts (events s'))"
    by blast
  have "send H nt m s = Some (s', x)"
    using assms(1,3) pr by (simp add: send_unfold request_ok_first)
  with ps show ?thesis by blast
qed

section \<open>Message exchange leaves the session alone\<close>

lemma quiet_pull_object_rest [quiet_intros]: "quiet_act (pull_object_rest nt n r i)"
  and quiet_push_object_rest [quiet_intros]: "quiet_act (push_object_rest nt n r i d)"
  unfolding pull_object_rest_def push_object_rest_def
  by (intro quiet_intros; simp)+

lemma quiet_make_pull [quiet_intros]: "(\<And>n r i. quiet_act (f n r i)) \<Longrightarrow> quiet_act (make_pull_object_fn_rest f n r i)"
  unfolding make_pull_object_fn_rest_def by (intro quiet_intros)

lemma quiet_make_push [quiet_intros]: "(\<And>n r i d. quiet_act (f n r i d)) \<Longrightarrow> quiet_act (make_push_object_fn_rest f n r i d)"
  unfolding make_push_object_fn_rest_def by simp

lemma quiet_pull_each [quiet_intros]: "(\<And>i. quiet_act (f i)) \<Longrightarrow> quiet_act (pull_each f ids acc)"
  by (induction ids arbitrary: acc) (auto intro: quiet_intros)

lemma quiet_pull_objects [quiet_intros]: "(\<And>i. quiet_act (f i)) \<Longrightarrow> quiet_act (pull_objects ids f)"
  unfolding pull_objects_def by (rule quiet_pull_each)

lemma quiet_attempt [quiet_intros]: "quiet_act m \<Longrightarrow> quiet_act (attempt m)"
  unfolding attempt_def by (intro quiet_intros)

lemma quiet_push_each [quiet_intros]: "(\<And>k d. quiet_act (f k d)) \<Longrightarrow> quiet_act (push_each f H kvs err)"
proof (induction f H kvs err rule: push_each.induct)
  case (1 f H err)
  then show ?case by (cases err) (auto intro: quiet_intros)
next
  case (2 f H k v rest err)
  then show ?case by (auto intro!: quiet_intros)
qed

lemma quiet_push_objects [quiet_intros]: "(\<And>k d. quiet_act (f k d)) \<Longrightarrow> quiet_act (push_objects H objs f ids)"
  unfolding push_objects_def by (rule quiet_push_each)

lemma quiet_receive [quiet_intros]: "quiet_act (receive nt)"
  unfolding receive_def receive_objects_def on_value_error_def inflate_message_def
  by (intro quiet_intros; simp)+

lemma quiet_send [quiet_intros]: "quiet_act (send H nt m)"
  unfolding send_def push_requested_def
  by (intro quiet_intros; simp)+

end
