(* ===== verification/Session.thy ===== *)
theory Session
  imports Heartbeat
begin

text \<open>
  The node session manager of \<^verbatim>\<open>connection.py\<close>: \<open>create_node\<close>
  (lines 260--273) registers the node, stores the id the SuperLink assigns
  and starts the heartbeat sender; \<open>delete_node\<close> (lines 275--294) stops the
  sender first, then unregisters, and clears the node only when the
  unregister request got a reply; the \<open>finally\<close> block of the context
  manager (lines 465--472) cuts the retry budget to one attempt before its
  final \<open>delete_node\<close> and swallows a connection error.
\<close>

section \<open>Operations\<close>

definition create_node :: "net \<Rightarrow> (client, node_id option) cm" where
  "create_node nt =
     bindc (request (CreateNodeRequest heartbeat_default_interval) True (rpc_create_node nt))
       (\<lambda>res. case res of
                None \<Rightarrow> ret None
              | Some n \<Rightarrow>
                  thenc (modify (\<lambda>s. s\<lparr>node := Some n\<rparr>)) (thenc heartbeat_start (ret (Some n))))"

definition delete_node :: "net \<Rightarrow> (client, unit) cm" where
  "delete_node nt =
     bindc (gets node) (\<lambda>nd.
       case nd of
         None \<Rightarrow> log ERROR ''Node instance missing''
       | Some n \<Rightarrow>
           thenc heartbeat_stop
             (bindc (request (DeleteNodeRequest n) True (rpc_delete_node nt n))
                (\<lambda>res. case res of
                         None \<Rightarrow> ret ()
                       | Some _ \<Rightarrow> modify (\<lambda>s. s\<lparr>node := None\<rparr>))))"

definition cleanup :: "net \<Rightarrow> (client, unit) cm" where
  "cleanup nt =
     catch
       (bindc (gets node) (\<lambda>nd.
          case nd of
            None \<Rightarrow> ret ()
          | Some _ \<Rightarrow> thenc (modify (\<lambda>s. s\<lparr>max_tries := Some 1\<rparr>)) (delete_node nt)))
       (\<lambda>e. if e = ConnectionError then ret () else throw e)"

section \<open>The session invariant\<close>

text \<open>
  The heartbeat runs only for a registered node; the running flag is the one
  the event log ends with; and no heartbeat was ever posted while the sender
  was stopped.
\<close>

definition session_inv :: "client \<Rightarrow> bool" where
  "session_inv s \<longleftrightarrow>
     (hb_running s \<longrightarrow> node s \<noteq> None) \<and> hb_flag False (events s) = hb_running s \<and>
     hb_ok False (events s)"

lemma session_inv_quiet: "quiet s s' \<Longrightarrow> session_inv s \<Longrightarrow> session_inv s'"
  by (simp add: session_inv_def quiet_fields quiet_hb_flag quiet_hb_ok)

lemma session_inv_quiet_act: "quiet_act m \<Longrightarrow> m s = Some (s', x) \<Longrightarrow> session_inv s \<Longrightarrow> session_inv s'"
  by (auto simp: quiet_act_def intro: session_inv_quiet)

section \<open>create_node\<close>

abbreviation create_req :: request where
  "create_req \<equiv> CreateNodeRequest heartbeat_default_interval"

lemma create_node_unfold:
  "create_node nt s =
     (case request create_req True (rpc_create_node nt) s of
        None \<Rightarrow> None
      | Some (s1, Inl e) \<Rightarrow> Some (s1, Inl e)
      | Some (s1, Inr None) \<Rightarrow> Some (s1, Inr None)
      | Some (s1, Inr (Some n)) \<Rightarrow>
          Some (s1\<lparr>node := Some n, hb_running := True, events := events s1 @ [HeartbeatStarted]\<rparr>, Inr (Some n)))"
  by (simp add: create_node_def heartbeat_start_def cm_simps split: option.splits sum.splits)

text \<open>
  C14: a registration whose first attempt is answered stores the node id the
  SuperLink assigned and starts the heartbeat sender, after exactly one post.
\<close>

lemma create_node_ok:
  "rpc_create_node nt 0 = Inr (ok_reply n) \<Longrightarrow>
   create_node nt s =
     Some (s\<lparr>node := Some n, hb_running := True,
             events := events s @ [Post (url s create_req) create_req, HeartbeatStarted]\<rparr>,
           Inr (Some n))"
  by (simp add: create_node_unfold request_ok_first)

text \<open>
  C15: a failed registration (an exception, or no usable reply) changes
  nothing but the event log: no node is stored and no heartbeat starts.
\<close>

lemma create_node_failed:
  "create_node nt s = Some (s', x) \<Longrightarrow> (\<forall>n. x \<noteq> Inr (Some n)) \<Longrightarrow> quiet s s'"
  using quiet_request [of create_req True "rpc_create_node nt"]
  by (auto simp: create_node_unfold quiet_act_def split: option.splits sum.splits)

lemma create_node_session_inv:
  assumes "create_node nt s = Some (s', x)" and "session_inv s"
  shows "session_inv s'"
proof -
  obtain s1 y where r: "request create_req True (rpc_create_node nt) s = Some (s1, y)"
    using assms(1) by (auto simp: create_node_unfold split: option.splits)
  have q: "quiet s s1"
    using quiet_request [of create_req True "rpc_create_node nt"] r by (auto simp: quiet_act_def)
  then have inv1: "session_inv s1" using assms(2) by (rule session_inv_quiet)
  show ?thesis
  proof (cases "\<exists>n. y = Inr (Some n)")
    case True
    then obtain n where y: "y = Inr (Some n)" by blast
    with assms(1) r have "s' = s1\<lparr>node := Some n, hb_running := True, events := events s1 @ [HeartbeatStarted]\<rparr>"
      by (simp add: create_node_unfold)
    with inv1 show ?thesis by (simp add: session_inv_def)
  next
    case False
    with assms(1) r have "s' = s1"
      by (cases y) (auto simp: create_node_unfold split: option.splits)
    with inv1 show ?thesis by simp
  qed
qed

section \<open>delete_node\<close>

lemma delete_node_None:
  "node s = None \<Longrightarrow> delete_node nt s = Some (s\<lparr>events := events s @ [Log ERROR ''Node instance missing'']\<rparr>, Inr ())"
  by (simp add: delete_node_def cm_simps)

lemma delete_node_Some:
  "node s = Some n \<Longrightarrow>
   delete_node nt s =
     (let s1 = s\<lparr>hb_running := False, events := events s @ [HeartbeatStopped]\<rparr> in
      case request (DeleteNodeRequest n) True (rpc_delete_node nt n) s1 of
        None \<Rightarrow> None
      | Some (s2, Inl e) \<Rightarrow> Some (s2, Inl e)
      | Some (s2, Inr None) \<Rightarrow> Some (s2, Inr ())
      | Some (s2, Inr (Some _)) \<Rightarrow> Some (s2\<lparr>node := None\<rparr>, Inr ()))"
  by (simp add: delete_node_def heartbeat_stop_def cm_simps Let_def split: option.splits sum.splits)

text \<open>
  The shape of every returning \<open>delete_node\<close> on a registered node: the
  sender is stopped, and only then is the unregister request posted.
\<close>

lemma delete_node_stops_first:
  assumes "node s = Some n" and "delete_node nt s = Some (s', x)"
  shows "\<not> hb_running s' \<and>
         (\<exists>k ws. 1 \<le> k \<and> (\<forall>m. max_tries s = Some m \<longrightarrow> k \<le> max 1 m) \<and>
            events s' = events s @ HeartbeatStopped # replicate k (Post (url s (DeleteNodeRequest n)) (DeleteNodeRequest n)) @ ws \<and>
            set ws \<subseteq> {Log WARN m | m. True})"
proof -
  let ?s1 = "s\<lparr>hb_running := False, events := events s @ [HeartbeatStopped]\<rparr>"
  obtain s2 y where r: "request (DeleteNodeRequest n) True (rpc_delete_node nt n) ?s1 = Some (s2, y)"
    using assms by (auto simp: delete_node_Some Let_def split: option.splits)
  from request_posts [OF r] obtain k ws where
    ev: "1 \<le> k" "\<forall>m. max_tries s = Some m \<longrightarrow> k \<le> max 1 m"
        "events s2 = events ?s1 @ replicate k (Post (url ?s1 (DeleteNodeRequest n)) (DeleteNodeRequest n)) @ ws"
        "set ws \<subseteq> {Log WARN m | m. True}"
    by auto
  have u: "url ?s1 = url s" by (simp add: url_def fun_eq_iff)
  have hb: "\<not> hb_running s2" "events s' = events s2" "\<not> hb_running s'"
    using request_only_events [OF r] assms r
    by (auto simp: only_events_fields delete_node_Some Let_def split: sum.splits option.splits)
  show ?thesis
    using ev hb u by auto
qed

text \<open>
  C23: a successful unregister stops the heartbeat, posts once and clears
  the node.
\<close>

lemma delete_node_ok:
  "node s = Some n \<Longrightarrow> rpc_delete_node nt n 0 = Inr (ok_reply ()) \<Longrightarrow>
   delete_node nt s =
     Some (s\<lparr>node := None, hb_running := False,
             events := events s @ [HeartbeatStopped, Post (url s (DeleteNodeRequest n)) (DeleteNodeRequest n)]\<rparr>,
           Inr ())"
  by (simp add: delete_node_Some request_ok_first url_def)

lemma delete_node_session_inv:
  assumes "delete_node nt s = Some (s', x)" and "session_inv s"
  shows "session_inv s'"
proof (cases "node s")
  case None
  with assms show ?thesis by (auto simp: delete_node_None session_inv_def)
next
  case (Some n)
  let ?s1 = "s\<lparr>hb_running := False, events := events s @ [HeartbeatStopped]\<rparr>"
  have inv1: "session_inv ?s1" using assms(2) by (simp add: session_inv_def)
  obtain s2 y where r: "request (DeleteNodeRequest n) True (rpc_delete_node nt n) ?s1 = Some (s2, y)"
    using assms Some by (auto simp: delete_node_Some Let_def split: option.splits)
  have q2: "quiet ?s1 s2"
    using quiet_request [of "DeleteNodeRequest n" True "rpc_delete_node nt n"] r by (auto simp: quiet_act_def)
  have inv2: "session_inv s2" using q2 inv1 by (rule session_inv_quiet)
  have "\<not> hb_running s2" using request_only_events [OF r] by (simp add: only_events_fields)
  moreover have "s' = s2 \<or> s' = s2\<lparr>node := None\<rparr>"
    using assms(1) Some r by (auto simp: delete_node_Some Let_def split: sum.splits option.splits)
  ultimately show ?thesis using inv2 by (auto simp: session_inv_def)
qed

lemma delete_node_returns:
  "max_tries s \<noteq> None \<Longrightarrow> \<exists>s' x. delete_node nt s = Some (s', x)"
proof (cases "node s")
  case None
  then show ?thesis by (simp add: delete_node_None)
next
  case (Some n)
  assume mt: "max_tries s \<noteq> None"
  let ?s1 = "s\<lparr>hb_running := False, events := events s @ [HeartbeatStopped]\<rparr>"
  have "max_tries ?s1 \<noteq> None" using mt by simp
  from request_returns_finite [OF this] obtain s2 y where
    r: "request (DeleteNodeRequest n) True (rpc_delete_node nt n) ?s1 = Some (s2, y)" by blast
  then show ?thesis using Some
    by (cases y) (auto simp: delete_node_Some Let_def split: option.splits)
qed

section \<open>The final cleanup\<close>

lemma cleanup_None: "node s = None \<Longrightarrow> cleanup nt s = Some (s, Inr ())"
  by (simp add: cleanup_def cm_simps)

lemma cleanup_Some:
  "node s = Some n \<Longrightarrow>
   cleanup nt s =
     (case delete_node nt (s\<lparr>max_tries := Some 1\<rparr>) of
        None \<Rightarrow> None
      | Some (s', Inl e) \<Rightarrow> if e = ConnectionError then Some (s', Inr ()) else Some (s', Inl e)
      | Some (s', Inr u) \<Rightarrow> Some (s', Inr u))"
  by (simp add: cleanup_def cm_simps split: option.splits sum.splits)

lemma cleanup_session_inv:
  assumes "cleanup nt s = Some (s', x)" and "session_inv s"
  shows "session_inv s'"
proof (cases "node s")
  case None
  with assms show ?thesis by (simp add: cleanup_None)
next
  case (Some n)
  have inv0: "session_inv (s\<lparr>max_tries := Some 1\<rparr>)" using assms(2) by (simp add: session_inv_def)
  obtain r where d0: "delete_node nt (s\<lparr>max_tries := Some 1\<rparr>) = Some r"
    using assms(1) Some by (cases "delete_node nt (s\<lparr>max_tries := Some 1\<rparr>)") (simp_all add: cleanup_Some)
  obtain s2 y where r: "r = (s2, y)" by (cases r)
  have "s2 = s'"
    using assms(1) Some d0 r by (cases y) (simp_all add: cleanup_Some split: if_splits)
  with d0 r have d: "delete_node nt (s\<lparr>max_tries := Some 1\<rparr>) = Some (s', y)" by simp
  from delete_node_session_inv [OF d inv0] show ?thesis .
qed

text \<open>Whatever the outcome, the cleanup leaves the heartbeat sender stopped.\<close>

lemma cleanup_stops_heartbeat:
  assumes "cleanup nt s = Some (s', x)" and "session_inv s"
  shows "\<not> hb_running s'"
proof (cases "node s")
  case None
  then show ?thesis using assms by (simp add: cleanup_None session_inv_def)
next
  case (Some n)
  obtain s2 y where d: "delete_node nt (s\<lparr>max_tries := Some 1\<rparr>) = Some (s2, y)"
    using delete_node_returns [of "s\<lparr>max_tries := Some 1\<rparr>" nt] by auto
  have "\<not> hb_running s2"
    using delete_node_stops_first [OF _ d, of n] Some by simp
  moreover have "s' = s2"
    using assms(1) d Some by (cases y) (auto simp: cleanup_Some split: if_splits)
  ultimately show ?thesis by simp
qed

text \<open>
  C9: the final cleanup cannot hang. Whatever the retry budget was (even
  unlimited) and whatever the SuperLink does, the cleanup of a registered
  node returns; it stops the heartbeat and then makes exactly one unregister
  post, followed only by warnings (so no second attempt).
\<close>

theorem cleanup_single_attempt:
  assumes "node s = Some n"
  shows "\<exists>s' x. cleanup nt s = Some (s', x) \<and> \<not> hb_running s' \<and>
           (\<exists>ws. events s' = events s @ [HeartbeatStopped, Post (url s (DeleteNodeRequest n)) (DeleteNodeRequest n)] @ ws \<and>
                 set ws \<subseteq> {Log WARN w | w. True})"
proof -
  let ?s0 = "s\<lparr>max_tries := Some 1\<rparr>"
  have n0: "node ?s0 = Some n" using assms by simp
  obtain s' y where d: "delete_node nt ?s0 = Some (s', y)"
    using delete_node_returns [of ?s0 nt] by auto
  from delete_node_stops_first [OF n0 d] obtain k ws where
    hb: "\<not> hb_running s'" and k: "1 \<le> k" "k \<le> max 1 1" and
    ev: "events s' = events ?s0 @ HeartbeatStopped # replicate k (Post (url ?s0 (DeleteNodeRequest n)) (DeleteNodeRequest n)) @ ws"
    and ws: "set ws \<subseteq> {Log WARN w | w. True}"
    by auto
  have "k = 1" using k by simp
  moreover have "url ?s0 = url s" by (simp add: url_def fun_eq_iff)
  ultimately have ev': "events s' = events s @ [HeartbeatStopped, Post (url s (DeleteNodeRequest n)) (DeleteNodeRequest n)] @ ws"
    using ev by simp
  have "\<exists>x. cleanup nt s = Some (s', x)"
    using d assms by (cases y) (auto simp: cleanup_Some)
  then obtain x where "cleanup nt s = Some (s', x)" ..
  with hb ev' ws show ?thesis by blast
qed

text \<open>
  C10: a failed unregister keeps the node. When the unregister request gets
  no usable reply, \<open>delete_node\<close> returns normally with the heartbeat stopped
  but the node still registered, although the specification says the
  identity is cleared unconditionally.
\<close>

theorem delete_node_failure_keeps_node:
  assumes "node s = Some n"
    and "rpc_delete_node nt n 0 = Inr res" and "status_code res \<noteq> 200"
  shows "delete_node nt s =
           Some (s\<lparr>hb_running := False,
                   events := events s @ [HeartbeatStopped, Post (url s (DeleteNodeRequest n)) (DeleteNodeRequest n)]\<rparr>,
                 Inr ())"
  using assms by (simp add: delete_node_Some request_first_reply check_response_def url_def)

text \<open>
  C8: \<open>delete_node\<close> of a registered node stops the heartbeat sender before
  it sends anything: the log shows the stop, then between one and
  \<open>max_tries\<close> unregistration attempts, then warnings only; the sender is
  stopped afterwards whatever the outcome.
\<close>

theorem delete_node_stops_heartbeat_first:
  assumes "node s = Some n" and "delete_node nt s = Some (s', x)"
  shows "\<not> hb_running s' \<and>
         (\<exists>k ws. 1 \<le> k \<and> (\<forall>m. max_tries s = Some m \<longrightarrow> k \<le> max 1 m) \<and>
            events s' = events s @ HeartbeatStopped # replicate k (Post (url s (DeleteNodeRequest n)) (DeleteNodeRequest n)) @ ws \<and>
            set ws \<subseteq> {Log WARN m | m. True})"
  using assms by (rule delete_node_stops_first)

end
