(* ===== verification/Metadata.thy ===== *)
theory Metadata
  imports Heartbeat
begin

text \<open>
  The simple accessors and the set-up of the context manager in
  \<^verbatim>\<open>connection.py\<close>. \<open>get_run\<close> and \<open>get_fab\<close> (lines 434--457) are single
  requests whose missing reply becomes an empty value. The set-up
  (lines 152--179) fixes the TLS verification argument: it is \<open>True\<close> or a
  certificate path and never \<open>False\<close>; certificates given as bytes and client
  authentication keys are refused with an error log. The value types \<open>Run\<close>
  and \<open>Fab\<close> and the conversion \<open>run_from_proto\<close> come from
  \<open>flwr.common\<close> and are modelled from their fields.
\<close>

section \<open>Run and FAB metadata\<close>

record run =
  run_run_id :: run_id
  run_fab_id :: string
  run_fab_version :: string
  run_fab_hash :: string

definition create_empty_run :: "run_id \<Rightarrow> run" where
  "create_empty_run rid = \<lparr>run_run_id = rid, run_fab_id = [], run_fab_version = [], run_fab_hash = []\<rparr>"

definition run_from_proto :: "run_proto \<Rightarrow> run" where
  "run_from_proto p =
     \<lparr>run_run_id = proto_run_id p, run_fab_id = proto_fab_id p,
      run_fab_version = proto_fab_version p, run_fab_hash = proto_fab_hash p\<rparr>"

record fab =
  fab_hash_str :: string
  fab_content :: bytes

definition get_run :: "net \<Rightarrow> run_id \<Rightarrow> (client, run) cm" where
  "get_run nt rid =
     bindc (gets node) (\<lambda>nd.
       bindc (request (GetRunRequest nd rid) True (rpc_get_run nt nd rid))
         (\<lambda>res. case res of
                  None \<Rightarrow> ret (create_empty_run rid)
                | Some r \<Rightarrow> ret (run_from_proto r)))"

definition get_fab :: "net \<Rightarrow> string \<Rightarrow> run_id \<Rightarrow> (client, fab) cm" where
  "get_fab nt h rid =
     bindc (gets node) (\<lambda>nd.
       bindc (request (GetFabRequest nd h rid) True (rpc_get_fab nt nd h rid))
         (\<lambda>res. case res of
                  None \<Rightarrow> ret \<lparr>fab_hash_str = [], fab_content = []\<rparr>
                | Some f \<Rightarrow> ret \<lparr>fab_hash_str = proto_hash_str f, fab_content = proto_content f\<rparr>))"

section \<open>Set-up of the context manager\<close>

datatype root_certificates = CertPath string | CertBytes bytes

text \<open>Lines 152--177: the verification argument and the log lines of the set-up.\<close>

definition connection_setup :: "root_certificates option \<Rightarrow> bool \<Rightarrow> (bool + string) \<times> event list" where
  "connection_setup root_certs has_auth_keys =
     (let experimental = Log WARN ''EXPERIMENTAL: rest is an experimental feature, it might change considerably in future versions of Flower'';
          (verify, cert_logs) =
            (case root_certs of
               None \<Rightarrow> (Inl True, [])
             | Some (CertPath p) \<Rightarrow> (Inr p, [])
             | Some (CertBytes _) \<Rightarrow>
                 (Inl True, [Log ERROR ''For the REST API, the root certificates must be provided as a string path to the client.'']));
          auth_logs = (if has_auth_keys then [Log ERROR ''Client authentication is not supported for this transport type.''] else [])
      in (verify, experimental # cert_logs @ auth_logs))"

text \<open>The state right after set-up: no node (line 179) and a stopped heartbeat sender (line 258).\<close>

definition initial_client :: "string \<Rightarrow> root_certificates option \<Rightarrow> bool \<Rightarrow> nat option \<Rightarrow> client" where
  "initial_client server_address root_certs has_auth_keys tries =
     (case connection_setup root_certs has_auth_keys of
        (v, logs) \<Rightarrow>
          \<lparr>base_url = server_address, verify = v, node = None, hb_running = False,
           max_tries = tries, events = logs\<rparr>)"

section \<open>The metadata accessors\<close>

lemma quiet_get_run [quiet_intros]: "quiet_act (get_run nt rid)"
  and quiet_get_fab [quiet_intros]: "quiet_act (get_fab nt h rid)"
  unfolding get_run_def get_fab_def by (intro quiet_intros; simp)+



text \<open>
  C19: \<open>get_run\<close> (lines 434--443) posts one request for the requested run
  of this node. It returns the run the SuperLink serves when the reply is
  accepted (status 200 and the protobuf content type), and the empty run of
  the requested id otherwise.
\<close>

theorem get_run_result:
  assumes "rpc_get_run nt (node s) rid 0 = Inr res"
  shows "get_run nt rid s =
           Some (s\<lparr>events := events s @ Post (url s (GetRunRequest (node s) rid)) (GetRunRequest (node s) rid) #
                              fst (check_response (GetRunRequest (node s) rid) res)\<rparr>,
                 Inr (if status_code res = 200 \<and> content_type res = Some ''application/protobuf''
                      then run_from_proto (reply_body res) else create_empty_run rid))"
proof (cases "snd (check_response (GetRunRequest (node s) rid) res)")
  case None
  then have "\<not> (status_code res = 200 \<and> content_type res = Some ''application/protobuf'')"
    using check_response_Some [of "GetRunRequest (node s) rid" res] by auto
  with None assms show ?thesis by (auto simp: get_run_def cm_simps request_first_reply)
next
  case (Some r)
  with check_response_Some [of "GetRunRequest (node s) rid" res r] assms show ?thesis
    by (simp add: get_run_def cm_simps request_first_reply)
qed


text \<open>
  C29: \<open>get_fab\<close> returns the FAB the SuperLink serves, after one post; a
  reply that is not accepted (a status other than 200, or a wrong content
  type) gives the empty FAB \<open>Fab("", b"")\<close> instead of an exception.
\<close>

theorem get_fab_result:
  assumes "rpc_get_fab nt (node s) h rid 0 = Inr res"
  shows "get_fab nt h rid s =
           Some (s\<lparr>events := events s @ Post (url s (GetFabRequest (node s) h rid)) (GetFabRequest (node s) h rid) #
                              fst (check_response (GetFabRequest (node s) h rid) res)\<rparr>,
                 Inr (if status_code res = 200 \<and> content_type res = Some ''application/protobuf''
                      then \<lparr>fab_hash_str = proto_hash_str (reply_body res), fab_content = proto_content (reply_body res)\<rparr>
                      else \<lparr>fab_hash_str = [], fab_content = []\<rparr>))"
proof (cases "snd (check_response (GetFabRequest (node s) h rid) res)")
  case None
  then have "\<not> (status_code res = 200 \<and> content_type res = Some ''application/protobuf'')"
    using check_response_Some [of "GetFabRequest (node s) h rid" res] by auto
  with None assms show ?thesis by (auto simp: get_fab_def cm_simps request_first_reply)
next
  case (Some f)
  with check_response_Some [of "GetFabRequest (node s) h rid" res f] assms show ?thesis
    by (simp add: get_fab_def cm_simps request_first_reply)
qed

text \<open>
  C21: transport security of the set-up. The verification argument handed
  to every request is never \<open>False\<close>, and a request for client
  authentication is refused with an error log rather than ignored.
\<close>

theorem setup_never_disables_verification:
  "verify (initial_client addr rc auth tries) \<noteq> Inl False \<and>
   (auth \<longrightarrow> Log ERROR ''Client authentication is not supported for this transport type.'' \<in>
      set (events (initial_client addr rc auth tries)))"
  by (auto simp: initial_client_def connection_setup_def Let_def split: option.splits root_certificates.splits)

end
