(* ===== verification/Returns.thy ===== *)
theory Returns
  imports Exchange Session Metadata
begin

text \<open>
  Termination of every operation of \<^verbatim>\<open>connection.py\<close> under a finite retry
  budget. With \<open>max_tries\<close> set, each \<open>_request\<close> makes finitely many
  attempts, the chunk loops run over finite lists, and inflation is bounded
  by the recursion limit; so every primitive returns (normally or with an
  exception) and leaves the budget finite. The proofs are one application of
  the \<open>total_intros\<close> calculus of \<open>Prelude\<close> per operation. Without a
  budget the same operations may hang: see \<open>Transport.request_unbounded_dead\<close>.
\<close>

abbreviation finite_budget :: "client \<Rightarrow> bool" where
  "finite_budget s \<equiv> max_tries s \<noteq> None"

section \<open>Primitives\<close>

lemma total_emit [total_intros]: "total_on finite_budget (emit e)"
  and total_log [total_intros]: "total_on finite_budget (log l m)"
  unfolding log_def emit_def by (rule total_modify, simp)+

lemma total_request [total_intros]: "total_on finite_budget (request rq retry att)"
proof (unfold total_on_def, intro allI impI)
  fix s assume fin: "finite_budget s"
  from request_returns_finite [OF fin] obtain s' x where r: "request rq retry att s = Some (s', x)"
    by blast
  have "max_tries s' = max_tries s"
    using only_events_fields [OF request_only_events [OF r]] by simp
  with r fin show "\<exists>s' x. request rq retry att s = Some (s', x) \<and> finite_budget s'" by auto
qed

lemma total_heartbeat_start [total_intros]: "total_on finite_budget heartbeat_start"
  and total_heartbeat_stop [total_intros]: "total_on finite_budget heartbeat_stop"
  unfolding heartbeat_start_def heartbeat_stop_def by (intro total_intros; simp)+

section \<open>The chunk loops\<close>

lemma total_pull_each [total_intros]: "(\<And>i. total_on P (f i)) \<Longrightarrow> total_on P (pull_each f ids acc)"
  by (induction ids arbitrary: acc) (auto intro: total_intros)

lemma total_push_each [total_intros]: "(\<And>k d. total_on P (f k d)) \<Longrightarrow> total_on P (push_each f H kvs err)"
proof (induction f H kvs err rule: push_each.induct)
  case (1 f H err)
  then show ?case by (cases err) (auto intro: total_intros)
next
  case (2 f H k v rest err)
  then show ?case by (auto simp: attempt_def intro!: total_intros)
qed

lemma total_pull_objects [total_intros]: "(\<And>i. total_on P (f i)) \<Longrightarrow> total_on P (pull_objects ids f)"
  unfolding pull_objects_def by (rule total_pull_each)

lemma total_push_objects [total_intros]: "(\<And>k d. total_on P (g k d)) \<Longrightarrow> total_on P (push_objects H objs g ids)"
  unfolding push_objects_def by (rule total_push_each)

lemmas total_defs = pull_object_rest_def push_object_rest_def make_pull_object_fn_rest_def
  make_push_object_fn_rest_def receive_objects_def on_value_error_def inflate_message_def push_requested_def

section \<open>The primitives of the context manager\<close>

lemma total_receive [total_intros]: "total_on finite_budget (receive nt)"
  and total_send [total_intros]: "total_on finite_budget (send H nt m)"
  unfolding receive_def send_def total_defs by (intro total_intros)+

lemma total_create_node [total_intros]: "total_on finite_budget (create_node nt)"
  and total_delete_node [total_intros]: "total_on finite_budget (delete_node nt)"
  and total_get_run [total_intros]: "total_on finite_budget (get_run nt rid)"
  and total_get_fab [total_intros]: "total_on finite_budget (get_fab nt h rid)"
  unfolding create_node_def delete_node_def get_run_def get_fab_def by (intro total_intros; simp)+

lemma total_cleanup [total_intros]: "total_on finite_budget (cleanup nt)"
  unfolding cleanup_def by (intro total_intros; simp)

lemma total_send_node_heartbeat [total_intros]: "total_on finite_budget (send_node_heartbeat nt)"
  and total_heartbeat_tick [total_intros]: "total_on finite_budget (heartbeat_tick nt)"
  unfolding heartbeat_tick_def send_node_heartbeat_def by (intro total_intros)+

end
