(* ===== verification/System.thy ===== *)
theory System
  imports Returns
begin

text \<open>
  The context manager as a whole (\<^verbatim>\<open>connection.py\<close>, lines 96--179 and
  459--472): the six primitives it yields as a datatype of operations, its
  body with the \<open>except\<close> and \<open>finally\<close> blocks, and the session as an
  inductive step relation that interleaves the caller's calls, the ticks of
  the heartbeat thread and the cleanup. Every step keeps the session
  invariant of \<open>Session\<close>, so every reachable state satisfies it.
\<close>

section \<open>The session as a system of interleaved steps\<close>

text \<open>
  The six primitives the context manager yields (line 461), as operations a
  caller may invoke in any order.
\<close>

datatype op =
    Receive
  | Send message
  | CreateNode
  | DeleteNode
  | GetRun run_id
  | GetFab string run_id

definition exec_op :: "hash \<Rightarrow> net \<Rightarrow> op \<Rightarrow> (client, unit) cm" where
  "exec_op H nt c =
     (case c of
        Receive \<Rightarrow> thenc (receive nt) (ret ())
      | Send m \<Rightarrow> send H nt m
      | CreateNode \<Rightarrow> thenc (create_node nt) (ret ())
      | DeleteNode \<Rightarrow> delete_node nt
      | GetRun rid \<Rightarrow> thenc (get_run nt rid) (ret ())
      | GetFab h rid \<Rightarrow> thenc (get_fab nt h rid) (ret ()))"

text \<open>
  The body of the context manager and its cleanup (lines 459--472): the
  caller's operations run until one raises, the exception is logged, and the
  \<open>finally\<close> block unregisters a node that is still registered.
\<close>

definition exn_name :: "exn \<Rightarrow> string" where
  "exn_name e =
     (case e of
        ConnectionError \<Rightarrow> ''ConnectionError'' | ValueError \<Rightarrow> ''ValueError''
      | RuntimeError \<Rightarrow> ''RuntimeError'' | UnboundLocalError \<Rightarrow> ''UnboundLocalError''
      | IndexError \<Rightarrow> ''IndexError'' | KeyError \<Rightarrow> ''KeyError''
      | RecursionError \<Rightarrow> ''RecursionError'' | AttributeError \<Rightarrow> ''AttributeError'')"

definition http_request_response :: "hash \<Rightarrow> net \<Rightarrow> op list \<Rightarrow> (client, unit) cm" where
  "http_request_response H nt ops =
     thenc (catch (for_each (exec_op H nt) ops) (\<lambda>e. log ERROR (exn_name e))) (cleanup nt)"

text \<open>
  The whole context manager (lines 96--179 with the body above): set up the
  client from the arguments, then run the caller's operations and the
  cleanup. \<open>retry_invoker\<close> enters as its \<open>max_tries\<close>; \<open>insecure\<close> and
  \<open>max_message_length\<close> are unused by the code.
\<close>

definition connect ::
  "string \<Rightarrow> root_certificates option \<Rightarrow> bool \<Rightarrow> nat option \<Rightarrow> hash \<Rightarrow> net \<Rightarrow> op list \<Rightarrow>
   (client \<times> (exn + unit)) option" where
  "connect server_address root_certificates has_authentication_keys tries H nt ops =
     http_request_response H nt ops (initial_client server_address root_certificates has_authentication_keys tries)"

text \<open>
  The steps of a session: a call of the caller's thread, a tick of the
  heartbeat thread (only while the sender runs), or the cleanup. The SuperLink
  may behave differently at every step, so each step takes its own network.
\<close>

inductive session_step :: "hash \<Rightarrow> client \<Rightarrow> client \<Rightarrow> bool" for H where
  call: "exec_op H nt c s = Some (s', r) \<Longrightarrow> session_step H s s'"
| tick: "hb_running s \<Longrightarrow> heartbeat_tick nt s = Some (s', r) \<Longrightarrow> session_step H s s'"
| close: "cleanup nt s = Some (s', r) \<Longrightarrow> session_step H s s'"

inductive reachable :: "hash \<Rightarrow> client \<Rightarrow> bool" for H where
  init: "reachable H (initial_client addr rc auth tries)"
| step: "reachable H s \<Longrightarrow> session_step H s s' \<Longrightarrow> reachable H s'"

inductive_cases session_stepE: "session_step H s s'"

section \<open>Every step keeps the session invariant\<close>

lemma thenc_ret_state: "thenc m (ret ()) s = Some (s', r) \<Longrightarrow> \<exists>r'. m s = Some (s', r')"
  by (auto simp: cm_simps split: option.splits sum.splits)

lemma initial_client_session_inv: "session_inv (initial_client addr rc auth tries)"
  by (auto simp: initial_client_def connection_setup_def session_inv_def Let_def
      split: option.splits root_certificates.splits)

lemma exec_op_session_inv:
  assumes "exec_op H nt c s = Some (s', r)" and "session_inv s"
  shows "session_inv s'"
proof (cases c)
  case Receive
  with assms obtain r' where "receive nt s = Some (s', r')"
    by (auto simp: exec_op_def dest: thenc_ret_state)
  then show ?thesis using assms(2) by (rule session_inv_quiet_act [OF quiet_receive])
next
  case (Send m)
  with assms have "send H nt m s = Some (s', r)" by (simp add: exec_op_def)
  then show ?thesis using assms(2) by (rule session_inv_quiet_act [OF quiet_send])
next
  case CreateNode
  with assms obtain r' where "create_node nt s = Some (s', r')"
    by (auto simp: exec_op_def dest: thenc_ret_state)
  with assms(2) show ?thesis by (blast intro: create_node_session_inv)
next
  case DeleteNode
  with assms have "delete_node nt s = Some (s', r)" by (simp add: exec_op_def)
  with assms(2) show ?thesis by (blast intro: delete_node_session_inv)
next
  case (GetRun rid)
  with assms obtain r' where "get_run nt rid s = Some (s', r')"
    by (auto simp: exec_op_def dest: thenc_ret_state)
  then show ?thesis using assms(2) by (rule session_inv_quiet_act [OF quiet_get_run])
next
  case (GetFab h rid)
  with assms obtain r' where "get_fab nt h rid s = Some (s', r')"
    by (auto simp: exec_op_def dest: thenc_ret_state)
  then show ?thesis using assms(2) by (rule session_inv_quiet_act [OF quiet_get_fab])
qed

lemma tick_session_inv:
  assumes "hb_running s" and "heartbeat_tick nt s = Some (s', r)" and "session_inv s"
  shows "session_inv s'"
proof -
  obtain es where s': "s' = s\<lparr>events := events s @ es\<rparr>" and nt: "no_toggle es"
    using heartbeat_tick_events [OF assms(2)] by blast
  show ?thesis
    using assms(1,3) nt by (simp add: s' session_inv_def no_toggle_flag no_toggle_ok)
qed

lemma session_step_inv: "session_step H s s' \<Longrightarrow> session_inv s \<Longrightarrow> session_inv s'"
  by (induction rule: session_step.induct)
     (blast intro: exec_op_session_inv tick_session_inv cleanup_session_inv)+

lemma reachable_session_inv: "reachable H s \<Longrightarrow> session_inv s"
proof (induction rule: reachable.induct)
  case init
  show ?case by (rule initial_client_session_inv)
next
  case (step s s')
  then show ?case by (blast intro: session_step_inv)
qed

section \<open>The context manager returns\<close>

lemma total_exec_op [total_intros]: "total_on finite_budget (exec_op H nt c)"
  by (cases c; simp only: exec_op_def op.case; intro total_intros)

abbreviation fin_inv :: "client \<Rightarrow> bool" where
  "fin_inv s \<equiv> finite_budget s \<and> session_inv s"

lemma total_inv_exec_op: "total_on fin_inv (exec_op H nt c)"
  by (rule total_on_conj [OF total_exec_op exec_op_session_inv])

lemma total_inv_log: "total_on fin_inv (log l m)"
  by (rule total_on_conj [OF total_log]) (rule session_inv_quiet_act [OF quiet_log])

lemma total_inv_body: "total_on fin_inv (catch (for_each (exec_op H nt) ops) (\<lambda>e. log ERROR (exn_name e)))"
  by (intro total_intros total_inv_exec_op total_inv_log)

lemma max_tries_initial_client [simp]: "max_tries (initial_client addr rc auth tries) = tries"
  and node_initial_client [simp]: "node (initial_client addr rc auth tries) = None"
  by (simp_all add: initial_client_def split: prod.splits)

text \<open>
  From any state with a finite budget that satisfies the session invariant,
  the body and the cleanup return, and leave the heartbeat sender stopped.
\<close>

lemma http_request_response_returns:
  assumes "fin_inv s0"
  shows "\<exists>s x. http_request_response H nt ops s0 = Some (s, x) \<and> \<not> hb_running s"
proof -
  obtain s1 y where body: "catch (for_each (exec_op H nt) ops) (\<lambda>e. log ERROR (exn_name e)) s0 = Some (s1, y)"
    and inv1: "fin_inv s1"
    using total_onD [OF total_inv_body] assms by blast
  obtain s2 z where c: "cleanup nt s1 = Some (s2, z)"
    using total_onD [OF total_cleanup] inv1 by blast
  have "\<not> hb_running s2" using cleanup_stops_heartbeat [OF c] inv1 by simp
  moreover obtain u where "y = Inr u"
    using body by (cases y) (auto simp: cm_simps log_def emit_def split: option.splits sum.splits)
  then have "http_request_response H nt ops s0 = Some (s2, z)"
    using body c by (simp add: http_request_response_def cm_simps)
  ultimately show ?thesis by blast
qed

text \<open>
  C26: with a finite retry budget the context manager always returns, for
  any operations the caller runs and any SuperLink, and when it returns the
  heartbeat sender is stopped.
\<close>

theorem connect_returns:
  assumes "tries \<noteq> None"
  shows "\<exists>s x. connect addr rc auth tries H nt ops = Some (s, x) \<and> \<not> hb_running s"
proof -
  have "fin_inv (initial_client addr rc auth tries)" using assms initial_client_session_inv by simp
  from http_request_response_returns [OF this, of H nt ops] show ?thesis
    by (simp add: connect_def)
qed

text \<open>
  C27: without a retry budget the context manager can hang for ever: if the
  caller registers first and the SuperLink never answers, \<open>connect\<close> does
  not return (there is no timeout, line 201).
\<close>

theorem connect_unbounded_dead:
  assumes "\<forall>k. isl (rpc_create_node nt k)"
  shows "connect addr rc auth None H nt (CreateNode # ops) = None"
proof -
  have "request (CreateNodeRequest heartbeat_default_interval) True (rpc_create_node nt)
          (initial_client addr rc auth None) = None"
    using assms by (simp add: request_unbounded_dead)
  then show ?thesis
    by (simp add: connect_def http_request_response_def exec_op_def create_node_def cm_simps)
qed

end
