(* ===== verification/Refinement.thy ===== *)
theory Refinement
  imports System
begin

text \<open>
  The session as the specification describes it, and the refinement of that
  description by the code. The abstract state is the pair the specification
  talks about: the registered node (if any) and whether the heartbeat runs.
  Its events are registration, which stores the assigned id and starts the
  heartbeat; unregistration, which clears both; and a stop of the heartbeat
  that leaves the node (what a failed unregister does). Every other operation
  is a stutter. The abstraction function \<open>abs_session\<close> is a refinement
  mapping: each concrete step of \<open>System.session_step\<close> is matched by one
  abstract step. This rules out steps the session invariant alone allows,
  such as registering without starting the heartbeat, or clearing the node
  while the heartbeat runs.
\<close>

section \<open>The abstract session\<close>

type_synonym asession = "node_id option \<times> bool"

datatype aevent = ARegister node_id | AUnregister | AStopBeat | AStay

inductive astep :: "asession \<Rightarrow> aevent \<Rightarrow> asession \<Rightarrow> bool" where
  register: "astep a (ARegister n) (Some n, True)"
| unregister: "astep (Some n, b) AUnregister (None, False)"
| stop_beat: "astep (Some n, b) AStopBeat (Some n, False)"
| stay: "astep a AStay a"

inductive_cases astepE: "astep a e a'"

definition abs_session :: "client \<Rightarrow> asession" where
  "abs_session s = (node s, hb_running s)"

section \<open>The operations refine abstract events\<close>

lemma astep_stay_ex [simp]: "\<exists>e. astep a e a"
  and astep_register_ex [simp]: "\<exists>e. astep a e (Some n, True)"
  and astep_unregister_ex [simp]: "\<exists>e. astep (Some n, b) e (None, False)"
  and astep_stop_ex [simp]: "\<exists>e. astep (Some n, b) e (Some n, False)"
  by (blast intro: astep.intros)+

lemma only_events_abs: "only_events s s' \<Longrightarrow> abs_session s' = abs_session s"
  by (simp add: abs_session_def only_events_fields)

lemma quiet_abs: "quiet s s' \<Longrightarrow> abs_session s' = abs_session s"
  by (simp add: abs_session_def quiet_fields)

lemma quiet_act_abs: "quiet_act m \<Longrightarrow> m s = Some (s', x) \<Longrightarrow> abs_session s' = abs_session s"
  by (auto simp: quiet_act_def dest: quiet_abs)

lemma create_node_abs:
  "create_node nt s = Some (s', x) \<Longrightarrow> \<exists>e. astep (abs_session s) e (abs_session s')"
  by (auto simp: create_node_unfold abs_session_def
      dest!: request_only_events only_events_fields split: option.splits sum.splits)

lemma delete_node_abs:
  assumes "delete_node nt s = Some (s', x)"
  shows "\<exists>e. astep (abs_session s) e (abs_session s')"
proof (cases "node s")
  case None
  then show ?thesis using assms
    by (auto simp: delete_node_None abs_session_def)
next
  case (Some n)
  let ?s1 = "s\<lparr>hb_running := False, events := events s @ [HeartbeatStopped]\<rparr>"
  from assms Some obtain s2 y where r: "request (DeleteNodeRequest n) True (rpc_delete_node nt n) ?s1 = Some (s2, y)"
    by (auto simp: delete_node_Some Let_def split: option.splits)
  have f: "node s2 = Some n" "\<not> hb_running s2"
    using only_events_fields [OF request_only_events [OF r]] Some by simp_all
  have "abs_session s' = (None, False) \<or> abs_session s' = (Some n, False)"
    using assms Some r f
    by (auto simp: delete_node_Some Let_def abs_session_def split: sum.splits option.splits)
  then show ?thesis
    using Some by (auto simp: abs_session_def)
qed

lemma cleanup_abs:
  assumes "cleanup nt s = Some (s', x)"
  shows "\<exists>e. astep (abs_session s) e (abs_session s')"
proof (cases "node s")
  case None
  then show ?thesis using assms by (auto simp: cleanup_None)
next
  case (Some n)
  then obtain y where d: "delete_node nt (s\<lparr>max_tries := Some 1\<rparr>) = Some (s', y)"
    using assms by (auto simp: cleanup_Some split: option.splits sum.splits if_splits)
  have "abs_session (s\<lparr>max_tries := Some 1\<rparr>) = abs_session s" by (simp add: abs_session_def)
  with delete_node_abs [OF d] show ?thesis by simp
qed

lemma exec_op_abs:
  assumes "exec_op H nt c s = Some (s', r)"
  shows "\<exists>e. astep (abs_session s) e (abs_session s')"
proof (cases c)
  case CreateNode
  with assms obtain r' where "create_node nt s = Some (s', r')"
    by (auto simp: exec_op_def dest: thenc_ret_state)
  then show ?thesis by (rule create_node_abs)
next
  case DeleteNode
  with assms have "delete_node nt s = Some (s', r)" by (simp add: exec_op_def)
  then show ?thesis by (rule delete_node_abs)
next
  case Receive
  with assms obtain r' where "receive nt s = Some (s', r')"
    by (auto simp: exec_op_def dest: thenc_ret_state)
  then have "abs_session s' = abs_session s" by (rule quiet_act_abs [OF quiet_receive])
  then show ?thesis by simp
next
  case (Send m)
  with assms have "send H nt m s = Some (s', r)" by (simp add: exec_op_def)
  then have "abs_session s' = abs_session s" by (rule quiet_act_abs [OF quiet_send])
  then show ?thesis by simp
next
  case (GetRun rid)
  with assms obtain r' where "get_run nt rid s = Some (s', r')"
    by (auto simp: exec_op_def dest: thenc_ret_state)
  then have "abs_session s' = abs_session s" by (rule quiet_act_abs [OF quiet_get_run])
  then show ?thesis by simp
next
  case (GetFab h rid)
  with assms obtain r' where "get_fab nt h rid s = Some (s', r')"
    by (auto simp: exec_op_def dest: thenc_ret_state)
  then have "abs_session s' = abs_session s" by (rule quiet_act_abs [OF quiet_get_fab])
  then show ?thesis by simp
qed

lemma tick_abs:
  "heartbeat_tick nt s = Some (s', r) \<Longrightarrow> abs_session s' = abs_session s"
  by (auto simp: abs_session_def dest!: heartbeat_tick_events)

lemma abs_initial_client [simp]: "abs_session (initial_client addr rc auth tries) = (None, False)"
  by (simp add: abs_session_def initial_client_def split: prod.splits)

section \<open>Refinement\<close>

text \<open>
  C28: every step of the session (a call of any primitive, a heartbeat tick,
  the cleanup), against any SuperLink, is an event of the abstract session:
  registration, unregistration, a stop of the heartbeat that keeps the node,
  or a stutter.
\<close>

theorem session_step_refines:
  assumes "session_step H s s'"
  shows "\<exists>e. astep (abs_session s) e (abs_session s')"
  using assms
proof (cases rule: session_step.cases)
  case (call nt c r)
  then show ?thesis by (rule exec_op_abs)
next
  case (tick nt r)
  then show ?thesis by (simp add: tick_abs)
next
  case (close nt r)
  then show ?thesis by (rule cleanup_abs)
qed

end
