(* ===== verification/Payloads.thy ===== *)
theory Payloads
  imports Exchange
begin

text \<open>
  What \<open>send\<close> puts on the wire, for any SuperLink and any retry budget.
  \<open>posts_in R m\<close> says that every run of \<open>m\<close> only appends events and that
  every request it posts lies in \<open>R\<close>; the \<open>posts_intros\<close> rules prove it per
  combinator. Applied to \<open>send\<close> it shows that the chunks uploaded are exactly
  nodes of the object tree announced with the message, each under the id its
  content hashes to: the two payloads of \<open>send\<close> (lines 386--390 and
  416--424) are consistent with each other.
\<close>

section \<open>Requests an action may post\<close>

definition posts_in :: "request set \<Rightarrow> (client, 'a) cm \<Rightarrow> bool" where
  "posts_in R m \<longleftrightarrow>
     (\<forall>s s' x. m s = Some (s', x) \<longrightarrow> (\<exists>es. events s' = events s @ es \<and> set (posts es) \<subseteq> R))"

named_theorems posts_intros "rules bounding the requests an action posts"

lemma posts_ret [posts_intros]: "posts_in R (ret a)"
  and posts_throw [posts_intros]: "posts_in R (throw e)"
  and posts_gets [posts_intros]: "posts_in R (gets g)"
  and posts_log [posts_intros]: "posts_in R (log l msg)"
  by (auto simp: posts_in_def cm_simps log_def emit_def intro: exI [of _ "[]"])

lemma posts_bindc [posts_intros]:
  "posts_in R m \<Longrightarrow> (\<And>a. posts_in R (f a)) \<Longrightarrow> posts_in R (bindc m f)"
  unfolding posts_in_def bindc_def
  by (auto split: option.splits sum.splits) (metis (no_types, lifting) append.assoc posts_append Un_subset_iff set_append)

lemma posts_thenc [posts_intros]: "posts_in R m \<Longrightarrow> posts_in R k \<Longrightarrow> posts_in R (thenc m k)"
  unfolding thenc_def by (rule posts_bindc)

lemma posts_catch [posts_intros]:
  "posts_in R m \<Longrightarrow> (\<And>e. posts_in R (h e)) \<Longrightarrow> posts_in R (catch m h)"
  unfolding posts_in_def catch_def
  by (auto split: option.splits sum.splits) (metis (no_types, lifting) append.assoc posts_append Un_subset_iff set_append)

lemma posts_case_option [posts_intros]:
  "posts_in R a \<Longrightarrow> (\<And>x. posts_in R (b x)) \<Longrightarrow> posts_in R (case v of None \<Rightarrow> a | Some x \<Rightarrow> b x)"
  and posts_if [posts_intros]: "posts_in R c \<Longrightarrow> posts_in R d \<Longrightarrow> posts_in R (if t then c else d)"
  and posts_Let [posts_intros]: "(\<And>x. posts_in R (f x)) \<Longrightarrow> posts_in R (Let v f)"
  by (cases v) simp_all

lemma posts_request [posts_intros]: "rq \<in> R \<Longrightarrow> posts_in R (request rq retry att)"
  unfolding posts_in_def by (fastforce dest!: request_posts simp: posts_def)

lemma posts_push_each:
  "(\<And>k v. (k, v) \<in> set kvs \<Longrightarrow> posts_in R (f k (deflate H v))) \<Longrightarrow> posts_in R (push_each f H kvs err)"
proof (induction f H kvs err rule: push_each.induct)
  case (1 f H err)
  then show ?case by (cases err) (simp_all add: posts_intros)
next
  case (2 f H k v rest err)
  then show ?case by (auto simp: attempt_def intro!: posts_intros)
qed

section \<open>The posts of send\<close>

abbreviation upload_reqs :: "hash \<Rightarrow> message \<Rightarrow> request set" where
  "upload_reqs H m \<equiv>
     {push_msg_req H n m | n. True} \<union>
     {PushObjectRequest n r k (deflate H v) | n r k v. (k, v) \<in> set (get_all_nested_objects H (message_object m))}"

lemma posts_push_requested:
  "posts_in (upload_reqs H m) (push_requested H nt n m (get_all_nested_objects H (message_object m)) r res)"
  unfolding push_requested_def push_objects_def make_push_object_fn_rest_def push_object_rest_def
  by (auto intro!: posts_intros posts_push_each)

lemma posts_send: "posts_in (upload_reqs H m) (send H nt m)"
  unfolding send_def Let_def remove_content_from_message_def
  by (auto intro!: posts_intros) (rule posts_push_requested [simplified])

section \<open>The announced tree\<close>

lemma tree_object_id_get_object_tree [simp]: "tree_object_id (get_object_tree H v) = obj_id H v"
  by (cases v) simp

lemma tree_children_ids: "map tree_object_id (tree_children (get_object_tree H v)) = head_children (deflate H v)"
  by (cases v) (simp add: comp_def)

lemma subobj_tree_node:
  "v \<in> set (subobjs x) \<Longrightarrow> get_object_tree H v \<in> set (iterate_object_tree (get_object_tree H x))"
proof (induction x)
  case (Obj b cs)
  then show ?case by (auto simp del: get_object_tree.simps simp: get_object_tree.simps [of H b cs])
qed

text \<open>
  C33: the uploads of \<open>send\<close> are well-formed with respect to the announced
  tree. Whatever the SuperLink answers and however often requests are
  retried, \<open>send\<close> posts only the message announcement and object uploads;
  each uploaded object is stored under the id its content hashes to, and
  that id is a node of the announced object tree whose children are exactly
  the children the uploaded object lists.
\<close>

theorem send_uploads_match_tree:
  assumes "send H nt m s = Some (s', x)"
  shows "\<exists>es. events s' = events s @ es \<and>
           (\<forall>rq \<in> set (posts es). (\<exists>n. rq = push_msg_req H n m) \<or>
              (\<exists>n r k d. rq = PushObjectRequest n r k d \<and> H d = k \<and>
                 (\<exists>t \<in> set (iterate_object_tree (get_object_tree H (message_object m))).
                    tree_object_id t = k \<and> map tree_object_id (tree_children t) = head_children d)))"
proof -
  obtain es where ev: "events s' = events s @ es" and ps: "set (posts es) \<subseteq> upload_reqs H m"
    using posts_send [where H = H and m = m and nt = nt] assms unfolding posts_in_def by blast
  have "(\<exists>n. rq = push_msg_req H n m) \<or>
        (\<exists>n r k d. rq = PushObjectRequest n r k d \<and> H d = k \<and>
           (\<exists>t \<in> set (iterate_object_tree (get_object_tree H (message_object m))).
              tree_object_id t = k \<and> map tree_object_id (tree_children t) = head_children d))"
    if "rq \<in> set (posts es)" for rq
  proof -
    from that ps consider (msg) n where "rq = push_msg_req H n m"
      | (obj) n r k v where "rq = PushObjectRequest n r k (deflate H v)"
          "(k, v) \<in> set (get_all_nested_objects H (message_object m))"
      by blast
    then show ?thesis
    proof cases
      case msg
      then show ?thesis by blast
    next
      case obj
      from nested_sound [OF obj(2)] have k: "k = obj_id H v" and v: "v \<in> set (subobjs (message_object m))"
        by simp_all
      have "get_object_tree H v \<in> set (iterate_object_tree (get_object_tree H (message_object m)))"
        using v by (rule subobj_tree_node)
      then show ?thesis
        using obj(1) k tree_children_ids [of H v]
        by (intro disjI2 exI conjI bexI [of _ "get_object_tree H v"]) (simp_all add: obj_id_deflate)
    qed
  qed
  with ev show ?thesis by blast
qed

end
