(* ===== verification/Composition.thy ===== *)
theory Composition
  imports Payloads
begin

text \<open>
  The two halves of the exchange composed through the SuperLink. The
  SuperLink keeps the objects pushed to it in a store, by object id, a later
  upload overriding an earlier one (\<open>uploaded\<close>). When it asks \<open>send\<close> for
  every object of a message and accepts the uploads, the store afterwards
  holds the message; and then any node the message is addressed to receives
  it unchanged with \<open>receive\<close>, whatever it has done before.
\<close>

definition uploaded :: "request list \<Rightarrow> object_id \<rightharpoonup> deflated" where
  "uploaded rqs = map_of (rev [(k, d). PushObjectRequest n r k d \<leftarrow> rqs])"

lemma uploaded_append: "uploaded (xs @ ys) = uploaded xs ++ uploaded ys"
  by (simp add: uploaded_def map_of_append)

lemma uploaded_push_msg [simp]: "uploaded (push_msg_req H n m # rqs) = uploaded rqs"
  by (simp add: uploaded_def)

lemma map_of_rev_distinct:
  assumes "distinct (map fst xs)"
  shows "map_of (rev xs) = map_of xs"
proof
  fix k
  show "map_of (rev xs) k = map_of xs k"
  proof (cases "map_of xs k")
    case None
    then show ?thesis by (metis map_of_eq_None_iff set_rev)
  next
    case (Some v)
    then have "(k, v) \<in> set (rev xs)" by (simp add: map_of_SomeD)
    moreover have "distinct (map fst (rev xs))" using assms by (simp add: rev_map [symmetric])
    ultimately show ?thesis using Some by (simp add: map_of_is_SomeI)
  qed
qed

lemma uploaded_objects:
  "uploaded (map (\<lambda>(k, v). PushObjectRequest n r k (deflate H v)) (get_all_nested_objects H x)) =
   nested_contents H x"
proof -
  have "[(k, d). PushObjectRequest n' r' k d \<leftarrow> map (\<lambda>(k, v). PushObjectRequest n r k (deflate H v)) kvs] =
        map (\<lambda>(k, v). (k, deflate H v)) kvs" for kvs :: "(object_id \<times> obj) list"
    by (induction kvs) auto
  moreover have "distinct (map fst (map (\<lambda>(k, v). (k, deflate H v)) (get_all_nested_objects H x)))"
    using nested_distinct [of H x] by (simp add: comp_def case_prod_beta)
  ultimately show ?thesis
    by (simp add: uploaded_def nested_contents_def map_of_rev_distinct)
qed

text \<open>A SuperLink that answers each pull from a store holding the message serves every chunk of its tree.\<close>

lemma serves_from_store:
  assumes "holds_message H st m"
    and "\<And>i d. st i = Some d \<Longrightarrow> rpc_pull_object nt n r i 0 = Inr (ok_reply (chunk_reply d))"
  shows "\<forall>i \<in> set (tree_ids (get_object_tree H (message_object m))). serves_chunk nt n r st i"
proof
  fix i assume "i \<in> set (tree_ids (get_object_tree H (message_object m)))"
  then obtain x where "x \<in> set (subobjs (message_object m))" "i = obj_id H x"
    using iterate_object_tree_ids [of H "message_object m"] by (metis image_iff set_map)
  with assms show "serves_chunk nt n r st i"
    by (simp add: holds_message_def serves_chunk_def)
qed

text \<open>
  C34: end to end. If the SuperLink asks \<open>send\<close> for every object of the
  message and accepts the uploads, and the content hash has no collision on
  the message, then after \<open>send\<close> the SuperLink's store holds the message, and
  any node it is addressed to that pulls it from that store receives exactly
  the message that was sent.
\<close>

theorem send_then_receive:
  assumes "node s = Some n"
    and "rpc_push_messages nt n (metadata m) (get_object_tree H (message_object m)) 0 = Inr (ok_reply r)"
    and "objects_to_push r \<noteq> []"
    and all: "set (proto_map_get (objects_to_push r) (message_oid H m)) = obj_id H ` set (subobjs (message_object m))"
    and "\<forall>(k, v) \<in> set (get_all_nested_objects H (message_object m)).
           rpc_push_object nt n (run_id (metadata m)) k (deflate H v) 0 = Inr (ok_reply ())"
    and cf: "collision_free H (message_object m)"
  shows "\<exists>s'. send H nt m s = Some (s', Inr ()) \<and> holds_message H (uploaded (posts (events s'))) m \<and>
           (\<forall>t n' nt'. node t = Some n' \<longrightarrow> dst_node_id (metadata m) = n' \<longrightarrow>
              message_id (metadata m) = message_oid H m \<longrightarrow> serves_message H nt' n' m \<longrightarrow>
              (\<forall>i \<in> set (tree_ids (get_object_tree H (message_object m))).
                 serves_chunk nt' n' (run_id (metadata m)) (uploaded (posts (events s'))) i) \<longrightarrow>
              rpc_confirm nt' n' (run_id (metadata m)) (message_id (metadata m)) 0 = Inr (ok_reply ()) \<longrightarrow>
              obj_depth (message_object m) \<le> recursion_limit \<longrightarrow>
              (\<exists>t'. receive nt' t = Some (t', Inr (Some m))))"
proof -
  let ?objs = "get_all_nested_objects H (message_object m)"
  have req: "requested_objects H m r = ?objs"
    using all nested_keys [of H "message_object m"] by (auto intro!: filter_True) (metis fst_conv image_eqI)
  obtain s' where snd: "send H nt m s = Some (s', Inr ())"
    and ev: "events s' = events s @ [Post (url s (push_msg_req H n m)) (push_msg_req H n m),
               Log INFO (''[Node] POST /'' @ api_path (PushMessagesRequest n [] []) @ '': success, created result'')] @
             map (\<lambda>(k, v). Post (url s (PushObjectRequest n (run_id (metadata m)) k (deflate H v)))
                                (PushObjectRequest n (run_id (metadata m)) k (deflate H v))) ?objs @
             [Log DEBUG ''Pushed objects to servicer.'']"
    using send_served [OF assms(1,2,3,5)] req by auto
  have "posts (events s') = posts (events s) @ [push_msg_req H n m] @
          map (\<lambda>(k, v). PushObjectRequest n (run_id (metadata m)) k (deflate H v)) ?objs"
    by (simp add: ev posts_def case_prod_beta comp_def)
  then have up: "uploaded (posts (events s')) = uploaded (posts (events s)) ++ nested_contents H (message_object m)"
    by (simp add: uploaded_append uploaded_objects)
  have hold: "holds_message H (uploaded (posts (events s'))) m"
    unfolding holds_message_def
  proof
    fix x assume x: "x \<in> set (subobjs (message_object m))"
    from nested_contents_agree [OF cf x] show "uploaded (posts (events s')) (obj_id H x) = Some (deflate H x)"
      by (simp add: up)
  qed
  moreover have "\<exists>t'. receive nt' t = Some (t', Inr (Some m))"
    if "node t = Some n'" "dst_node_id (metadata m) = n'" "message_id (metadata m) = message_oid H m"
      "serves_message H nt' n' m"
      "\<forall>i \<in> set (tree_ids (get_object_tree H (message_object m))).
         serves_chunk nt' n' (run_id (metadata m)) (uploaded (posts (events s'))) i"
      "rpc_confirm nt' n' (run_id (metadata m)) (message_id (metadata m)) 0 = Inr (ok_reply ())"
      "obj_depth (message_object m) \<le> recursion_limit" for t n' nt'
    using receive_delivers [OF that(1-5) hold that(6,7)] by blast
  ultimately show ?thesis using snd by blast
qed

end
