(* ===== verification/Traces.thy ===== *)
theory Traces
  imports System "HOL-Library.Sublist"
begin

text \<open>
  The event log as the trace of the session. Every operation of the context
  manager, every heartbeat tick and the cleanup only append to the event
  log (\<open>extends\<close>), and each step either keeps the node, clears it, or
  registers it after a registration post and a start of the heartbeat
  (\<open>registered_by\<close>). From this follows a traceback property in the style of
  trace-based protocol models: a registered node can be traced back to a
  registration request and a start of the heartbeat sender in the log.
\<close>

section \<open>Each step extends the log\<close>

text \<open>
  What a step may do to the state, besides appending to the log: keep the
  node, clear it, or register it after a registration post and a start of
  the heartbeat.
\<close>

definition extends :: "client \<Rightarrow> client \<Rightarrow> bool" where
  "extends s s' \<longleftrightarrow> prefix (events s) (events s')"

definition registered_by :: "client \<Rightarrow> client \<Rightarrow> bool" where
  "registered_by s s' \<longleftrightarrow>
     node s' = node s \<or> node s' = None \<or>
     (create_req \<in> set (posts (events s')) \<and> HeartbeatStarted \<in> set (events s'))"

lemma extends_trans [trans]: "extends s1 s2 \<Longrightarrow> extends s2 s3 \<Longrightarrow> extends s1 s3"
  by (auto simp: extends_def intro: prefix_order.trans)

lemma extends_refl [simp]: "extends s s"
  by (simp add: extends_def)

lemma extends_append [simp]: "extends s (s'\<lparr>events := events s @ es\<rparr>)"
  by (simp add: extends_def)

lemma quiet_extends: "quiet s s' \<Longrightarrow> extends s s'"
  by (auto simp: quiet_def extends_def)

lemma only_events_extends: "only_events s s' \<Longrightarrow> extends s s'"
  by (auto simp: only_events_def extends_def)

lemma quiet_act_step: "quiet_act m \<Longrightarrow> m s = Some (s', x) \<Longrightarrow> extends s s' \<and> node s' = node s"
  by (auto simp: quiet_act_def quiet_extends dest: quiet_fields)

lemma create_node_step:
  assumes "create_node nt s = Some (s', x)"
  shows "extends s s' \<and> registered_by s s'"
proof -
  obtain s1 y where r: "request create_req True (rpc_create_node nt) s = Some (s1, y)"
    using assms by (auto simp: create_node_unfold split: option.splits)
  have e1: "extends s s1" and n1: "node s1 = node s"
    using request_only_events [OF r] by (simp_all add: only_events_extends only_events_fields)
  from request_posts [OF r] obtain k ws where "1 \<le> k"
    and "events s1 = events s @ replicate k (Post (url s create_req) create_req) @ ws" by blast
  then have p: "create_req \<in> set (posts (events s1))" by (cases k) auto
  show ?thesis
  proof (cases "\<exists>n. y = Inr (Some n)")
    case True
    then obtain n where "y = Inr (Some n)" by blast
    with assms r have "s' = s1\<lparr>node := Some n, hb_running := True, events := events s1 @ [HeartbeatStarted]\<rparr>"
      by (simp add: create_node_unfold)
    with e1 p show ?thesis
      by (auto simp: registered_by_def extends_def intro: prefix_order.trans)
  next
    case False
    with assms r have "s' = s1"
      by (cases y) (auto simp: create_node_unfold split: option.splits)
    with e1 n1 show ?thesis by (simp add: registered_by_def)
  qed
qed

lemma delete_node_step:
  assumes "delete_node nt s = Some (s', x)"
  shows "extends s s' \<and> (node s' = node s \<or> node s' = None)"
proof (cases "node s")
  case None
  with assms show ?thesis by (auto simp: delete_node_None)
next
  case (Some n)
  let ?s1 = "s\<lparr>hb_running := False, events := events s @ [HeartbeatStopped]\<rparr>"
  obtain s2 y where r: "request (DeleteNodeRequest n) True (rpc_delete_node nt n) ?s1 = Some (s2, y)"
    using assms Some by (auto simp: delete_node_Some Let_def split: option.splits)
  have "extends s ?s1" by simp
  also have "extends ?s1 s2" using request_only_events [OF r] by (rule only_events_extends)
  finally have e2: "extends s s2" .
  have n2: "node s2 = node s" using only_events_fields [OF request_only_events [OF r]] by simp
  have "s' = s2 \<or> s' = s2\<lparr>node := None\<rparr>"
    using assms Some r by (auto simp: delete_node_Some Let_def split: sum.splits option.splits)
  with e2 n2 show ?thesis by (auto simp: extends_def)
qed

lemma cleanup_step:
  assumes "cleanup nt s = Some (s', x)"
  shows "extends s s' \<and> (node s' = node s \<or> node s' = None)"
proof (cases "node s")
  case None
  with assms show ?thesis by (simp add: cleanup_None)
next
  case (Some n)
  then obtain y where d: "delete_node nt (s\<lparr>max_tries := Some 1\<rparr>) = Some (s', y)"
    using assms by (auto simp: cleanup_Some split: option.splits sum.splits if_splits)
  from delete_node_step [OF d] show ?thesis by (simp add: extends_def)
qed

lemma exec_op_step:
  assumes "exec_op H nt c s = Some (s', r)"
  shows "extends s s' \<and> registered_by s s'"
proof (cases c)
  case CreateNode
  with assms obtain r' where "create_node nt s = Some (s', r')"
    by (auto simp: exec_op_def dest: thenc_ret_state)
  then show ?thesis by (rule create_node_step)
next
  case DeleteNode
  with assms have "delete_node nt s = Some (s', r)" by (simp add: exec_op_def)
  then show ?thesis by (auto simp: registered_by_def dest: delete_node_step)
next
  case Receive
  with assms obtain r' where "receive nt s = Some (s', r')"
    by (auto simp: exec_op_def dest: thenc_ret_state)
  then show ?thesis by (auto simp: registered_by_def dest: quiet_act_step [OF quiet_receive])
next
  case (Send m)
  with assms have "send H nt m s = Some (s', r)" by (simp add: exec_op_def)
  then show ?thesis by (auto simp: registered_by_def dest: quiet_act_step [OF quiet_send])
next
  case (GetRun rid)
  with assms obtain r' where "get_run nt rid s = Some (s', r')"
    by (auto simp: exec_op_def dest: thenc_ret_state)
  then show ?thesis by (auto simp: registered_by_def dest: quiet_act_step [OF quiet_get_run])
next
  case (GetFab h rid)
  with assms obtain r' where "get_fab nt h rid s = Some (s', r')"
    by (auto simp: exec_op_def dest: thenc_ret_state)
  then show ?thesis by (auto simp: registered_by_def dest: quiet_act_step [OF quiet_get_fab])
qed

lemma session_step_extends:
  assumes "session_step H s s'"
  shows "extends s s' \<and> registered_by s s'"
  using assms
proof (cases rule: session_step.cases)
  case (call nt c r)
  then show ?thesis by (rule exec_op_step)
next
  case (tick nt r)
  then show ?thesis by (auto simp: registered_by_def dest!: heartbeat_tick_events)
next
  case (close nt r)
  then show ?thesis by (auto simp: registered_by_def dest: cleanup_step)
qed


section \<open>Traceback of registration\<close>

text \<open>
  C35: traceback of registration. In every reachable state in which a node
  is registered, the history contains a registration request and a start of
  the heartbeat sender: the node id can only have come from a
  \<open>create_node\<close> whose request was posted.
\<close>

theorem registered_traces_back:
  assumes "reachable H s" and "node s = Some n"
  shows "create_req \<in> set (posts (events s)) \<and> HeartbeatStarted \<in> set (events s)"
  using assms
proof (induction arbitrary: n rule: reachable.induct)
  case init
  then show ?case by simp
next
  case (step s s')
  from session_step_extends [OF step.hyps(2)]
  have p: "prefix (events s) (events s')" and r: "registered_by s s'"
    by (simp_all add: extends_def)
  have ev: "set (events s) \<subseteq> set (events s')" using p by (rule set_mono_prefix)
  have ps: "set (posts (events s)) \<subseteq> set (posts (events s'))"
    using p by (auto simp: prefix_def)
  show ?case
  proof (cases "node s' = node s")
    case True
    with step.prems have "node s = Some n" by simp
    from step.IH [OF this] ev ps show ?thesis by auto
  next
    case False
    with r step.prems show ?thesis by (auto simp: registered_by_def)
  qed
qed

end
