(* ===== verification/Module.thy ===== *)
theory Module
  imports System
begin

text \<open>
  The module-level guard of \<^verbatim>\<open>connection.py\<close> (lines 76--79): the module
  imports \<open>requests\<close>, and when the package is missing it calls
  \<open>flwr_exit\<close> with \<open>ExitCode.COMMON_MISSING_EXTRA_REST\<close>, which ends the
  process. \<open>flwr_exit\<close> lives outside this repository's sources; it is
  modelled by what the call site relies on: the process ends with the given
  exit code, as a value of the sum type. The guard is a single branch, so no
  property is stated of it beyond its definition.
\<close>

datatype exit_code = COMMON_MISSING_EXTRA_REST

definition flwr_exit :: "exit_code \<Rightarrow> exit_code + unit" where
  "flwr_exit code = Inl code"

definition import_requests :: "bool \<Rightarrow> exit_code + unit" where
  "import_requests requests_installed =
     (if requests_installed then Inr () else flwr_exit COMMON_MISSING_EXTRA_REST)"

end
