(* ===== verification/Bounds.thy ===== *)
theory Bounds
  imports Exchange
begin

text \<open>
  How much network traffic an operation can cause. \<open>posts_at_most m k act\<close>
  says that a run of \<open>act\<close> from a state whose retry budget is \<open>m\<close> keeps that
  budget and only appends events, among which at most \<open>k\<close> posts. The rules
  follow the structure of a quantitative Hoare logic: a sequence costs the
  sum of its parts, a branch the bound of both, and a bound may be weakened.
  One \<open>_request\<close> with retries posts at most \<open>max 1 m\<close> times; a loop over a
  list costs its length times the cost of one iteration.
\<close>

definition posts_at_most :: "nat \<Rightarrow> nat \<Rightarrow> (client, 'a) cm \<Rightarrow> bool" where
  "posts_at_most m k act \<longleftrightarrow>
     (\<forall>s s' x. max_tries s = Some m \<longrightarrow> act s = Some (s', x) \<longrightarrow>
        max_tries s' = Some m \<and> (\<exists>es. events s' = events s @ es \<and> length (posts es) \<le> k))"

lemma posts_at_mostD:
  "posts_at_most m k act \<Longrightarrow> max_tries s = Some m \<Longrightarrow> act s = Some (s', x) \<Longrightarrow>
   max_tries s' = Some m \<and> (\<exists>es. events s' = events s @ es \<and> length (posts es) \<le> k)"
  unfolding posts_at_most_def by blast

section \<open>The rules\<close>

lemma bound_mono: "posts_at_most m k act \<Longrightarrow> k \<le> k' \<Longrightarrow> posts_at_most m k' act"
  unfolding posts_at_most_def by (meson order_trans)

lemma bound_ret: "posts_at_most m k (ret a)"
  and bound_throw: "posts_at_most m k (throw e)"
  and bound_gets: "posts_at_most m k (gets g)"
  and bound_log: "posts_at_most m k (log l msg)"
  by (auto simp: posts_at_most_def cm_simps log_def emit_def intro: exI [of _ "[]"])

lemma bound_bindc:
  assumes a: "posts_at_most m k1 a" and f: "\<And>y. posts_at_most m k2 (f y)"
  shows "posts_at_most m (k1 + k2) (bindc a f)"
  unfolding posts_at_most_def
proof (intro allI impI)
  fix s s' x assume ms: "max_tries s = Some m" and r: "bindc a f s = Some (s', x)"
  then obtain s1 y where a1: "a s = Some (s1, y)" by (auto simp: bindc_def split: option.splits)
  from posts_at_mostD [OF a ms a1] obtain es1 where
    m1: "max_tries s1 = Some m" and e1: "events s1 = events s @ es1" "length (posts es1) \<le> k1" by blast
  show "max_tries s' = Some m \<and> (\<exists>es. events s' = events s @ es \<and> length (posts es) \<le> k1 + k2)"
  proof (cases y)
    case (Inl e)
    with r a1 have "s' = s1" by (simp add: bindc_def)
    with m1 e1 show ?thesis by auto
  next
    case (Inr v)
    with r a1 have "f v s1 = Some (s', x)" by (simp add: bindc_def)
    from posts_at_mostD [OF f m1 this] e1 show ?thesis by fastforce
  qed
qed

lemma bound_catch:
  assumes a: "posts_at_most m k1 a" and h: "\<And>e. posts_at_most m k2 (h e)"
  shows "posts_at_most m (k1 + k2) (catch a h)"
  unfolding posts_at_most_def
proof (intro allI impI)
  fix s s' x assume ms: "max_tries s = Some m" and r: "catch a h s = Some (s', x)"
  then obtain s1 y where a1: "a s = Some (s1, y)" by (auto simp: catch_def split: option.splits)
  from posts_at_mostD [OF a ms a1] obtain es1 where
    m1: "max_tries s1 = Some m" and e1: "events s1 = events s @ es1" "length (posts es1) \<le> k1" by blast
  show "max_tries s' = Some m \<and> (\<exists>es. events s' = events s @ es \<and> length (posts es) \<le> k1 + k2)"
  proof (cases y)
    case (Inl e)
    with r a1 have "h e s1 = Some (s', x)" by (simp add: catch_def)
    from posts_at_mostD [OF h m1 this] e1 show ?thesis by fastforce
  next
    case (Inr v)
    with r a1 have "s' = s1" by (simp add: catch_def)
    with m1 e1 show ?thesis by auto
  qed
qed

lemma bound_thenc: "posts_at_most m k1 a \<Longrightarrow> posts_at_most m k2 b \<Longrightarrow> posts_at_most m (k1 + k2) (thenc a b)"
  unfolding thenc_def by (rule bound_bindc)

lemma bound_case_option:
  "posts_at_most m k a \<Longrightarrow> (\<And>y. posts_at_most m k (b y)) \<Longrightarrow> posts_at_most m k (case v of None \<Rightarrow> a | Some y \<Rightarrow> b y)"
  and bound_if: "posts_at_most m k c \<Longrightarrow> posts_at_most m k d \<Longrightarrow> posts_at_most m k (if t then c else d)"
  and bound_Let: "(\<And>y. posts_at_most m k (f y)) \<Longrightarrow> posts_at_most m k (Let v f)"
  by (cases v) simp_all

lemma posts_replicate [simp]: "posts (replicate n (Post u rq)) = replicate n rq"
  by (induction n) (simp_all add: posts_def)

lemma posts_warnings: "set ws \<subseteq> {Log WARN w | w. True} \<Longrightarrow> posts ws = []"
  by (induction ws) (auto simp: posts_def)

lemma bound_request: "posts_at_most m (max 1 m) (request rq True att)"
  unfolding posts_at_most_def
proof (intro allI impI conjI)
  fix s s' x assume ms: "max_tries s = Some m" and r: "request rq True att s = Some (s', x)"
  show "max_tries s' = Some m" using only_events_fields [OF request_only_events [OF r]] ms by simp
  from request_posts [OF r] ms obtain n ws where "n \<le> max 1 m"
    and "events s' = events s @ replicate n (Post (url s rq) rq) @ ws" and "set ws \<subseteq> {Log WARN w | w. True}"
    by auto
  then show "\<exists>es. events s' = events s @ es \<and> length (posts es) \<le> max 1 m"
    by (auto simp: posts_warnings)
qed

lemma bound_attempt:
  assumes "posts_at_most m k a"
  shows "posts_at_most m k (attempt a)"
proof -
  have "posts_at_most m (k + 0 + 0) (catch (thenc a (ret None)) (\<lambda>e. ret (Some e)))"
    by (intro bound_catch bound_thenc bound_ret assms)
  then show ?thesis by (simp add: attempt_def)
qed

section \<open>The chunk loop and send\<close>

lemma bound_push_each:
  "(\<And>k d. posts_at_most m c (f k d)) \<Longrightarrow> posts_at_most m (c * length kvs) (push_each f H kvs err)"
proof (induction f H kvs err rule: push_each.induct)
  case (1 f H err)
  then show ?case by (cases err) (simp_all add: bound_ret bound_throw)
next
  case (2 f H k v rest err)
  have "posts_at_most m (c + c * length rest) (push_each f H ((k, v) # rest) err)"
    using bound_bindc [OF bound_attempt [OF "2.prems"] "2.IH" [OF "2.prems"]] by simp
  then show ?case by simp
qed

lemma bound_push_requested:
  "posts_at_most m (max 1 m * length all_objects) (push_requested H nt n msg all_objects r res)"
proof -
  have push: "posts_at_most m (max 1 m * length all_objects)
      (push_objects H all_objects (make_push_object_fn_rest (push_object_rest nt) n r) ids)" for ids
  proof -
    have "posts_at_most m (max 1 m) (make_push_object_fn_rest (push_object_rest nt) n r k d)" for k d
    proof -
      have "posts_at_most m (max 1 m + 0)
          (bindc (request (PushObjectRequest n r k d) True (rpc_push_object nt n r k d))
             (\<lambda>res. case res of None \<Rightarrow> throw ValueError | Some _ \<Rightarrow> ret ()))"
        by (intro bound_bindc bound_request bound_case_option bound_throw bound_ret)
      then show ?thesis by (simp add: make_push_object_fn_rest_def push_object_rest_def)
    qed
    then have "posts_at_most m (max 1 m * length (filter (\<lambda>(k, _). k \<in> ids) all_objects))
        (push_objects H all_objects (make_push_object_fn_rest (push_object_rest nt) n r) ids)"
      unfolding push_objects_def by (rule bound_push_each)
    then show ?thesis by (rule bound_mono) simp
  qed
  have "posts_at_most m (max 1 m * length all_objects + 0 + 0)
      (catch (thenc (push_objects H all_objects (make_push_object_fn_rest (push_object_rest nt) n r) ids)
                    (log DEBUG ''Pushed objects to servicer.''))
             (\<lambda>e. if e = ValueError
                  then thenc (log ERROR ''Pushing objects failed. Potential irrecoverable error'')
                         (log ERROR ''PushObjectResponse is None.'')
                  else throw e))" for ids
    by (intro bound_catch bound_thenc push bound_log bound_if bound_throw)
       (rule bound_mono [OF bound_thenc [OF bound_log bound_log]], simp)
  then show ?thesis
    unfolding push_requested_def by (intro bound_if bound_Let bound_ret) simp
qed

text \<open>
  C25: a bound on the traffic of \<open>send\<close>. With a retry budget of \<open>m\<close>
  attempts, whatever the SuperLink answers (any replies, errors or requested
  ids), \<open>send\<close> posts at most \<open>max 1 m\<close> times for the message and at most
  \<open>max 1 m\<close> times for each nested object of the message, and leaves the
  budget as it was.
\<close>

theorem send_posts_bounded:
  assumes "max_tries s = Some m" and "send H nt msg s = Some (s', x)"
  shows "max_tries s' = Some m \<and>
         (\<exists>es. events s' = events s @ es \<and>
            length (posts es) \<le> max 1 m * (1 + length (get_all_nested_objects H (message_object msg))))"
proof -
  let ?N = "length (get_all_nested_objects H (message_object msg))"
  have "posts_at_most m (0 + (max 1 m + (0 + max 1 m * ?N))) (send H nt msg)"
    unfolding send_def Let_def
    by (intro bound_bindc bound_gets bound_case_option bound_log bound_Let bound_request
          bound_ret bound_thenc bound_push_requested)
  then have "posts_at_most m (max 1 m * (1 + ?N)) (send H nt msg)"
    by (simp add: algebra_simps)
  from posts_at_mostD [OF this assms] show ?thesis .
qed

end
