(* ===== verification/Scenario.thy ===== *)
theory Scenario
  imports Exchange Session Metadata
begin

text \<open>
  Concrete data for the witnesses of the development: a toy content hash, the
  scenario of the specification (node 7 receives a message whose content is
  split into three chunks) and SuperLinks that answer each request in a
  scripted way. Nothing here is assumed; every value is computed.
\<close>

text \<open>
  A content hash that is injective on the objects used here: a chunk is named
  by its length, a message root by the ids of its children.
\<close>

definition toy_hash :: hash where
  "toy_hash d =
     (case head_body d of
        Blob bs \<Rightarrow> CHR ''c'' # [char_of (length bs)]
      | MessageBody md \<Rightarrow> CHR ''m'' # concat (head_children d))"

definition chunks7 :: "obj list" where
  "chunks7 = [Obj (Blob [1]) [], Obj (Blob [1, 2]) [], Obj (Blob [1, 2, 3]) []]"

definition md7 :: metadata where
  "md7 = \<lparr>run_id = 3, message_id = CHR ''m'' # concat (map (obj_id toy_hash) chunks7),
          src_node_id = 0, dst_node_id = 7, reply_to_message_id = [], group_id = [],
          message_type = ''train''\<rparr>"

definition msg7 :: message where
  "msg7 = \<lparr>metadata = md7, content = chunks7\<rparr>"

definition store7 :: "object_id \<rightharpoonup> deflated" where
  "store7 = nested_contents toy_hash (message_object msg7)"

definition ok_pull_object :: "(object_id \<rightharpoonup> deflated) \<Rightarrow> object_id \<Rightarrow> pull_object_res attempt" where
  "ok_pull_object st i =
     (case st i of
        Some d \<Rightarrow> Inr (ok_reply (chunk_reply d))
      | None \<Rightarrow> Inr (ok_reply \<lparr>object_found = False, object_available = False, object_content = Deflated [] (Blob [])\<rparr>))"

text \<open>The SuperLink asks for the first and the third chunk only.\<close>

definition push_reply7 :: push_messages_res where
  "push_reply7 =
     \<lparr>results = [], objects_to_push = [(message_oid toy_hash msg7, [CHR ''c'' # [char_of (1::nat)], CHR ''c'' # [char_of (3::nat)]])]\<rparr>"

text \<open>A SuperLink that holds the message for node 7 and answers every request at once.\<close>

definition net7 :: net where
  "net7 =
     \<lparr>rpc_create_node = (\<lambda>k. Inr (ok_reply 7)),
      rpc_delete_node = (\<lambda>n k. Inr (ok_reply ())),
      rpc_heartbeat = (\<lambda>n k. Inr (ok_reply True)),
      rpc_pull_messages = (\<lambda>n k. Inr (ok_reply
          \<lparr>messages_list = [md7], message_object_trees = [get_object_tree toy_hash (message_object msg7)]\<rparr>)),
      rpc_push_messages = (\<lambda>n md t k. Inr (ok_reply push_reply7)),
      rpc_pull_object = (\<lambda>n r i k. ok_pull_object store7 i),
      rpc_push_object = (\<lambda>n r i d k. Inr (ok_reply ())),
      rpc_confirm = (\<lambda>n r i k. Inr (ok_reply ())),
      rpc_get_run = (\<lambda>n r k. Inr (ok_reply \<lparr>proto_run_id = r, proto_fab_id = ''fab'', proto_fab_version = ''1'', proto_fab_hash = ''h''\<rparr>)),
      rpc_get_fab = (\<lambda>n h r k. Inr (ok_reply \<lparr>proto_hash_str = h, proto_content = [1]\<rparr>))\<rparr>"

text \<open>The same SuperLink, asking the sender for every object of the message.\<close>

definition push_reply_all :: push_messages_res where
  "push_reply_all =
     \<lparr>results = [], objects_to_push = [(message_oid toy_hash msg7, map (obj_id toy_hash) (subobjs (message_object msg7)))]\<rparr>"

definition net_all :: net where
  "net_all = net7\<lparr>rpc_push_messages := (\<lambda>n md t k. Inr (ok_reply push_reply_all))\<rparr>"

text \<open>The client of node 7 with a running heartbeat and a budget of three attempts.\<close>

definition s7 :: client where
  "s7 = \<lparr>base_url = ''http://localhost:9095'', verify = Inl True, node = Some 7, hb_running = True,
         max_tries = Some 3, events = []\<rparr>"

text \<open>The client right after set-up, before registration.\<close>

definition s_init :: client where
  "s_init = initial_client ''http://localhost:9095'' None False (Some 3)"

text \<open>The same client once registered as node 7.\<close>

abbreviation s_registered :: client where
  "s_registered \<equiv> s_init\<lparr>node := Some 7, hb_running := True,
     events := events s_init @ [Post (url s_init (CreateNodeRequest heartbeat_default_interval)) (CreateNodeRequest heartbeat_default_interval), HeartbeatStarted]\<rparr>"

text \<open>Variants of the SuperLink.\<close>

definition http_error :: "'r \<Rightarrow> 'r attempt" where
  "http_error b = Inr \<lparr>status_code = 500, content_type = None, reply_body = b\<rparr>"

definition net_misrouted :: net where
  "net_misrouted = net7\<lparr>rpc_pull_messages := (\<lambda>n k. Inr (ok_reply
     \<lparr>messages_list = [md7\<lparr>dst_node_id := 8\<rparr>], message_object_trees = [get_object_tree toy_hash (message_object msg7)]\<rparr>))\<rparr>"

definition net_empty :: net where
  "net_empty = net7\<lparr>rpc_pull_messages := (\<lambda>n k. Inr (ok_reply \<lparr>messages_list = [], message_object_trees = []\<rparr>))\<rparr>"

definition net_lost_chunks :: net where
  "net_lost_chunks = net7\<lparr>rpc_pull_object := (\<lambda>n r i k. http_error (chunk_reply (Deflated [] (Blob []))))\<rparr>"

definition net_failing_uploads :: net where
  "net_failing_uploads = net7\<lparr>rpc_push_object := (\<lambda>n r i d k. Inl ConnectionError)\<rparr>"

definition net_unregister_fails :: net where
  "net_unregister_fails = net7\<lparr>rpc_delete_node := (\<lambda>n k. http_error ())\<rparr>"

definition net_rejecting :: net where
  "net_rejecting = net7\<lparr>rpc_heartbeat := (\<lambda>n k. Inr (ok_reply False))\<rparr>"

definition net_silent :: net where
  "net_silent = net7\<lparr>rpc_heartbeat := (\<lambda>n k. http_error True), rpc_get_run := (\<lambda>n r k. http_error
     \<lparr>proto_run_id = r, proto_fab_id = [], proto_fab_version = [], proto_fab_hash = []\<rparr>)\<rparr>"

definition net_refusing :: net where
  "net_refusing = net_silent\<lparr>rpc_create_node := (\<lambda>k. http_error 0)\<rparr>"

definition net_unreachable :: net where
  "net_unreachable = net7\<lparr>rpc_create_node := (\<lambda>k. Inl ConnectionError)\<rparr>"

text \<open>A SuperLink whose confirmation endpoint always raises \<open>ValueError\<close>.\<close>

definition net_confirm_fails :: net where
  "net_confirm_fails = net7\<lparr>rpc_confirm := (\<lambda>n r i k. Inl ValueError)\<rparr>"

text \<open>A SuperLink whose pull reply lists the message but no object tree.\<close>

definition net_treeless :: net where
  "net_treeless = net7\<lparr>rpc_pull_messages := (\<lambda>n k. Inr (ok_reply
     \<lparr>messages_list = [md7], message_object_trees = []\<rparr>))\<rparr>"

definition net_dead :: net where
  "net_dead = net7\<lparr>rpc_delete_node := (\<lambda>n k. Inl ConnectionError)\<rparr>"

section \<open>The scenario evaluated\<close>

lemmas scenario_defs = net7_def s7_def msg7_def md7_def chunks7_def store7_def toy_hash_def
  message_object_def nested_contents_def dict_update_def ok_pull_object_def message_oid_def deflate_def
  chunk_reply_def push_reply7_def

text \<open>With three attempts and a dead transport, unregistration posts three times and raises.\<close>

lemma dead_delete_request:
  "request (DeleteNodeRequest 7) True (rpc_delete_node net_dead 7) s7 =
     Some (s7\<lparr>events := replicate 3 (Post (url s7 (DeleteNodeRequest 7)) (DeleteNodeRequest 7))\<rparr>, Inl ConnectionError)"
  by (simp add: request_unfold retry_loop.simps net_dead_def s7_def numeral_3_eq_3)

text \<open>The registration of the scenario's client, and its first heartbeat tick.\<close>

lemma create_node_s_init: "create_node net7 s_init = Some (s_registered, Inr (Some 7))"
  by (simp add: create_node_unfold request_ok_first net7_def)

lemma tick_s_registered:
  "heartbeat_tick net7 s_registered =
     Some (s_registered\<lparr>events := events s_registered @
             [Post (url s_registered (SendNodeHeartbeatRequest 7 heartbeat_default_interval)) (SendNodeHeartbeatRequest 7 heartbeat_default_interval)]\<rparr>,
           Inr HbAlive)"
  by (simp add: heartbeat_tick_Some net7_def Let_def)

end
