(* ===== verification/Spec2Isabelle.thy ===== *)
theory Spec2Isabelle
  imports Refinement Payloads Composition Traces Module Bounds Scenario
begin

text \<open>
  \<^bold>\<open>A verified model of the Flower REST client connection.\<close>
  The program is \<^verbatim>\<open>src/framework/py/flwr/client/rest_client/connection.py\<close>:
  the context manager \<open>http_request_response\<close>, which a SuperNode uses to talk
  to the SuperLink over HTTP. It sets up TLS verification, keeps the
  registered node in a shared variable, runs a heartbeat thread, and yields
  six primitives (\<open>receive\<close>, \<open>send\<close>, \<open>create_node\<close>, \<open>delete_node\<close>,
  \<open>get_run\<close>, \<open>get_fab\<close>). Each primitive makes one or more protobuf POST
  requests through \<open>_request\<close>. A \<open>finally\<close> block unregisters a node that is
  still registered.

  \<^bold>\<open>Effects.\<close> Every function of the connection is a state transformer in
  the client monad of \<open>Prelude\<close>: \<open>('s, 'a) cm = 's \<Rightarrow> ('s \<times> (exn + 'a)) option\<close>.
  \<open>None\<close> means the call does not return (the retry invoker can loop for ever).
  \<open>Inl e\<close> is a raised Python exception, with the state at the raise. The state
  is the record \<open>client\<close> of \<open>Protocol\<close>, holding:
  \<^item> \<open>base_url\<close>, \<open>verify\<close> and \<open>node\<close>: the closure variables of lines 160--179;
  \<^item> \<open>hb_running\<close>: whether the \<open>HeartbeatSender\<close> runs;
  \<^item> \<open>max_tries\<close>: the budget of the retry invoker, \<open>None\<close> for unlimited;
  \<^item> \<open>events\<close>: everything observable, in order. That is each HTTP post (URL and
    request), each log line, and each start and stop of the heartbeat sender.

  The SuperLink is a parameter: a record \<open>net\<close> with one function per endpoint.
  Given the request and the attempt index, it returns a reply (status code,
  content type, body) or a transport exception. Properties that hold
  \<^emph>\<open>for every\<close> \<open>net\<close> hold against any server behaviour.

  \<^bold>\<open>Theories and what they model.\<close>
  \<^item> \<open>Prelude\<close>: The client monad, its laws (\<open>cm_simps\<close>), the \<open>returns\<close>
    predicate, and list/association-list lemmas. These include
    \<open>dict_update\<close>, a Python \<open>dict.update\<close> on an association list.
  \<^item> \<open>Protocol\<close>: The endpoint paths (lines 82--91, \<open>api_path\<close>), the request
    messages, the reply bodies, the event log, \<open>emit\<close> and \<open>log\<close>.
  \<^item> \<open>Transport\<close>: \<open>_request\<close> (lines 185--230) as \<open>request\<close>: the URL, the
    status and Content-Type checks with their warnings (\<open>check_response\<close>),
    and the retry invoker as \<open>retry_loop\<close>. The invoker lives in
    \<open>flwr.common.retry_invoker\<close>, outside \<open>src\<close>, and is modelled from the
    specification. It is a \<open>partial_function (option)\<close>: a reply ends the loop;
    an exception is retried until \<open>max_tries\<close> attempts were made, or for ever
    when the budget is unlimited. Lemmas: every request posts between 1 and
    \<open>max_tries\<close> times (once without retry), changes nothing but the log, and
    returns when the budget is finite; with an unlimited budget and a dead
    transport it never returns.
  \<^item> \<open>Objects\<close>: The inflatable-object library (\<open>flwr.common.inflatable\<close>),
    from the specification:
    \<^item> content ids \<open>obj_id\<close> over an arbitrary hash function;
    \<^item> \<open>deflate\<close>, \<open>get_object_tree\<close>, and \<open>iterate_object_tree\<close> (post-order);
    \<^item> \<open>get_all_nested_objects\<close>, a dictionary filled child by child;
    \<^item> \<open>inflate\<close>, whose fuel is the Python recursion limit (1000).
    Lemmas: inflating the deflated contents of an object gives the object back
    when its depth is within the limit, and more fuel never changes a result.
  \<^item> \<open>ObjectSync\<close>: The two \<open>fn\<close> wrappers of lines 328--334 and
    405--413 (\<open>pull_object_rest\<close>, \<open>push_object_rest\<close>: one request, and
    \<open>ValueError\<close> on no reply). The adapters and \<open>pull_objects\<close> /
    \<open>push_objects\<close> are modelled from the specification:
    \<^item> \<open>pull_objects\<close> pulls each distinct id once, in order;
    \<^item> \<open>push_objects\<close> tries every selected object, keeps the first error, and
      raises it at the end.
  \<^item> \<open>Heartbeat\<close>: \<open>send_node_heartbeat\<close> (lines 232--256): no retry, and
    \<open>RuntimeError\<close> when the SuperLink rejects the node. The sender is
    modelled from the specification as the flag \<open>hb_running\<close> and one
    \<open>heartbeat_tick\<close> per interval. The predicate \<open>quiet\<close> describes
    transitions that only append neutral events; \<open>quiet_intros\<close> proves it
    compositionally for every primitive but registration and unregistration.
  \<^item> \<open>Session\<close>: \<open>create_node\<close> (260--273), \<open>delete_node\<close> (275--294) and the
    \<open>finally\<close> block \<open>cleanup\<close> (465--472). The invariant \<open>session_inv\<close>
    states three things: the heartbeat runs only for a registered node; the
    running flag matches the event log; and no heartbeat was ever posted while
    the sender was stopped. Every operation preserves it.
  \<^item> \<open>Exchange\<close>: \<open>receive\<close> (296--368) and \<open>send\<close> (370--432), with every
    early return and both \<open>try\<close>/\<open>except\<close> blocks. After a failed pull,
    \<open>receive\<close> reads an unbound local variable, as the source does; a
    failing confirmation comes after the assignment and leaves the pulled
    contents bound (\<open>on_value_error\<close> carries what is bound).
  \<^item> \<open>Metadata\<close>: \<open>get_run\<close>, \<open>get_fab\<close>, and the set-up of lines 152--179
    (\<open>connection_setup\<close>, \<open>initial_client\<close>).
  \<^item> \<open>Scenario\<close>: Concrete data for the witnesses: a toy hash, node 7, a
    message of three chunks, and SuperLinks that answer as scripted
    (healthy, misrouted, empty, losing chunks, rejecting, dead).
  \<^item> \<open>Returns\<close>: every primitive is total under a finite retry budget, by
    the \<open>total_intros\<close> calculus of \<open>Prelude\<close> (one rule per combinator).
  \<^item> \<open>System\<close>: the six primitives as a datatype \<open>op\<close>, the body of the
    context manager, and \<open>connect\<close>, the whole function (its signature,
    lines 96--117, the set-up and lines 459--472). It also holds an inductive
    step relation, modelled from the specification: a step is a call of
    any primitive, a heartbeat tick while the sender runs, or the cleanup,
    each against its own SuperLink. \<open>reachable\<close> closes the initial states
    under these steps. Properties of reachable states therefore hold for
    every interleaving of the caller's thread and the heartbeat thread, at
    the granularity of whole calls.
  \<^item> \<open>Refinement\<close>: the session as the specification describes it, an
    abstract state (node, heartbeat running) with the events register,
    unregister, stop-heartbeat and stutter. \<open>abs_session\<close> is a refinement
    mapping: every concrete step is an abstract step.
  \<^item> \<open>Payloads\<close>: the \<open>posts_in\<close> calculus, which bounds the requests an
    action may post, and the consistency of the two payloads of \<open>send\<close>.
  \<^item> \<open>Composition\<close>: \<open>send\<close> and \<open>receive\<close> composed through the
    SuperLink. The server is not in the repository, so its object store is
    modelled from the specification (\<open>uploaded\<close>: the last content pushed
    under each id).
  \<^item> \<open>Traces\<close>: the event log as the trace of the session. Every step only
    appends to it (\<open>extends\<close>), and a registered node is traced back to its
    registration request and the start of its heartbeat.
  \<^item> \<open>Bounds\<close>: a counting calculus for posts (\<open>posts_at_most\<close>), with one
    rule per combinator as in a quantitative Hoare logic, and the bound on
    the traffic of \<open>send\<close>.
  \<^item> \<open>Module\<close>: the module-level import guard (lines 76--79) and
    \<open>flwr_exit\<close>. It is a single branch, so no property is stated of it.
  \<^item> This theory: the properties that span the components, and their
    witnesses on the scenario.

  \<^bold>\<open>Main results.\<close>
  \<^item> Round trip: a message served with its object tree is received exactly.
  \<^item> Routing: a misrouted message is dropped; each chunk is fetched once.
  \<^item> Push: \<open>send\<close> uploads exactly the requested objects, each once under its
    content id, and tries every one even when some fail.
  \<^item> Heartbeat: in every reachable state the heartbeat runs only for a
    registered node.
  \<^item> Unregistration: \<open>delete_node\<close> stops the heartbeat before unregistering.
  \<^item> Cleanup: the cleanup returns after exactly one unregistration post
    whatever the budget was.
  \<^item> Confirmation: a failing confirmation is logged and the message is still
    delivered.
  \<^item> Termination: with a finite retry budget, \<open>connect\<close> returns for any
    operations and any SuperLink, with the heartbeat stopped. Without a
    budget it can hang in its first request.
  \<^item> Refinement: every step of the code is a step of the abstract session
    of the specification.
  \<^item> Payload consistency: every object \<open>send\<close> uploads is a node of the tree
    it announced, stored under the hash of its content.
  \<^item> End to end: when the SuperLink asks for every object, what \<open>send\<close>
    uploads lets the addressee \<open>receive\<close> exactly the message sent.
  \<^item> Traffic bound: with a budget of \<open>m\<close>, \<open>send\<close> posts at most
    \<open>max 1 m\<close> times per nested object plus \<open>max 1 m\<close> for the message,
    whatever the SuperLink answers.
  \<^item> History: a registered node always has a registration request and a
    start of its heartbeat in the history.
  \<^item> Heartbeat progress: while the sender runs, a tick is always possible
    and posts one heartbeat for the registered node.
  \<^item> Three defects of the code, stated as theorems:
    \<^item> a failed unregister keeps the node while the heartbeat is stopped
      (\<open>Session.delete_node_failure_keeps_node\<close>). So the specification's
      invariant "heartbeat iff registered" fails in a reachable state
      (\<open>registered_without_heartbeat\<close>); only "heartbeat implies
      registered" holds;
    \<^item> a pull reply with a message but no object tree makes \<open>receive\<close>
      raise \<open>IndexError\<close>, which ends the whole session and unregisters
      the node (\<open>malformed_pull_aborts_session\<close>). The specification
      makes such protocol errors fatal only for the current receive;
    \<^item> a failed chunk pull makes \<open>receive\<close> raise \<open>UnboundLocalError\<close> instead
      of returning \<open>None\<close> (\<open>Exchange.receive_failed_chunk_raises\<close>).
  \<^item> Seven endpoint paths get a doubled slash in their URL
    (\<open>Transport.url_double_slash\<close>).

  \<^bold>\<open>Bounds.\<close> The only fuel is the recursion limit of \<open>inflate\<close>. The
  round-trip theorem assumes the object depth is within it, which matches the
  Python behaviour (a deeper object raises \<open>RecursionError\<close>). The retry loop
  needs no fuel: divergence is the value \<open>None\<close>, and termination is proved
  for every finite budget.

  \<^bold>\<open>Not modelled.\<close>
  \<^item> Protobuf serialization (generated code): structured values stand for bytes.
  \<^item> The \<open>requests\<close> library and TLS: a post is an event, and the answer is
    the parameter \<open>net\<close>.
  \<^item> The text of log messages, beyond their level and a fixed message.
  \<^item> The retry and back-off policy of the invoker beyond its attempt budget,
    and the content-hash algorithm: the specification lists both as
    excluded collaborators.
  \<^item> Concurrency inside a call: the heartbeat thread is interleaved between
    whole calls only.
\<close>

section \<open>The scenario's registered client is reachable\<close>

lemma step_s_init_registered: "session_step H s_init s_registered"
  by (rule session_step.call [where nt = net7 and c = CreateNode and r = "Inr ()"])
     (simp add: exec_op_def cm_simps create_node_s_init)

lemma reachable_s_registered: "reachable H s_registered"
proof -
  have i: "reachable H s_init"
    unfolding s_init_def by (rule reachable.init)
  from i step_s_init_registered show ?thesis by (rule reachable.step)
qed

section \<open>Properties of every reachable state\<close>

text \<open>
  C7: in every state reachable by any interleaving of calls, heartbeat ticks
  and cleanups, against any SuperLink, the heartbeat sender runs only while a
  node is registered.
\<close>

theorem heartbeat_only_when_registered:
  assumes "reachable H s" and "hb_running s"
  shows "node s \<noteq> None"
  using reachable_session_inv [OF assms(1)] assms(2) by (simp add: session_inv_def)

text \<open>
  C31: the specification's invariant "the heartbeat runs if and only if a
  node is registered" does not hold of the code: after a registration and
  an unregistration that the SuperLink answers with an error, the client
  keeps its node while the heartbeat sender is stopped.
\<close>

theorem registered_without_heartbeat:
  "\<exists>s. reachable toy_hash s \<and> node s = Some 7 \<and> \<not> hb_running s"
proof -
  let ?s' = "s_registered\<lparr>hb_running := False, events := events s_registered @
               [HeartbeatStopped, Post (url s_registered (DeleteNodeRequest 7)) (DeleteNodeRequest 7)]\<rparr>"
  have "delete_node net_unregister_fails s_registered = Some (?s', Inr ())"
    by (simp add: delete_node_Some Let_def request_first_reply check_response_def
        net_unregister_fails_def http_error_def url_def)
  then have "session_step toy_hash s_registered ?s'"
    by (intro session_step.call [where c = DeleteNode]) (simp add: exec_op_def)
  with reachable_s_registered have "reachable toy_hash ?s'" by (rule reachable.step)
  then show ?thesis by auto
qed

text \<open>
  C32: progress of the heartbeat. In every reachable state where the sender
  runs, the node is registered and, against any SuperLink, a tick of the
  sender is a step that returns and posts exactly one heartbeat for that
  node.
\<close>

theorem heartbeat_progress:
  assumes "reachable H s" and "hb_running s"
  shows "\<exists>n. node s = Some n \<and>
           (\<forall>nt. \<exists>s' r. heartbeat_tick nt s = Some (s', Inr r) \<and> session_step H s s' \<and>
                  posts (events s') = posts (events s) @ [SendNodeHeartbeatRequest n heartbeat_default_interval])"
proof -
  obtain n where n: "node s = Some n"
    using reachable_session_inv [OF assms(1)] assms(2) by (auto simp: session_inv_def)
  have "\<exists>s' r. heartbeat_tick nt s = Some (s', Inr r) \<and> session_step H s s' \<and>
          posts (events s') = posts (events s) @ [SendNodeHeartbeatRequest n heartbeat_default_interval]" for nt
  proof -
    obtain s' r where t: "heartbeat_tick nt s = Some (s', Inr r)"
      and p: "posts (events s') = posts (events s) @ [SendNodeHeartbeatRequest n heartbeat_default_interval]"
      using n by (cases "rpc_heartbeat nt n 0") (auto simp: heartbeat_tick_Some Let_def)
    moreover have "session_step H s s'" using assms(2) t by (rule session_step.tick)
    ultimately show ?thesis by blast
  qed
  with n show ?thesis by blast
qed

section \<open>A malformed pull reply ends the session\<close>

text \<open>
  A pull reply that lists a message for this node but no object tree makes
  \<open>receive\<close> raise \<open>IndexError\<close> at \<open>res.message_object_trees[0]\<close>
  (line 338), which the \<open>except ValueError\<close> of line 355 does not catch.
\<close>

lemma receive_missing_tree:
  assumes "node s = Some n" and "rpc_pull_messages nt n 0 = Inr (ok_reply r)"
    and "first_valid_message n r = Some md" and "message_object_trees r = []"
  shows "receive nt s =
    Some (s\<lparr>events := events s @ [Post (url s (PullMessagesRequest n)) (PullMessagesRequest n),
            Log INFO (''[Node] POST /'' @ api_path (PullMessagesRequest n) @ '': success'')]\<rparr>, Inl IndexError)"
  using assms by (simp add: receive_def receive_objects_def on_value_error_def cm_simps request_ok_first log_def emit_def)

text \<open>
  C36: the exception crosses the components. The context manager's handler
  (lines 462--463) logs it, the operations the caller meant to run after
  \<open>receive\<close> are skipped, and the \<open>finally\<close> block (lines 465--472) sets
  the retry budget to one attempt and unregisters the node: the session
  ends with the node unregistered and the heartbeat stopped.
\<close>

theorem malformed_pull_aborts_session:
  assumes "node s = Some n" and "rpc_pull_messages nt n 0 = Inr (ok_reply r)"
    and "first_valid_message n r = Some md" and "message_object_trees r = []"
    and "rpc_delete_node nt n 0 = Inr (ok_reply ())"
  shows "http_request_response H nt (Receive # ops) s =
    Some (s\<lparr>node := None, hb_running := False, max_tries := Some 1,
            events := events s @ [Post (url s (PullMessagesRequest n)) (PullMessagesRequest n),
              Log INFO (''[Node] POST /'' @ api_path (PullMessagesRequest n) @ '': success''),
              Log ERROR ''IndexError'', HeartbeatStopped,
              Post (url s (DeleteNodeRequest n)) (DeleteNodeRequest n)]\<rparr>, Inr ())"
proof -
  let ?es = "[Post (url s (PullMessagesRequest n)) (PullMessagesRequest n),
              Log INFO (''[Node] POST /'' @ api_path (PullMessagesRequest n) @ '': success''),
              Log ERROR ''IndexError'']"
  have body: "catch (for_each (exec_op H nt) (Receive # ops)) (\<lambda>e. log ERROR (exn_name e)) s =
      Some (s\<lparr>events := events s @ ?es\<rparr>, Inr ())"
    using receive_missing_tree [OF assms(1-4)] by (simp add: exec_op_def cm_simps log_def emit_def exn_name_def)
  have "url (s\<lparr>events := events s @ ?es, max_tries := Some 1\<rparr>) = url s" by (simp add: url_def fun_eq_iff)
  then have "cleanup nt (s\<lparr>events := events s @ ?es\<rparr>) =
      Some (s\<lparr>node := None, hb_running := False, max_tries := Some 1,
              events := events s @ ?es @ [HeartbeatStopped, Post (url s (DeleteNodeRequest n)) (DeleteNodeRequest n)]\<rparr>, Inr ())"
    using assms(1,5) by (simp add: cleanup_Some delete_node_ok)
  with body show ?thesis by (simp add: http_request_response_def cm_simps)
qed

section \<open>The properties on the scenario\<close>

text \<open>
  Each property with hypotheses, applied to the scenario of \<open>Scenario\<close>: node
  7, a message of three chunks, and SuperLinks that answer as scripted. The
  hypotheses are discharged by evaluation.
\<close>

theorem receive_roundtrip_witness:
  "\<exists>s'. receive net7 s7 = Some (s', Inr (Some msg7))"
  using Exchange.receive_roundtrip [of s7 7 msg7 toy_hash net7 store7]
  by (simp add: scenario_defs serves_message_def holds_message_def serves_chunk_def recursion_limit_def)

theorem confirm_failure_keeps_message_witness:
  "\<exists>s'. receive net_confirm_fails s7 = Some (s', Inr (Some msg7)) \<and>
     Log ERROR ''Pulling objects failed. Potential irrecoverable error'' \<in> set (events s')"
  using Exchange.confirm_failure_keeps_message [of s7 7 msg7 toy_hash net_confirm_fails store7 3]
  by (simp add: net_confirm_fails_def scenario_defs serves_message_def holds_message_def serves_chunk_def
      recursion_limit_def)

theorem receive_drops_misrouted_witness:
  "receive net_misrouted s7 =
     Some (s7\<lparr>events := [Post ''http://localhost:9095//api/v0/fleet/pull-messages'' (PullMessagesRequest 7)]\<rparr>, Inr None)"
  using Exchange.receive_drops_misrouted [of s7 7 net_misrouted
      "\<lparr>messages_list = [md7\<lparr>dst_node_id := 8\<rparr>], message_object_trees = [get_object_tree toy_hash (message_object msg7)]\<rparr>"]
  by (simp add: net_misrouted_def s7_def md7_def url_def)

theorem receive_fetches_each_chunk_once_witness:
  "\<exists>s'. receive net7 s7 = Some (s', Inr (Some msg7)) \<and>
     posts (events s') = [PullMessagesRequest 7] @
       map (PullObjectRequest 7 3) (remdups (tree_ids (get_object_tree toy_hash (message_object msg7)))) @
       [ConfirmMessageReceivedRequest 7 3 (message_id md7)]"
  using Exchange.receive_fetches_each_chunk_once [of s7 7 msg7 toy_hash net7 store7]
  by (simp add: scenario_defs serves_message_def holds_message_def serves_chunk_def recursion_limit_def)

theorem send_pushes_exactly_requested_witness:
  "\<exists>s'. send toy_hash net7 msg7 s7 = Some (s', Inr ()) \<and>
     posts (events s') = [push_msg_req toy_hash 7 msg7] @
       map (\<lambda>(k, v). PushObjectRequest 7 3 k (deflate toy_hash v)) (requested_objects toy_hash msg7 push_reply7)"
  using Exchange.send_pushes_exactly_requested [of s7 7 net7 msg7 toy_hash push_reply7]
  by (simp add: net7_def s7_def msg7_def md7_def push_reply7_def)

theorem send_uploads_once_by_content_id_witness:
  "\<exists>s' pushed. send toy_hash net7 msg7 s7 = Some (s', Inr ()) \<and>
     posts (events s') = [push_msg_req toy_hash 7 msg7] @ map (\<lambda>(i, d). PushObjectRequest 7 3 i d) pushed \<and>
     distinct (map fst pushed) \<and> (\<forall>(i, d) \<in> set pushed. toy_hash d = i) \<and>
     fst ` set pushed = {CHR ''c'' # [char_of (1::nat)], CHR ''c'' # [char_of (3::nat)]}"
proof -
  have "set (proto_map_get (objects_to_push push_reply7) (message_oid toy_hash msg7)) \<inter>
        obj_id toy_hash ` set (subobjs (message_object msg7)) = {CHR ''c'' # [char_of (1::nat)], CHR ''c'' # [char_of (3::nat)]}"
    by (auto simp: push_reply7_def msg7_def chunks7_def message_object_def toy_hash_def proto_map_get_def)
  then show ?thesis
    using Exchange.send_uploads_once_by_content_id [of s7 7 net7 msg7 toy_hash push_reply7]
    by (simp add: net7_def s7_def msg7_def md7_def push_reply7_def)
qed

theorem send_attempts_every_requested_chunk_witness:
  "\<exists>s' x. send toy_hash net_failing_uploads msg7 s7 = Some (s', x) \<and>
     (\<forall>(k, v) \<in> set (requested_objects toy_hash msg7 push_reply7).
        PushObjectRequest 7 3 k (deflate toy_hash v) \<in> set (posts (events s')))"
  using Exchange.send_attempts_every_requested_chunk [of s7 7 net_failing_uploads msg7 toy_hash push_reply7]
  by (simp add: net_failing_uploads_def net7_def s7_def msg7_def md7_def push_reply7_def)

theorem heartbeat_only_when_registered_witness:
  "\<exists>s. reachable toy_hash s \<and> hb_running s \<and> node s \<noteq> None"
proof -
  have r: "reachable toy_hash s_registered" by (rule reachable_s_registered)
  then have "node s_registered \<noteq> None" by (rule heartbeat_only_when_registered) simp
  with r show ?thesis by auto
qed

theorem delete_node_stops_heartbeat_first_witness:
  "\<exists>s' x. delete_node net_dead s7 = Some (s', x) \<and> \<not> hb_running s' \<and>
     (\<exists>k ws. 1 \<le> k \<and> k \<le> 3 \<and>
        events s' = HeartbeatStopped # replicate k (Post ''http://localhost:9095/api/v0/fleet/delete-node'' (DeleteNodeRequest 7)) @ ws)"
proof -
  have d: "delete_node net_dead s7 =
    Some (s7\<lparr>hb_running := False,
             events := HeartbeatStopped # replicate 3 (Post (url s7 (DeleteNodeRequest 7)) (DeleteNodeRequest 7))\<rparr>,
          Inl ConnectionError)"
    by (simp add: delete_node_Some Let_def request_unfold retry_loop.simps net_dead_def s7_def numeral_3_eq_3 url_def)
  show ?thesis
    using Session.delete_node_stops_heartbeat_first [OF _ d, of 7] d
    by (simp add: s7_def url_def) blast
qed

theorem cleanup_single_attempt_witness:
  "\<exists>s' x. cleanup net_dead s7 = Some (s', x) \<and> \<not> hb_running s' \<and>
     (\<exists>ws. events s' = [HeartbeatStopped, Post ''http://localhost:9095/api/v0/fleet/delete-node'' (DeleteNodeRequest 7)] @ ws \<and>
        set ws \<subseteq> {Log WARN w | w. True})"
  using Session.cleanup_single_attempt [of s7 7 net_dead] by (simp add: s7_def url_def)

theorem delete_node_failure_keeps_node_witness:
  "delete_node net_unregister_fails s7 =
     Some (s7\<lparr>hb_running := False,
              events := [HeartbeatStopped, Post ''http://localhost:9095/api/v0/fleet/delete-node'' (DeleteNodeRequest 7)]\<rparr>, Inr ())
   \<and> node s7 = Some 7"
  using Session.delete_node_failure_keeps_node [of s7 7 net_unregister_fails "\<lparr>status_code = 500, content_type = None, reply_body = ()\<rparr>"]
  by (simp add: s7_def url_def net_unregister_fails_def http_error_def)

theorem receive_failed_chunk_raises_witness:
  "\<exists>s'. receive net_lost_chunks s7 = Some (s', Inl UnboundLocalError)"
  using Exchange.receive_failed_chunk_raises [of s7 7 net_lost_chunks
      "\<lparr>messages_list = [md7], message_object_trees = [get_object_tree toy_hash (message_object msg7)]\<rparr>" md7
      "get_object_tree toy_hash (message_object msg7)" "[]"]
  by (simp add: net_lost_chunks_def net7_def s7_def md7_def first_valid_message_def http_error_def)

theorem heartbeat_tick_single_probe_witness:
  "\<exists>s' ws. heartbeat_tick net_rejecting s7 = Some (s', Inr HbFatal) \<and>
     events s' = Post ''http://localhost:9095/api/v0/fleet/send-node-heartbeat'' (SendNodeHeartbeatRequest 7 30) # ws"
  using Heartbeat.heartbeat_tick_single_probe [of s7 7 net_rejecting]
  by (auto simp: s7_def net_rejecting_def net7_def url_def heartbeat_default_interval_def ok_reply_def)

theorem create_node_ok_witness:
  "create_node net7 s_init = Some (s_registered, Inr (Some 7)) \<and> hb_running s_registered"
  using Session.create_node_ok [of net7 7 s_init] by (simp add: net7_def)

theorem create_node_failed_witness:
  "quiet s_init (s_init\<lparr>events := events s_init @ [Post (url s_init create_req) create_req]\<rparr>)"
  using Session.create_node_failed [of net_refusing s_init "s_init\<lparr>events := events s_init @ [Post (url s_init create_req) create_req]\<rparr>" "Inr None"]
  by (simp add: create_node_unfold request_first_reply check_response_def http_error_def net_refusing_def net_silent_def)

theorem request_posts_bounded_witness:
  "\<exists>n ws. 1 \<le> n \<and> n \<le> 3 \<and>
     replicate 3 (Post (url s7 (DeleteNodeRequest 7)) (DeleteNodeRequest 7)) =
       replicate n (Post (url s7 (DeleteNodeRequest 7)) (DeleteNodeRequest 7)) @ ws \<and>
     set ws \<subseteq> {Log WARN w | w. True}"
  using Transport.request_posts_bounded [OF dead_delete_request, of 3] by (simp add: s7_def)

theorem request_unbounded_dead_witness:
  "request (DeleteNodeRequest 7) True (rpc_delete_node net_dead 7) (s7\<lparr>max_tries := None\<rparr>) = None"
  using Transport.request_unbounded_dead [of "s7\<lparr>max_tries := None\<rparr>" "rpc_delete_node net_dead 7" "DeleteNodeRequest 7"]
  by (simp add: net_dead_def)

theorem receive_empty_queue_witness:
  "receive net_empty s7 =
     Some (s7\<lparr>events := [Post ''http://localhost:9095//api/v0/fleet/pull-messages'' (PullMessagesRequest 7)]\<rparr>, Inr None)"
  using Exchange.receive_empty_queue [of s7 7 net_empty "\<lparr>messages_list = [], message_object_trees = []\<rparr>"]
  by (simp add: net_empty_def s7_def url_def)


theorem setup_never_disables_verification_witness:
  "verify (initial_client ''https://h'' (Some (CertBytes [1])) True None) = Inl True \<and>
   Log ERROR ''Client authentication is not supported for this transport type.'' \<in>
     set (events (initial_client ''https://h'' (Some (CertBytes [1])) True None))"
  using Metadata.setup_never_disables_verification [of "''https://h''" "Some (CertBytes [1])" True None]
  by (simp add: initial_client_def connection_setup_def)

theorem delete_node_ok_witness:
  "delete_node net7 s7 =
     Some (s7\<lparr>node := None, hb_running := False,
              events := [HeartbeatStopped, Post ''http://localhost:9095/api/v0/fleet/delete-node'' (DeleteNodeRequest 7)]\<rparr>, Inr ())"
  using Session.delete_node_ok [of s7 7 net7] by (simp add: s7_def net7_def url_def)

theorem no_node_no_post_witness:
  "receive net7 s_init = Some (s_init\<lparr>events := events s_init @ [Log ERROR ''Node instance missing'']\<rparr>, Inr None) \<and>
   send toy_hash net7 msg7 s_init = Some (s_init\<lparr>events := events s_init @ [Log ERROR ''Node instance missing'']\<rparr>, Inr ())"
  using Exchange.no_node_no_post [of s_init net7 toy_hash msg7] by (simp add: s_init_def initial_client_def connection_setup_def)

theorem connect_returns_witness:
  "\<exists>s x. connect ''http://localhost:9095'' None False (Some 3) toy_hash net_dead [CreateNode, Receive, DeleteNode] =
     Some (s, x) \<and> \<not> hb_running s"
  using connect_returns [of "Some 3" "''http://localhost:9095''" None False toy_hash net_dead "[CreateNode, Receive, DeleteNode]"]
  by simp

theorem connect_unbounded_dead_witness:
  "connect ''http://localhost:9095'' None False None toy_hash net_unreachable [CreateNode, Receive] = None"
  using connect_unbounded_dead [of net_unreachable "''http://localhost:9095''" None False toy_hash "[Receive]"]
  by (simp add: net_unreachable_def)

theorem session_step_refines_witness:
  "\<exists>e. astep (None, False) e (Some 7, True)"
proof -
  have "session_step toy_hash s_init s_registered"
    by (rule session_step.call [where nt = net7 and c = CreateNode and r = "Inr ()"])
       (simp add: exec_op_def cm_simps create_node_s_init)
  then have "\<exists>e. astep (abs_session s_init) e (abs_session s_registered)"
    by (rule session_step_refines)
  then show ?thesis by (simp add: abs_session_def s_init_def)
qed

theorem get_run_result_witness:
  "get_run net7 5 s7 =
     Some (s7\<lparr>events := [Post (url s7 (GetRunRequest (Some 7) 5)) (GetRunRequest (Some 7) 5)]\<rparr>,
           Inr \<lparr>run_run_id = 5, run_fab_id = ''fab'', run_fab_version = ''1'', run_fab_hash = ''h''\<rparr>)"
  using get_run_result [of net7 s7 5
      "ok_reply \<lparr>proto_run_id = 5, proto_fab_id = ''fab'', proto_fab_version = ''1'', proto_fab_hash = ''h''\<rparr>"]
  by (simp add: net7_def s7_def ok_reply_def check_response_def run_from_proto_def)

theorem get_fab_result_witness:
  "get_fab net7 ''h'' 5 s7 =
     Some (s7\<lparr>events := [Post (url s7 (GetFabRequest (Some 7) ''h'' 5)) (GetFabRequest (Some 7) ''h'' 5)]\<rparr>,
           Inr \<lparr>fab_hash_str = ''h'', fab_content = [1]\<rparr>)"
  using get_fab_result [of net7 s7 "''h''" 5 "ok_reply \<lparr>proto_hash_str = ''h'', proto_content = [1]\<rparr>"]
  by (simp add: net7_def s7_def ok_reply_def check_response_def)

theorem heartbeat_without_node_witness:
  "heartbeat_tick net7 s_init = Some (s_init\<lparr>events := events s_init @ [Log ERROR ''Node instance missing'']\<rparr>, Inr HbNoResponse)"
  using heartbeat_without_node [of s_init net7] by (simp add: s_init_def)

theorem heartbeat_progress_witness:
  "\<exists>s' r. heartbeat_tick net_rejecting s_registered = Some (s', Inr r) \<and>
     posts (events s') = posts (events s_registered) @ [SendNodeHeartbeatRequest 7 heartbeat_default_interval]"
  using heartbeat_progress [OF reachable_s_registered [of toy_hash]] by (auto dest: spec [of _ net_rejecting])

theorem send_uploads_match_tree_witness:
  "\<exists>s' es. send toy_hash net7 msg7 s7 = Some (s', Inr ()) \<and> events s' = events s7 @ es \<and>
     (\<forall>rq \<in> set (posts es). (\<exists>n. rq = push_msg_req toy_hash n msg7) \<or>
        (\<exists>n r k d. rq = PushObjectRequest n r k d \<and> toy_hash d = k \<and>
           (\<exists>t \<in> set (iterate_object_tree (get_object_tree toy_hash (message_object msg7))).
              tree_object_id t = k \<and> map tree_object_id (tree_children t) = head_children d)))"
proof -
  obtain s' where s: "send toy_hash net7 msg7 s7 = Some (s', Inr ())"
    using send_served [of s7 7 net7 msg7 toy_hash push_reply7]
    by (fastforce simp: net7_def s7_def msg7_def md7_def push_reply7_def)
  show ?thesis
    using send_uploads_match_tree [OF s] s by blast
qed


theorem send_then_receive_witness:
  "\<exists>s'. send toy_hash net_all msg7 s7 = Some (s', Inr ()) \<and>
     (\<exists>t'. receive (net7\<lparr>rpc_pull_object := (\<lambda>n r i k. ok_pull_object (Composition.uploaded (posts (events s'))) i)\<rparr>) s7 =
       Some (t', Inr (Some msg7)))"
proof -
  have h1: "node s7 = Some 7" by (simp add: s7_def)
  have h2: "rpc_push_messages net_all 7 (metadata msg7) (get_object_tree toy_hash (message_object msg7)) 0 =
      Inr (ok_reply push_reply_all)" by (simp add: net_all_def net7_def)
  have h3: "objects_to_push push_reply_all \<noteq> []" by (simp add: push_reply_all_def)
  have h4: "set (proto_map_get (objects_to_push push_reply_all) (message_oid toy_hash msg7)) =
      obj_id toy_hash ` set (subobjs (message_object msg7))" by (simp add: push_reply_all_def proto_map_get_def)
  have h5: "\<forall>(k, v) \<in> set (get_all_nested_objects toy_hash (message_object msg7)).
      rpc_push_object net_all 7 (run_id (metadata msg7)) k (deflate toy_hash v) 0 = Inr (ok_reply ())"
    by (simp add: net_all_def net7_def)
  have h6: "collision_free toy_hash (message_object msg7)"
    by (simp add: collision_free_def scenario_defs)
  from send_then_receive [OF h1 h2 h3 h4 h5 h6] obtain s' where
    snd: "send toy_hash net_all msg7 s7 = Some (s', Inr ())"
    and hold: "holds_message toy_hash (Composition.uploaded (posts (events s'))) msg7"
    and rcv: "\<forall>t n' nt'. node t = Some n' \<longrightarrow> dst_node_id (metadata msg7) = n' \<longrightarrow>
              message_id (metadata msg7) = message_oid toy_hash msg7 \<longrightarrow> serves_message toy_hash nt' n' msg7 \<longrightarrow>
              (\<forall>i \<in> set (tree_ids (get_object_tree toy_hash (message_object msg7))).
                 serves_chunk nt' n' (run_id (metadata msg7)) (Composition.uploaded (posts (events s'))) i) \<longrightarrow>
              rpc_confirm nt' n' (run_id (metadata msg7)) (message_id (metadata msg7)) 0 = Inr (ok_reply ()) \<longrightarrow>
              obj_depth (message_object msg7) \<le> recursion_limit \<longrightarrow>
              (\<exists>t'. receive nt' t = Some (t', Inr (Some msg7)))"
    by blast
  let ?nt = "net7\<lparr>rpc_pull_object := (\<lambda>n r i k. ok_pull_object (Composition.uploaded (posts (events s'))) i)\<rparr>"
  have ch: "\<forall>i \<in> set (tree_ids (get_object_tree toy_hash (message_object msg7))).
      serves_chunk ?nt 7 (run_id (metadata msg7)) (Composition.uploaded (posts (events s'))) i"
    by (rule serves_from_store [OF hold]) (simp add: ok_pull_object_def)
  have "\<exists>t'. receive ?nt s7 = Some (t', Inr (Some msg7))"
    using spec [OF spec [OF spec [OF rcv, of s7], of 7], of ?nt] h1 ch
    by (simp add: scenario_defs serves_message_def recursion_limit_def)
  with snd show ?thesis by blast
qed


theorem registered_traces_back_witness:
  "create_req \<in> set (posts (events s_registered)) \<and> HeartbeatStarted \<in> set (events s_registered)"
  using Traces.registered_traces_back [OF reachable_s_registered [of toy_hash], of 7] by simp

theorem malformed_pull_aborts_session_witness:
  "http_request_response toy_hash net_treeless [Receive, GetRun 3] s_registered =
    Some (s_registered\<lparr>node := None, hb_running := False, max_tries := Some 1,
            events := events s_registered @ [Post (url s_registered (PullMessagesRequest 7)) (PullMessagesRequest 7),
              Log INFO (''[Node] POST /'' @ api_path (PullMessagesRequest 7) @ '': success''),
              Log ERROR ''IndexError'', HeartbeatStopped,
              Post (url s_registered (DeleteNodeRequest 7)) (DeleteNodeRequest 7)]\<rparr>, Inr ())"
  using malformed_pull_aborts_session [of s_registered 7 net_treeless
      "\<lparr>messages_list = [md7], message_object_trees = []\<rparr>" md7 toy_hash "[GetRun 3]"]
  by (simp add: net_treeless_def net7_def md7_def first_valid_message_def)


theorem send_posts_bounded_witness:
  "\<exists>s'. send toy_hash net7 msg7 s7 = Some (s', Inr ()) \<and> max_tries s' = Some 3 \<and>
     (\<exists>es. events s' = events s7 @ es \<and>
        length (posts es) \<le> max 1 3 * (1 + length (get_all_nested_objects toy_hash (message_object msg7))))"
proof -
  obtain s' where s: "send toy_hash net7 msg7 s7 = Some (s', Inr ())"
    using send_served [of s7 7 net7 msg7 toy_hash push_reply7]
    by (fastforce simp: net7_def s7_def msg7_def md7_def push_reply7_def)
  have m: "max_tries s7 = Some 3" by (simp add: s7_def)
  show ?thesis
    using Bounds.send_posts_bounded [OF m s] s by blast
qed

end
